(* ===== verification/Prelude.thy ===== *)
theory Prelude
  imports Main "HOL-Library.Finite_Map" "HOL-Library.List_Lexorder" "HOL-Library.Char_ord"
begin

text \<open>
  The vocabulary every component shares.

  Go's \<open>error\<close> values are \<open>error\<close> here: the sentinel an error wraps (what
  \<open>errors.Is\<close> looks for) and the text its \<open>Error()\<close> method returns.  A Go
  pair \<open>(T, error)\<close> is \<open>'a result\<close>, \<open>Inl\<close> the error; a lone \<open>error\<close> result is
  \<open>error option\<close>, \<open>None\<close> for \<open>nil\<close>.  Go strings and byte slices are \<open>string\<close>: HOL
  characters are bytes.  A Go map is a finite map, and a loop over its keys that sorts them
  afterwards is the sorted list of its domain.
\<close>

named_theorems eval_simps \<open>facts that compute closed terms of the model\<close>
named_theorems world_simps \<open>what each operation leaves unchanged in the world\<close>

section \<open>Errors\<close>

datatype sentinel =
    ErrAppNotFound
  | ErrAppAlreadyExists
  | ErrNoServices
  | ErrServiceNotAttached
  | ErrNotDetachable
  | ErrContainerNotRunning
  | ErrNonBackupable
  | ErrBackupNotFound
  | ErrNotExist
  | ErrNoRows

datatype error = Error (err_is: "sentinel option") (err_text: string)

type_synonym 'a result = "error + 'a"

text \<open>\<open>errors.New\<close> and a \<open>fmt.Errorf\<close> without \<open>%w\<close>.\<close>

definition errorf :: "string \<Rightarrow> error" where
  "errorf msg = Error None msg"

text \<open>\<open>fmt.Errorf("<pre>%w<post>", err)\<close>: the text around the wrapped error's own.\<close>

definition wrapf :: "string \<Rightarrow> error \<Rightarrow> string \<Rightarrow> error" where
  "wrapf pre e post = Error (err_is e) (pre @ err_text e @ post)"

lemma err_is_errorf [simp]: "err_is (errorf m) = None"
  by (simp add: errorf_def)

lemma err_is_wrapf [simp]: "err_is (wrapf a e b) = err_is e"
  by (simp add: wrapf_def)

lemma err_text_errorf [simp]: "err_text (errorf m) = m"
  by (simp add: errorf_def)

section \<open>Sorted key lists of finite maps\<close>

lemma sorted_list_of_fset_empty [simp]: "sorted_list_of_fset {||} = []"
  by (simp add: sorted_list_of_fset.rep_eq)

lemma sorted_list_of_fset_finsert [simp]:
  "sorted_list_of_fset (finsert x A) = insort x (sorted_list_of_fset (A |-| {|x|}))"
  by (simp add: sorted_list_of_fset.rep_eq sorted_list_of_set.sorted_key_list_of_set_insert_remove)

lemma sorted_sorted_list_of_fset [simp]: "sorted (sorted_list_of_fset A)"
  by (simp add: sorted_list_of_fset.rep_eq)

lemma distinct_sorted_list_of_fset [simp]: "distinct (sorted_list_of_fset A)"
  by (simp add: sorted_list_of_fset.rep_eq)

lemma strict_sorted_list_of_fset [simp]: "sorted_wrt (<) (sorted_list_of_fset A)"
  by (simp add: sorted_list_of_fset.rep_eq)

lemma set_keys_fmap: "set (sorted_list_of_fset (fmdom m)) = fset (fmdom m)"
  by simp

lemma length_keys_fmap: "length (sorted_list_of_fset A) = fcard A"
  by (simp add: sorted_list_of_fset.rep_eq fcard.rep_eq)

section \<open>Lists\<close>

text \<open>The loop that copies a list and drops what was seen before, keeping first occurrences.\<close>

fun dedup_from :: "'a set \<Rightarrow> 'a list \<Rightarrow> 'a list" where
  "dedup_from seen [] = []"
| "dedup_from seen (x # xs) =
     (if x \<in> seen then dedup_from seen xs else x # dedup_from (insert x seen) xs)"

lemma set_dedup_from: "set (dedup_from seen xs) = set xs - seen"
  by (induction xs arbitrary: seen) auto

lemma distinct_dedup_from: "distinct (dedup_from seen xs)"
  by (induction xs arbitrary: seen) (auto simp: set_dedup_from)

lemma dedup_from_id: "distinct xs \<Longrightarrow> set xs \<inter> seen = {} \<Longrightarrow> dedup_from seen xs = xs"
  by (induction xs arbitrary: seen) auto

lemma list_all_mono: "list_all P xs \<Longrightarrow> (\<And>x. P x \<Longrightarrow> Q x) \<Longrightarrow> list_all Q xs"
  by (simp add: list_all_iff)

lemma fset_of_fmdom_upd: "fset (fmdom (fmupd k v m)) = insert k (fset (fmdom m))"
  by simp

lemma fmlookup_dom_iff: "k |\<in>| fmdom m \<longleftrightarrow> fmlookup m k \<noteq> None"
  by (metis fmlookup_dom_iff option.distinct(1) option.exhaust)

section \<open>Simulation\<close>

text \<open>
  The contract between a detailed step relation and the specification it implements: a step from a good state keeps
  it good and is a number of steps of the specification on what the state stands for.  Then so are many, and what
  the specification never breaks is never broken.
\<close>

locale simulation =
  fixes step :: "'c \<Rightarrow> 'c \<Rightarrow> bool" and spec :: "'a \<Rightarrow> 'a \<Rightarrow> bool"
    and view :: "'c \<Rightarrow> 'a" and good :: "'c \<Rightarrow> bool"
  assumes good_step: "step c c' \<Longrightarrow> good c \<Longrightarrow> good c'"
    and spec_step: "step c c' \<Longrightarrow> good c \<Longrightarrow> spec\<^sup>*\<^sup>* (view c) (view c')"
begin

lemma good_steps: "step\<^sup>*\<^sup>* c c' \<Longrightarrow> good c \<Longrightarrow> good c'"
  by (induction rule: rtranclp_induct) (auto intro: good_step)

lemma spec_steps: "step\<^sup>*\<^sup>* c c' \<Longrightarrow> good c \<Longrightarrow> spec\<^sup>*\<^sup>* (view c) (view c')"
proof (induction rule: rtranclp_induct)
  case (step c' c'')
  then show ?case using good_steps spec_step rtranclp_trans by metis
qed simp

lemma inherits:
  assumes "\<And>a a'. spec a a' \<Longrightarrow> P a \<Longrightarrow> P a'" "step\<^sup>*\<^sup>* c c'" "good c" "P (view c)"
  shows "P (view c')"
  using spec_steps [OF assms(2,3)] assms(4) by (induction rule: rtranclp_induct) (auto intro: assms(1))

end

end
