(* ===== verification/GoStrings.thy ===== *)
theory GoStrings
  imports Prelude "HOL-Library.Sublist"
begin

text \<open>
  What the program uses of Go's \<open>strings\<close>, \<open>strconv\<close> and \<open>fmt\<close> packages, on byte
  strings, and the name pattern \<open>^[a-z][a-z0-9-]*$\<close> that the registry, the environment
  flags and the backup directory each compile.
\<close>

section \<open>Prefixes and suffixes\<close>

definition has_prefix :: "string \<Rightarrow> string \<Rightarrow> bool" where
  "has_prefix s p = (take (length p) s = p)"

definition has_suffix :: "string \<Rightarrow> string \<Rightarrow> bool" where
  "has_suffix s p = (length p \<le> length s \<and> drop (length s - length p) s = p)"

definition trim_prefix :: "string \<Rightarrow> string \<Rightarrow> string" where
  "trim_prefix s p = (if has_prefix s p then drop (length p) s else s)"

lemma has_prefix_iff: "has_prefix s p \<longleftrightarrow> (\<exists>r. s = p @ r)"
  by (metis append_eq_conv_conj append_take_drop_id has_prefix_def)

lemma has_suffix_iff: "has_suffix s p \<longleftrightarrow> (\<exists>r. s = r @ p)"
proof
  assume "has_suffix s p"
  then have "s = take (length s - length p) s @ p"
    by (metis append_take_drop_id has_suffix_def)
  then show "\<exists>r. s = r @ p" ..
qed (auto simp: has_suffix_def)

lemma has_prefix_append [simp]: "has_prefix (p @ r) p"
  by (simp add: has_prefix_def)

lemma has_suffix_append [simp]: "has_suffix (r @ p) p"
  by (auto simp: has_suffix_iff)

lemma trim_prefix_append [simp]: "trim_prefix (p @ r) p = r"
  by (simp add: trim_prefix_def)

section \<open>Splitting and joining\<close>

text \<open>\<open>strings.Split(s, sep)\<close> for a one-byte separator.\<close>

fun split_on :: "char \<Rightarrow> string \<Rightarrow> string list" where
  "split_on c [] = [[]]"
| "split_on c (x # xs) =
     (if x = c then [] # split_on c xs
      else (case split_on c xs of [] \<Rightarrow> [[x]] | p # ps \<Rightarrow> (x # p) # ps))"

fun join :: "string \<Rightarrow> string list \<Rightarrow> string" where
  "join sep [] = []"
| "join sep [s] = s"
| "join sep (s # t # ss) = s @ sep @ join sep (t # ss)"

text \<open>\<open>strings.Cut(s, sep)\<close>: what is before and after the first separator, if there is one.\<close>

fun cut :: "char \<Rightarrow> string \<Rightarrow> (string \<times> string) option" where
  "cut c [] = None"
| "cut c (x # xs) =
     (if x = c then Some ([], xs) else map_option (\<lambda>(b, a). (x # b, a)) (cut c xs))"

lemma split_on_nonempty [simp]: "split_on c s \<noteq> []"
  by (induction s) (auto split: list.splits)

lemma split_on_absent: "c \<notin> set s \<Longrightarrow> split_on c s = [s]"
  by (induction s) auto

lemma split_on_append:
  "c \<notin> set s \<Longrightarrow> split_on c (s @ c # t) = s # split_on c t"
  by (induction s) auto

lemma split_on_parts: "p \<in> set (split_on c s) \<Longrightarrow> c \<notin> set p"
  by (induction s arbitrary: p) (auto split: list.splits if_splits)

lemma join_split_on: "join [c] (split_on c s) = s"
proof (induction s)
  case (Cons x s)
  obtain p ps where "split_on c s = p # ps"
    by (meson list.exhaust split_on_nonempty)
  with Cons show ?case by (cases ps) auto
qed simp

lemma split_on_join:
  assumes "ss \<noteq> []" and "\<forall>s \<in> set ss. c \<notin> set s"
  shows "split_on c (join [c] ss) = ss"
  using assms by (induction "[c]" ss rule: join.induct) (auto simp: split_on_absent split_on_append)

lemma join_Cons: "ss \<noteq> [] \<Longrightarrow> join sep (s # ss) = s @ sep @ join sep ss"
  by (cases ss) auto

lemma set_join: "set (join sep ss) \<subseteq> set sep \<union> (\<Union>s \<in> set ss. set s)"
  by (induction sep ss rule: join.induct) auto

lemma cut_Some: "cut c s = Some (b, a) \<Longrightarrow> s = b @ c # a \<and> c \<notin> set b"
  by (induction s arbitrary: b) (auto split: if_splits)

lemma cut_append: "c \<notin> set b \<Longrightarrow> cut c (b @ c # a) = Some (b, a)"
  by (induction b) auto

lemma cut_None: "cut c s = None \<longleftrightarrow> c \<notin> set s"
  by (induction s) auto

text \<open>\<open>strings.ReplaceAll(s, old, new)\<close> for a non-empty \<open>old\<close>.\<close>

function replace_all :: "string \<Rightarrow> string \<Rightarrow> string \<Rightarrow> string" where
  "replace_all [] old new = []"
| "replace_all (c # cs) old new =
     (if old \<noteq> [] \<and> has_prefix (c # cs) old
      then new @ replace_all (drop (length old) (c # cs)) old new
      else c # replace_all cs old new)"
  by pat_completeness auto
termination
  by (relation "measure (\<lambda>(s, old, new). length s)") auto

lemma replace_all_absent: "old \<noteq> [] \<Longrightarrow> hd old \<notin> set s \<Longrightarrow> replace_all s old new = s"
  by (induction s old new rule: replace_all.induct) (auto simp: has_prefix_def neq_Nil_conv)

section \<open>Trimming\<close>

text \<open>
  The UTF-8 encodings of the runes \<open>unicode.IsSpace\<close> accepts: six ASCII bytes, U+0085,
  U+00A0, U+1680, U+2000 to U+200A, U+2028, U+2029, U+202F, U+205F and U+3000.  No encoding
  is a prefix or a suffix of another, so removing encodings from either end is removing runes.
\<close>

definition space_runes :: "string list" where
  "space_runes =
     map (\<lambda>n. [char_of (n::nat)]) [9, 10, 11, 12, 13, 32]
     @ map (\<lambda>n. [char_of (194::nat), char_of (n::nat)]) [133, 160]
     @ [[char_of (225::nat), char_of (154::nat), char_of (128::nat)]]
     @ map (\<lambda>n. [char_of (226::nat), char_of (128::nat), char_of (n::nat)])
         [128, 129, 130, 131, 132, 133, 134, 135, 136, 137, 138, 168, 169, 175]
     @ [[char_of (226::nat), char_of (129::nat), char_of (159::nat)],
        [char_of (227::nat), char_of (128::nat), char_of (128::nat)]]"

lemma find_SomeD: "find P xs = Some x \<Longrightarrow> P x \<and> x \<in> set xs"
  by (induction xs) (auto split: if_splits)

function strip_left :: "string list \<Rightarrow> string \<Rightarrow> string" where
  "strip_left ps s =
     (case find (\<lambda>p. p \<noteq> [] \<and> has_prefix s p) ps of
        None \<Rightarrow> s
      | Some p \<Rightarrow> strip_left ps (drop (length p) s))"
  by pat_completeness auto
termination
  by (relation "measure (\<lambda>(ps, s). length s)")
    (auto simp: has_prefix_iff dest!: find_SomeD)

declare strip_left.simps [simp del]

definition trim_left :: "string \<Rightarrow> string" where
  "trim_left s = strip_left space_runes s"

definition trim_right :: "string \<Rightarrow> string" where
  "trim_right s = rev (strip_left (map rev space_runes) (rev s))"

definition trim_space :: "string \<Rightarrow> string" where
  "trim_space s = trim_right (trim_left s)"

text \<open>\<open>strings.Trim(s, "/")\<close> and \<open>strings.TrimRight(s, cutset)\<close>: a set of bytes at the ends.\<close>

definition trim_right_set :: "char set \<Rightarrow> string \<Rightarrow> string" where
  "trim_right_set cs s = rev (dropWhile (\<lambda>c. c \<in> cs) (rev s))"

definition trim_set :: "char set \<Rightarrow> string \<Rightarrow> string" where
  "trim_set cs s = trim_right_set cs (dropWhile (\<lambda>c. c \<in> cs) s)"

text \<open>Bytes that begin or end no space rune: the printable ASCII characters.\<close>

definition graphic :: "char \<Rightarrow> bool" where
  "graphic c = (CHR ''!'' \<le> c \<and> c \<le> CHR ''~'')"

lemma space_runes_head:
  "p \<in> set space_runes \<Longrightarrow> p \<noteq> [] \<and> \<not> graphic (hd p) \<and> \<not> graphic (last p)"
  by (auto simp: space_runes_def graphic_def less_eq_char_def)

lemma strip_left_stop:
  assumes "\<forall>p \<in> set ps. p \<noteq> [] \<longrightarrow> \<not> has_prefix s p"
  shows "strip_left ps s = s"
proof -
  from assms have "find (\<lambda>p. p \<noteq> [] \<and> has_prefix s p) ps = None"
    by (auto simp: find_None_iff)
  then show ?thesis by (subst strip_left.simps) simp
qed

lemma strip_left_result:
  "\<forall>p \<in> set ps. p \<noteq> [] \<longrightarrow> \<not> has_prefix (strip_left ps s) p"
proof (induction ps s rule: strip_left.induct)
  case (1 ps s)
  show ?case
  proof (cases "find (\<lambda>p. p \<noteq> [] \<and> has_prefix s p) ps")
    case None
    then have "strip_left ps s = s" by (subst strip_left.simps) simp
    with None show ?thesis by (auto simp: find_None_iff)
  next
    case (Some p)
    then have "strip_left ps s = strip_left ps (drop (length p) s)"
      by (subst strip_left.simps) simp
    with "1.IH" [OF Some] show ?thesis by simp
  qed
qed

lemma trim_left_graphic: "s = [] \<or> graphic (hd s) \<Longrightarrow> trim_left s = s"
  unfolding trim_left_def
  by (rule strip_left_stop) (auto simp: has_prefix_iff dest: space_runes_head)

lemma trim_right_graphic: "s = [] \<or> graphic (last s) \<Longrightarrow> trim_right s = s"
  unfolding trim_right_def
proof (subst strip_left_stop)
  assume s: "s = [] \<or> graphic (last s)"
  show "\<forall>p\<in>set (map rev space_runes). p \<noteq> [] \<longrightarrow> \<not> has_prefix (rev s) p"
  proof (intro ballI impI notI)
    fix p assume "p \<in> set (map rev space_runes)" "p \<noteq> []" "has_prefix (rev s) p"
    then obtain q r where q: "q \<in> set space_runes" "rev s = rev q @ r" "q \<noteq> []"
      by (auto simp: has_prefix_iff)
    then have "s = rev r @ q" by (metis rev_append rev_rev_ident)
    with q s space_runes_head [OF q(1)] show False by auto
  qed
qed simp

lemma trim_space_graphic:
  "s = [] \<or> graphic (hd s) \<and> graphic (last s) \<Longrightarrow> trim_space s = s"
  by (auto simp: trim_space_def trim_left_graphic trim_right_graphic)

lemma trim_space_all_graphic: "list_all graphic s \<Longrightarrow> trim_space s = s"
  by (cases "s = []") (auto intro!: trim_space_graphic simp: list_all_iff)

lemma trim_space_Nil [simp]: "trim_space [] = []"
  by (simp add: trim_space_graphic)

lemma strip_left_idem [simp]: "strip_left ps (strip_left ps s) = strip_left ps s"
  by (rule strip_left_stop [OF strip_left_result])

lemma strip_left_suffix: "\<exists>u. s = u @ strip_left ps s"
proof (induction ps s rule: strip_left.induct)
  case (1 ps s)
  show ?case
  proof (cases "find (\<lambda>p. p \<noteq> [] \<and> has_prefix s p) ps")
    case None
    then show ?thesis by (subst strip_left.simps) simp
  next
    case (Some p)
    then have "has_prefix s p" by (auto dest: find_SomeD)
    then have "s = p @ drop (length p) s" by (metis append_take_drop_id has_prefix_def)
    moreover obtain u where "drop (length p) s = u @ strip_left ps (drop (length p) s)"
      using "1.IH" [OF Some] by blast
    ultimately have "s = (p @ u) @ strip_left ps (drop (length p) s)" by simp
    moreover have "strip_left ps s = strip_left ps (drop (length p) s)"
      using Some by (subst strip_left.simps) simp
    ultimately show ?thesis by metis
  qed
qed

lemma trim_space_idem [simp]: "trim_space (trim_space s) = trim_space s"
proof -
  obtain u where u: "rev (trim_left s) = u @ strip_left (map rev space_runes) (rev (trim_left s))"
    using strip_left_suffix by blast
  then have "trim_left s = trim_space s @ rev u"
    unfolding trim_space_def trim_right_def by (metis rev_append rev_rev_ident)
  then have "has_prefix (trim_left s) p" if "has_prefix (trim_space s) p" for p
    using that by (auto simp: has_prefix_iff)
  then have "trim_left (trim_space s) = trim_space s"
    unfolding trim_left_def using strip_left_result [of space_runes s]
    by (intro strip_left_stop) (auto simp: trim_left_def)
  then show ?thesis by (subst trim_space_def) (simp add: trim_space_def trim_right_def)
qed

text \<open>Trimming stops at a printable byte.\<close>

lemma space_runes_bytes: "p \<in> set space_runes \<Longrightarrow> c \<in> set p \<Longrightarrow> \<not> graphic c"
  by (auto simp: space_runes_def graphic_def less_eq_char_def)

lemma strip_left_stops_at:
  assumes "\<forall>p \<in> set ps. \<forall>c \<in> set p. \<not> graphic c" "graphic c"
  shows "\<exists>Y. strip_left ps (X @ c # t) = Y @ c # t"
proof (induction "length X" arbitrary: X rule: less_induct)
  case less
  show ?case
  proof (cases "find (\<lambda>p. p \<noteq> [] \<and> has_prefix (X @ c # t) p) ps")
    case None
    then have "strip_left ps (X @ c # t) = X @ c # t" by (subst strip_left.simps) simp
    then show ?thesis by blast
  next
    case (Some p)
    then have p: "p \<noteq> []" "has_prefix (X @ c # t) p" "p \<in> set ps" by (auto dest: find_SomeD)
    then obtain r where r: "X @ c # t = p @ r" by (auto simp: has_prefix_iff)
    have "c \<notin> set p" using assms p(3) by blast
    with r obtain us where X: "X = p @ us" "us @ c # t = r" by (auto simp: append_eq_append_conv2 Cons_eq_append_conv)
    then have "length us < length X" using p(1) by simp
    from less.hyps [OF this] obtain Y where "strip_left ps (us @ c # t) = Y @ c # t" by blast
    moreover have "strip_left ps (X @ c # t) = strip_left ps (us @ c # t)"
      using Some X by (subst strip_left.simps) simp
    ultimately show ?thesis by auto
  qed
qed

lemma trim_space_ends:
  assumes "t \<noteq> []" "graphic (hd t)" "graphic (last t)"
  shows "has_suffix (trim_space (X @ t)) t"
proof -
  obtain c u where t: "t = c # u" using assms(1) by (cases t) auto
  obtain Y where Y: "trim_left (X @ t) = Y @ t"
    using strip_left_stops_at [of space_runes c X u] assms(2) space_runes_bytes by (auto simp: trim_left_def t)
  moreover have "trim_right (Y @ t) = Y @ t" using assms by (intro trim_right_graphic) auto
  ultimately show ?thesis by (simp add: trim_space_def)
qed

section \<open>The name pattern\<close>

definition is_lower :: "char \<Rightarrow> bool" where
  "is_lower c = (CHR ''a'' \<le> c \<and> c \<le> CHR ''z'')"

definition is_digit :: "char \<Rightarrow> bool" where
  "is_digit c = (CHR ''0'' \<le> c \<and> c \<le> CHR ''9'')"

definition is_name_char :: "char \<Rightarrow> bool" where
  "is_name_char c = (is_lower c \<or> is_digit c \<or> c = CHR ''-'')"

fun name_pattern :: "string \<Rightarrow> bool" where
  "name_pattern [] = False"
| "name_pattern (c # cs) = (is_lower c \<and> list_all is_name_char cs)"

lemmas char_class_defs = is_lower_def is_digit_def is_name_char_def less_eq_char_def

lemma is_name_char_graphic: "is_name_char c \<Longrightarrow> graphic c"
  by (auto simp: char_class_defs graphic_def)

lemma name_pattern_chars: "name_pattern s \<Longrightarrow> list_all is_name_char s"
  by (cases s) (auto simp: is_name_char_def)

lemma name_pattern_graphic: "name_pattern s \<Longrightarrow> list_all graphic s"
  by (rule list_all_mono [OF name_pattern_chars is_name_char_graphic])

lemma trim_space_name: "name_pattern s \<Longrightarrow> trim_space s = s"
  by (rule trim_space_all_graphic [OF name_pattern_graphic])

lemma name_pattern_excludes:
  "name_pattern s \<Longrightarrow> \<not> is_name_char c \<Longrightarrow> c \<notin> set s"
  by (auto dest!: name_pattern_chars simp: list_all_iff)

lemma name_pattern_append:
  "name_pattern s \<Longrightarrow> list_all is_name_char t \<Longrightarrow> name_pattern (s @ t)"
  by (cases s) auto

section \<open>Formatting\<close>

definition digit_char :: "nat \<Rightarrow> char" where
  "digit_char d = char_of (48 + d)"

fun dec :: "nat \<Rightarrow> string" where
  "dec n = (if n < 10 then [digit_char n] else dec (n div 10) @ [digit_char (n mod 10)])"

declare dec.simps [simp del]

definition dec_int :: "int \<Rightarrow> string" where
  "dec_int i = (if i < 0 then CHR ''-'' # dec (nat (- i)) else dec (nat i))"

definition hex_digit :: "nat \<Rightarrow> char" where
  "hex_digit d = (if d < 10 then char_of (48 + d) else char_of (87 + d))"

text \<open>
  \<open>strconv.Quote\<close> (the \<open>%q\<close> verb).  Exact on ASCII; a byte from 128 on is left as it is,
  as Go leaves a printable rune.
\<close>

definition quote_char :: "char \<Rightarrow> string" where
  "quote_char c =
     (let n = of_char c :: nat in
      if n = 34 then [CHR 0x5C, CHR 0x22]
      else if n = 92 then [CHR 0x5C, CHR 0x5C]
      else if n = 7 then [CHR 0x5C, CHR ''a'']
      else if n = 8 then [CHR 0x5C, CHR ''b'']
      else if n = 12 then [CHR 0x5C, CHR ''f'']
      else if n = 10 then [CHR 0x5C, CHR ''n'']
      else if n = 13 then [CHR 0x5C, CHR ''r'']
      else if n = 9 then [CHR 0x5C, CHR ''t'']
      else if n = 11 then [CHR 0x5C, CHR ''v'']
      else if n < 32 \<or> n = 127
        then [CHR 0x5C, CHR ''x'', hex_digit (n div 16), hex_digit (n mod 16)]
      else [c])"

definition quote :: "string \<Rightarrow> string" where
  "quote s = [CHR 0x22] @ concat (map quote_char s) @ [CHR 0x22]"

end
