(* ===== verification/GoPath.thy ===== *)
theory GoPath
  imports GoStrings
begin

text \<open>
  Go's \<open>path/filepath\<close> on Unix: \<open>Clean\<close>, \<open>Join\<close>, \<open>Base\<close>, \<open>Dir\<close>, \<open>IsAbs\<close> and
  \<open>Rel\<close>, computed on the list of slash-separated components.  The lemmas say what these
  functions do to a rooted path extended by plain components, which is how the program
  builds every path it touches.
\<close>

definition slash :: char where
  "slash = CHR 0x2F"

definition is_abs :: "string \<Rightarrow> bool" where
  "is_abs p = (p \<noteq> [] \<and> hd p = slash)"

section \<open>Clean\<close>

text \<open>The components kept so far, innermost first.\<close>

definition clean_step :: "bool \<Rightarrow> string \<Rightarrow> string list \<Rightarrow> string list" where
  "clean_step rooted c st =
     (if c = [] \<or> c = ''.'' then st
      else if c = ''..'' then
        (case st of
           [] \<Rightarrow> (if rooted then [] else [''..''])
         | t # r \<Rightarrow> (if t = ''..'' then ''..'' # st else r))
      else c # st)"

definition clean_stack :: "string \<Rightarrow> string list" where
  "clean_stack p = fold (clean_step (is_abs p)) (split_on slash p) []"

definition render :: "bool \<Rightarrow> string list \<Rightarrow> string" where
  "render rooted cs =
     (if rooted then slash # join [slash] cs
      else if cs = [] then ''.'' else join [slash] cs)"

definition clean :: "string \<Rightarrow> string" where
  "clean p = render (is_abs p) (rev (clean_stack p))"

section \<open>Join, Base, Dir and Rel\<close>

definition path_join :: "string list \<Rightarrow> string" where
  "path_join es =
     (case dropWhile (\<lambda>e. e = []) es of
        [] \<Rightarrow> []
      | ne \<Rightarrow> clean (join [slash] ne))"

definition path_base :: "string \<Rightarrow> string" where
  "path_base p =
     (if p = [] then ''.''
      else let q = trim_right_set {slash} p in
        if q = [] then [slash] else last (split_on slash q))"

definition path_dir :: "string \<Rightarrow> string" where
  "path_dir p = clean (rev (dropWhile (\<lambda>c. c \<noteq> slash) (rev p)))"

fun strip_common :: "string list \<Rightarrow> string list \<Rightarrow> string list \<times> string list" where
  "strip_common (b # bs) (t # ts) =
     (if b = t then strip_common bs ts else (b # bs, t # ts))"
| "strip_common bs ts = (bs, ts)"

definition path_rel :: "string \<Rightarrow> string \<Rightarrow> string result" where
  "path_rel basepath targpath =
     (let base = clean basepath; targ = clean targpath in
      if targ = base then Inr ''.''
      else if is_abs base \<noteq> is_abs targ
        then Inl (errorf (''Rel: can't make '' @ targpath @ '' relative to '' @ basepath))
      else
        (case strip_common (rev (clean_stack base)) (rev (clean_stack targ)) of
           (bs, ts) \<Rightarrow>
             (if bs \<noteq> [] \<and> hd bs = ''..''
              then Inl (errorf (''Rel: can't make '' @ targpath @ '' relative to '' @ basepath))
              else Inr (join [slash] (replicate (length bs) ''..'' @ ts)))))"

section \<open>Plain components\<close>

definition plain :: "string \<Rightarrow> bool" where
  "plain c = (c \<noteq> [] \<and> c \<noteq> ''.'' \<and> c \<noteq> ''..'' \<and> slash \<notin> set c)"

lemma plain_clean_step [simp]: "plain c \<Longrightarrow> clean_step rooted c st = c # st"
  by (simp add: plain_def clean_step_def)

lemma fold_clean_plain:
  "list_all plain cs \<Longrightarrow> fold (clean_step rooted) cs st = rev cs @ st"
  by (induction cs arbitrary: st) auto

lemma clean_step_rooted:
  "list_all plain st \<Longrightarrow> slash \<notin> set c \<Longrightarrow> list_all plain (clean_step True c st)"
  by (auto simp: clean_step_def plain_def split: list.splits)

lemma fold_clean_rooted:
  "list_all plain st \<Longrightarrow> \<forall>c \<in> set cs. slash \<notin> set c \<Longrightarrow>
   list_all plain (fold (clean_step True) cs st)"
  by (induction cs arbitrary: st) (auto simp: clean_step_rooted)

lemma clean_stack_plain: "is_abs p \<Longrightarrow> list_all plain (clean_stack p)"
  unfolding clean_stack_def by (rule subst [of True "is_abs p"])
    (auto intro!: fold_clean_rooted dest: split_on_parts)

lemma plain_parts: "list_all plain cs \<Longrightarrow> \<forall>c \<in> set cs. slash \<notin> set c"
  by (auto simp: list_all_iff plain_def)

text \<open>A rooted path in normal form: a slash and plain components between slashes.\<close>

definition rooted_path :: "string list \<Rightarrow> string" where
  "rooted_path cs = slash # join [slash] cs"

lemma is_abs_rooted [simp]: "is_abs (rooted_path cs)"
  by (simp add: rooted_path_def is_abs_def)

lemma split_rooted_path:
  "list_all plain cs \<Longrightarrow> cs \<noteq> [] \<Longrightarrow> split_on slash (rooted_path cs) = [] # cs"
  by (simp add: rooted_path_def split_on_join plain_parts)

lemma clean_stack_rooted: "list_all plain cs \<Longrightarrow> clean_stack (rooted_path cs) = rev cs"
proof (cases "cs = []")
  case True
  then show ?thesis by (simp add: clean_stack_def rooted_path_def clean_step_def)
next
  case False
  assume "list_all plain cs"
  with False show ?thesis
    by (simp add: clean_stack_def split_rooted_path fold_clean_plain clean_step_def)
qed

lemma clean_rooted [simp]: "list_all plain cs \<Longrightarrow> clean (rooted_path cs) = rooted_path cs"
  by (simp add: clean_def clean_stack_rooted render_def) (simp add: rooted_path_def)

lemma clean_abs: "is_abs p \<Longrightarrow> clean p = rooted_path (rev (clean_stack p))"
  by (simp add: clean_def render_def rooted_path_def)

lemma clean_abs_obtain:
  assumes "is_abs p"
  obtains cs where "list_all plain cs" and "clean p = rooted_path cs"
  using assms clean_abs clean_stack_plain by (metis list_all_rev)

lemma join_append:
  "xs \<noteq> [] \<Longrightarrow> ys \<noteq> [] \<Longrightarrow> join sep (xs @ ys) = join sep xs @ sep @ join sep ys"
  by (induction sep xs rule: join.induct) (auto simp: join_Cons)

lemma fold_clean_rooted_join:
  assumes "list_all plain cs" "list_all plain ds" "ds \<noteq> []"
  shows "clean (rooted_path cs @ slash # join [slash] ds) = rooted_path (cs @ ds)"
proof (cases "cs = []")
  case True
  have "split_on slash (slash # slash # join [slash] ds) = [] # [] # ds"
    using assms by (simp add: split_on_join plain_parts)
  with True assms show ?thesis
    by (simp add: clean_def clean_stack_def rooted_path_def is_abs_def fold_clean_plain
        clean_step_def render_def)
next
  case False
  with assms have "rooted_path cs @ slash # join [slash] ds = rooted_path (cs @ ds)"
    by (simp add: rooted_path_def join_append)
  with assms show ?thesis by simp
qed

lemma rooted_path_nonempty [simp]: "rooted_path cs \<noteq> []"
  by (simp add: rooted_path_def)

lemma path_join_rooted:
  assumes "list_all plain cs" "list_all plain ds" "ds \<noteq> []"
  shows "path_join (rooted_path cs # ds) = rooted_path (cs @ ds)"
  using assms fold_clean_rooted_join [OF assms]
  by (simp add: path_join_def join_Cons)

lemma strip_common_append: "strip_common cs (cs @ ds) = ([], ds)"
  by (induction cs) simp_all

lemma join_slash_inj:
  assumes "list_all plain cs" "list_all plain ds" "join [slash] cs = join [slash] ds"
  shows "cs = ds"
proof (cases "cs = [] \<or> ds = []")
  case True
  have ne: "join [slash] xs \<noteq> []" if "list_all plain xs" "xs \<noteq> []" for xs
    using that by (cases "tl xs"; cases xs) (auto simp: plain_def join_Cons)
  from True assms ne show ?thesis by (metis join.simps(1))
next
  case False
  with assms show ?thesis by (metis plain_parts split_on_join)
qed

lemma rooted_path_inj:
  "list_all plain cs \<Longrightarrow> list_all plain ds \<Longrightarrow> rooted_path cs = rooted_path ds \<longleftrightarrow> cs = ds"
  by (auto simp: rooted_path_def dest: join_slash_inj)

lemma path_rel_below:
  assumes "list_all plain cs" "list_all plain ds" "ds \<noteq> []"
  shows "path_rel (rooted_path cs) (rooted_path (cs @ ds)) = Inr (join [slash] ds)"
proof -
  have "rooted_path (cs @ ds) \<noteq> rooted_path cs"
    using assms by (subst rooted_path_inj) auto
  with assms show ?thesis
    by (simp add: path_rel_def clean_stack_rooted strip_common_append)
qed

lemma path_base_rooted:
  assumes "list_all plain (cs @ [d])"
  shows "path_base (rooted_path (cs @ [d])) = d"
proof -
  have d: "d \<noteq> []" "slash \<notin> set d"
    using assms by (auto simp: plain_def)
  have l: "\<exists>pre. rooted_path (cs @ [d]) = pre @ slash # d"
    by (cases "cs = []") (auto simp: rooted_path_def join_append)
  then obtain pre where pre: "rooted_path (cs @ [d]) = pre @ slash # d" by blast
  have last: "last d \<noteq> slash" using d by (metis last_in_set)
  have "dropWhile (\<lambda>c. c = slash) (rev d @ slash # rev pre) = rev d @ slash # rev pre"
    using d last by (simp add: dropWhile_eq_self_iff hd_append hd_rev)
  then have "trim_right_set {slash} (rooted_path (cs @ [d])) = rooted_path (cs @ [d])"
    by (simp add: trim_right_set_def pre)
  moreover have "last (split_on slash (rooted_path (cs @ [d]))) = d"
    using assms by (simp add: split_rooted_path)
  ultimately show ?thesis by (simp add: path_base_def Let_def)
qed

lemma path_dir_rooted:
  assumes "list_all plain (cs @ [d])"
  shows "path_dir (rooted_path (cs @ [d])) = rooted_path cs"
proof -
  have d: "slash \<notin> set d" using assms by (auto simp: plain_def)
  have *: "dropWhile (\<lambda>c. c \<noteq> slash) (rev d @ slash # x) = slash # x" for x
    using d by (subst dropWhile_append2) auto
  show ?thesis
  proof (cases "cs = []")
    case True
    with * [of "[]"] assms show ?thesis
      by (simp add: path_dir_def rooted_path_def clean_def clean_stack_def clean_step_def
          is_abs_def render_def)
  next
    case False
    then have "rooted_path (cs @ [d]) = rooted_path cs @ slash # d"
      by (simp add: rooted_path_def join_append)
    then have "path_dir (rooted_path (cs @ [d])) = clean (rooted_path cs @ [slash])"
      by (simp add: path_dir_def *)
    moreover have "split_on slash (rooted_path cs @ [slash]) = [] # cs @ [[]]"
    proof -
      have "split_on slash (join [slash] (cs @ [[]])) = cs @ [[]]"
        using assms by (intro split_on_join) (auto dest: plain_parts)
      with False show ?thesis by (simp add: rooted_path_def join_append)
    qed
    ultimately show ?thesis
      using assms by (simp add: clean_def clean_stack_def fold_clean_plain clean_step_def
          render_def is_abs_def rooted_path_def)
  qed
qed

section \<open>A path extended by a suffix is another path\<close>

text \<open>The length of a cleaned path, read off the stack of its components.\<close>

definition stack_length :: "bool \<Rightarrow> string list \<Rightarrow> nat" where
  "stack_length r st = length (render r (rev st))"

lemma stack_length_Nil [simp]: "stack_length r [] = 1"
  by (simp add: stack_length_def render_def)

lemma stack_length_single [simp]: "stack_length r [c] = (if r then 1 else 0) + length c"
  by (simp add: stack_length_def render_def)

lemma stack_length_Cons [simp]:
  "st \<noteq> [] \<Longrightarrow> stack_length r (c # st) = stack_length r st + 1 + length c"
  by (simp add: stack_length_def render_def join_append)

lemma stack_length_mono:
  "list_all (\<lambda>c. c \<noteq> []) st \<Longrightarrow> length c < length d \<Longrightarrow> 2 \<le> length d \<Longrightarrow>
   stack_length r (c # st) < stack_length r (d # st) \<and> stack_length r st < stack_length r (d # st)"
  by (cases "st = []") auto

lemma clean_step_nonempty:
  "list_all (\<lambda>c. c \<noteq> []) st \<Longrightarrow> list_all (\<lambda>c. c \<noteq> []) (clean_step r c st)"
  by (auto simp: clean_step_def split: list.splits)

lemma fold_clean_nonempty:
  "list_all (\<lambda>c. c \<noteq> []) st \<Longrightarrow> list_all (\<lambda>c. c \<noteq> []) (fold (clean_step r) cs st)"
  by (induction cs arbitrary: st) (auto simp: clean_step_nonempty)

lemma clean_step_shorter:
  assumes "list_all (\<lambda>c. c \<noteq> []) st" "3 \<le> length t"
  shows "stack_length r (clean_step r l st) < stack_length r ((l @ t) # st)"
proof (cases "l = ''..'' \<and> st \<noteq> [] \<and> hd st \<noteq> ''..''")
  case True
  then obtain s r' where st: "st = s # r'" by (cases st) auto
  then have "stack_length r r' \<le> stack_length r st"
    using assms by (cases "r' = []") (auto simp: Suc_le_eq)
  moreover have "stack_length r st < stack_length r ((l @ t) # st)"
    using assms True by (simp add: st)
  ultimately show ?thesis using True st by (simp add: clean_step_def)
next
  case False
  with assms stack_length_mono [OF assms(1), of l "l @ t" r] show ?thesis
    by (auto simp: clean_step_def split: list.splits)
qed

lemma split_on_suffix:
  "slash \<notin> set t \<Longrightarrow>
   split_on slash (p @ t) = butlast (split_on slash p) @ [last (split_on slash p) @ t]"
  by (induction p) (auto simp: split_on_absent split: list.splits)

lemma clean_suffix_neq:
  assumes "slash \<notin> set t" "3 \<le> length t" "p \<noteq> []"
  shows "clean (p @ t) \<noteq> clean p"
proof -
  define r cs l where "r = is_abs p" and "cs = butlast (split_on slash p)"
    and "l = last (split_on slash p)"
  define st where "st = fold (clean_step r) cs []"
  have r: "is_abs (p @ t) = r" using assms by (simp add: r_def is_abs_def)
  have p: "split_on slash p = cs @ [l]" by (simp add: cs_def l_def)
  have "clean_step r (l @ t) st = (l @ t) # st"
    using assms by (auto simp: clean_step_def dest!: arg_cong [where f = length])
  then have "length (clean (p @ t)) = stack_length r ((l @ t) # st)"
    using assms by (simp add: clean_def clean_stack_def split_on_suffix r stack_length_def
        flip: cs_def l_def st_def)
  moreover have "length (clean p) = stack_length r (clean_step r l st)"
    by (simp add: clean_def clean_stack_def p stack_length_def flip: r_def st_def)
  moreover have "list_all (\<lambda>c. c \<noteq> []) st"
    by (simp add: st_def fold_clean_nonempty)
  ultimately show ?thesis
    using clean_step_shorter [of st t r l] assms by auto
qed

end
