(* ===== verification/World.thy ===== *)
theory World
  imports GoPath
begin

text \<open>
  What the program acts on.  \<open>'d world\<close> is the mutable part: the files, the state of the
  Docker daemon and its containers (any type \<open>'d\<close>), the record of every \<open>docker\<close> process the
  program has started, the messages sent to the \<open>Reporter\<close>, and a counter that every
  mutating operation advances.  \<open>'d host\<close> is what the program cannot choose: the process
  environment, the clock, the random source, which file operations fail and how, and what
  a \<open>docker\<close> command answers.  It also holds the one part of the standard library that is not
  written out here, the decimal forms of floating-point numbers: how \<open>encoding/json\<close> prints
  the \<open>float64\<close> of a number literal (\<open>None\<close> when it overflows) and how \<open>%v\<close> does.  The clock, the random source and the faults are read at
  the current counter, so two calls of the same operation may end differently.

  A file is found under its cleaned path.  A failed write may leave any content behind.
\<close>

datatype fnode = Dir | File (fdata: string) (fmtime: int)

datatype fs_op = OpRead | OpStat | OpReadDir | OpWrite | OpMkdir | OpRename | OpRemove

datatype level = Success | Failure | Info | Warn | Title

datatype exit_status = ExitOk | ExitCode int | NotStarted

record cmd_result =
  status :: exit_status
  stdout :: string
  stderr :: string

record 'd world =
  files :: "(string, fnode) fmap"
  daemon :: 'd
  calls :: "(string list \<times> string option) list"
  report :: "(level \<times> string) list"
  tick :: nat

record 'd host =
  getenv :: "string \<Rightarrow> string"
  getwd :: "string result"
  clock :: "nat \<Rightarrow> int"
  entropy :: "nat \<Rightarrow> nat \<Rightarrow> char"
  fault :: "nat \<Rightarrow> fs_op \<Rightarrow> string \<Rightarrow> (string \<times> string option) option"
  json_float :: "string \<Rightarrow> string option"
  show_float :: "string \<Rightarrow> string"
  docker_run :: "'d \<Rightarrow> string list \<Rightarrow> string option \<Rightarrow> cmd_result \<times> 'd"

section \<open>Messages, random bytes and the clock\<close>

definition emit :: "level \<Rightarrow> string \<Rightarrow> 'd world \<Rightarrow> 'd world" where
  "emit l m w = w\<lparr>report := report w @ [(l, m)]\<rparr>"

definition rand_bytes :: "'d host \<Rightarrow> nat \<Rightarrow> 'd world \<Rightarrow> string \<times> 'd world" where
  "rand_bytes h n w = (map (entropy h (tick w)) [0..<n], w\<lparr>tick := Suc (tick w)\<rparr>)"

definition time_now :: "'d host \<Rightarrow> 'd world \<Rightarrow> int" where
  "time_now h w = clock h (tick w)"

section \<open>Files\<close>

definition lookup_file :: "'d world \<Rightarrow> string \<Rightarrow> fnode option" where
  "lookup_file w p = fmlookup (files w) (clean p)"

definition put_file :: "string \<Rightarrow> fnode \<Rightarrow> 'd world \<Rightarrow> 'd world" where
  "put_file p n w = w\<lparr>files := fmupd (clean p) n (files w), tick := Suc (tick w)\<rparr>"

definition drop_file :: "string \<Rightarrow> 'd world \<Rightarrow> 'd world" where
  "drop_file p w = w\<lparr>files := fmdrop (clean p) (files w), tick := Suc (tick w)\<rparr>"

definition fails :: "'d host \<Rightarrow> 'd world \<Rightarrow> fs_op \<Rightarrow> string \<Rightarrow> error option" where
  "fails h w oper p = map_option (\<lambda>(m, _). errorf m) (fault h (tick w) oper (clean p))"

definition not_exist :: "string \<Rightarrow> string \<Rightarrow> error" where
  "not_exist call p = Error (Some ErrNotExist) (call @ '' '' @ p @ '': no such file or directory'')"

definition read_file :: "'d host \<Rightarrow> 'd world \<Rightarrow> string \<Rightarrow> string result" where
  "read_file h w p =
     (case fails h w OpRead p of
        Some e \<Rightarrow> Inl e
      | None \<Rightarrow>
          (case lookup_file w p of
             None \<Rightarrow> Inl (not_exist ''open'' p)
           | Some Dir \<Rightarrow> Inl (errorf (''read '' @ p @ '': is a directory''))
           | Some (File c _) \<Rightarrow> Inr c))"

definition stat :: "'d host \<Rightarrow> 'd world \<Rightarrow> string \<Rightarrow> fnode result" where
  "stat h w p =
     (case fails h w OpStat p of
        Some e \<Rightarrow> Inl e
      | None \<Rightarrow>
          (case lookup_file w p of
             None \<Rightarrow> Inl (not_exist ''stat'' p)
           | Some n \<Rightarrow> Inr n))"

text \<open>\<open>os.ReadDir\<close>: the entries of a directory, sorted by file name.\<close>

definition dir_names :: "'d world \<Rightarrow> string \<Rightarrow> string list" where
  "dir_names w d =
     sort (map path_base
       (filter (\<lambda>p. path_dir p = clean d \<and> p \<noteq> clean d) (sorted_list_of_fset (fmdom (files w)))))"

definition read_dir :: "'d host \<Rightarrow> 'd world \<Rightarrow> string \<Rightarrow> string list result" where
  "read_dir h w d =
     (case fails h w OpReadDir d of
        Some e \<Rightarrow> Inl e
      | None \<Rightarrow>
          (case lookup_file w d of
             None \<Rightarrow> Inl (not_exist ''open'' d)
           | Some (File _ _) \<Rightarrow> Inl (errorf (''readdir '' @ d @ '': not a directory''))
           | Some Dir \<Rightarrow> Inr (dir_names w d)))"

definition write_file :: "'d host \<Rightarrow> string \<Rightarrow> string \<Rightarrow> 'd world \<Rightarrow> error option \<times> 'd world" where
  "write_file h p c w =
     (case fault h (tick w) OpWrite (clean p) of
        Some (m, None) \<Rightarrow> (Some (errorf m), w\<lparr>tick := Suc (tick w)\<rparr>)
      | Some (m, Some part) \<Rightarrow> (Some (errorf m), put_file p (File part (time_now h w)) w)
      | None \<Rightarrow>
          (case lookup_file w p of
             Some Dir \<Rightarrow> (Some (errorf (''open '' @ p @ '': is a directory'')), w)
           | _ \<Rightarrow> (None, put_file p (File c (time_now h w)) w)))"

definition remove_file :: "'d host \<Rightarrow> string \<Rightarrow> 'd world \<Rightarrow> error option \<times> 'd world" where
  "remove_file h p w =
     (case fails h w OpRemove p of
        Some e \<Rightarrow> (Some e, w\<lparr>tick := Suc (tick w)\<rparr>)
      | None \<Rightarrow>
          (case lookup_file w p of
             None \<Rightarrow> (Some (not_exist ''remove'' p), w)
           | Some Dir \<Rightarrow>
               (if dir_names w p = [] then (None, drop_file p w)
                else (Some (errorf (''remove '' @ p @ '': directory not empty'')), w))
           | Some (File _ _) \<Rightarrow> (None, drop_file p w)))"

definition rename_file :: "'d host \<Rightarrow> string \<Rightarrow> string \<Rightarrow> 'd world \<Rightarrow> error option \<times> 'd world" where
  "rename_file h a b w =
     (case fails h w OpRename b of
        Some e \<Rightarrow> (Some e, w\<lparr>tick := Suc (tick w)\<rparr>)
      | None \<Rightarrow>
          (case (lookup_file w a, lookup_file w b) of
             (None, _) \<Rightarrow> (Some (not_exist ''rename'' a), w)
           | (_, Some Dir) \<Rightarrow> (Some (errorf (''rename '' @ a @ '' '' @ b @ '': file exists'')), w)
           | (Some n, _) \<Rightarrow> (None, put_file b n (drop_file a w))))"

text \<open>\<open>os.MkdirAll\<close>: every missing directory on the way to the path.\<close>

fun path_prefixes :: "string list \<Rightarrow> string list list" where
  "path_prefixes [] = [[]]"
| "path_prefixes (c # cs) = [] # map ((#) c) (path_prefixes cs)"

definition dir_chain :: "string \<Rightarrow> string list" where
  "dir_chain p = map (render (is_abs p)) (path_prefixes (rev (clean_stack p)))"

definition mkdir_all :: "'d host \<Rightarrow> string \<Rightarrow> 'd world \<Rightarrow> error option \<times> 'd world" where
  "mkdir_all h p w =
     (case fails h w OpMkdir p of
        Some e \<Rightarrow> (Some e, w\<lparr>tick := Suc (tick w)\<rparr>)
      | None \<Rightarrow>
          (if list_all (\<lambda>d. fmlookup (files w) d \<in> {None, Some Dir}) (dir_chain p)
           then (None, w\<lparr>files := fold (\<lambda>d m. fmupd d Dir m) (dir_chain p) (files w),
                         tick := Suc (tick w)\<rparr>)
           else (Some (errorf (''mkdir '' @ p @ '': not a directory'')), w)))"

section \<open>Docker processes\<close>

text \<open>
  \<open>exec.CommandContext(ctx, "docker", args...).Run()\<close>: the arguments and the standard input
  are recorded, the daemon answers.
\<close>

definition run_docker ::
  "'d host \<Rightarrow> string list \<Rightarrow> string option \<Rightarrow> 'd world \<Rightarrow> cmd_result \<times> 'd world" where
  "run_docker h args input w =
     (case docker_run h (daemon w) args input of
        (r, d) \<Rightarrow> (r, w\<lparr>daemon := d, calls := calls w @ [(args, input)], tick := Suc (tick w)\<rparr>))"

section \<open>What each operation leaves alone\<close>

lemma emit_sel [simp]:
  "files (emit l m w) = files w" "daemon (emit l m w) = daemon w" "calls (emit l m w) = calls w"
  "tick (emit l m w) = tick w" "report (emit l m w) = report w @ [(l, m)]"
  by (simp_all add: emit_def)

lemma put_file_sel [simp]:
  "files (put_file p n w) = fmupd (clean p) n (files w)" "daemon (put_file p n w) = daemon w"
  "calls (put_file p n w) = calls w" "report (put_file p n w) = report w"
  "tick (put_file p n w) = Suc (tick w)"
  by (simp_all add: put_file_def)

lemma drop_file_sel [simp]:
  "files (drop_file p w) = fmdrop (clean p) (files w)" "daemon (drop_file p w) = daemon w"
  "calls (drop_file p w) = calls w" "report (drop_file p w) = report w"
  "tick (drop_file p w) = Suc (tick w)"
  by (simp_all add: drop_file_def)

lemma lookup_file_tick [simp]: "lookup_file (w\<lparr>tick := t\<rparr>) p = lookup_file w p"
  by (simp add: lookup_file_def)

lemma lookup_file_emit [simp]: "lookup_file (emit l m w) p = lookup_file w p"
  by (simp add: lookup_file_def)

lemma lookup_put_file: "lookup_file (put_file p n w) q = (if clean p = clean q then Some n else lookup_file w q)"
  by (simp add: lookup_file_def)

lemma lookup_drop_file: "lookup_file (drop_file p w) q = (if clean p = clean q then None else lookup_file w q)"
  by (simp add: lookup_file_def)

lemma write_file_frame [world_simps]:
  "write_file h p c w = (r, w') \<Longrightarrow>
     daemon w' = daemon w \<and> calls w' = calls w \<and> report w' = report w"
  by (auto simp: write_file_def split: option.splits prod.splits fnode.splits)

lemma remove_file_frame [world_simps]:
  "remove_file h p w = (r, w') \<Longrightarrow>
     daemon w' = daemon w \<and> calls w' = calls w \<and> report w' = report w"
  by (auto simp: remove_file_def split: option.splits fnode.splits if_splits)

lemma rename_file_frame [world_simps]:
  "rename_file h a b w = (r, w') \<Longrightarrow>
     daemon w' = daemon w \<and> calls w' = calls w \<and> report w' = report w"
  by (auto simp: rename_file_def split: option.splits fnode.splits)

lemma mkdir_all_frame [world_simps]:
  "mkdir_all h p w = (r, w') \<Longrightarrow>
     daemon w' = daemon w \<and> calls w' = calls w \<and> report w' = report w"
  by (auto simp: mkdir_all_def split: option.splits if_splits)

lemma run_docker_frame [world_simps]:
  "run_docker h args input w = (r, w') \<Longrightarrow>
     files w' = files w \<and> report w' = report w \<and> calls w' = calls w @ [(args, input)]"
  by (auto simp: run_docker_def split: prod.splits)

lemma write_file_other:
  "write_file h p c w = (r, w') \<Longrightarrow> clean q \<noteq> clean p \<Longrightarrow> lookup_file w' q = lookup_file w q"
  by (auto simp: write_file_def lookup_put_file split: option.splits prod.splits fnode.splits)

lemma write_file_ok:
  "write_file h p c w = (None, w') \<Longrightarrow> lookup_file w' p = Some (File c (time_now h w))"
  by (auto simp: write_file_def lookup_put_file split: option.splits prod.splits fnode.splits)

lemma remove_file_other:
  "remove_file h p w = (r, w') \<Longrightarrow> clean q \<noteq> clean p \<Longrightarrow> lookup_file w' q = lookup_file w q"
  by (auto simp: remove_file_def lookup_drop_file split: option.splits fnode.splits if_splits)

lemma rename_file_ok:
  "rename_file h a b w = (None, w') \<Longrightarrow> lookup_file w' b = lookup_file w a"
  by (auto simp: rename_file_def lookup_put_file lookup_drop_file
      split: option.splits fnode.splits)

lemma rename_file_other:
  "rename_file h a b w = (r, w') \<Longrightarrow> clean q \<noteq> clean a \<Longrightarrow> clean q \<noteq> clean b \<Longrightarrow>
   lookup_file w' q = lookup_file w q"
  by (auto simp: rename_file_def lookup_put_file lookup_drop_file
      split: option.splits fnode.splits)

lemma rename_file_fail:
  "rename_file h a b w = (Some e, w') \<Longrightarrow> lookup_file w' q = lookup_file w q"
  by (auto simp: rename_file_def split: option.splits fnode.splits)

lemma fmlookup_fold_dirs:
  "fmlookup (fold (\<lambda>d m. fmupd d Dir m) ds m) k = (if k \<in> set ds then Some Dir else fmlookup m k)"
  by (induction ds arbitrary: m) auto

lemma mkdir_all_file:
  assumes "mkdir_all h p w = (r, w')" "lookup_file w q = Some (File c t)"
  shows "lookup_file w' q = Some (File c t)"
  using assms by (fastforce simp: mkdir_all_def lookup_file_def fmlookup_fold_dirs list_all_iff
      split: option.splits if_splits)

end
