(* ===== verification/Dotenv.thy ===== *)
theory Dotenv
  imports World
begin

text \<open>
  The readers of \<open>.env\<close> files.  \<open>internal/registry\<close> and \<open>internal/config\<close> parse the
  whole file into a map (\<open>parse_dotenv\<close>); the service packages scan for one key
  (\<open>read_key\<close>, the same function three times in the source).  The registry climbs from
  its own directory to the first directory that holds a \<open>.env\<close>; the climb is shared with
  the root discovery of \<open>internal/config\<close>.
\<close>

section \<open>Parsing\<close>

definition quoted_by :: "char \<Rightarrow> string \<Rightarrow> bool" where
  "quoted_by q v = (has_prefix v [q] \<and> has_suffix v [q])"

definition unquote :: "string \<Rightarrow> string" where
  "unquote v =
     (if 2 \<le> length v \<and> (quoted_by (CHR 0x22) v \<or> quoted_by (CHR 0x27) v)
      then butlast (tl v) else v)"

definition parse_line :: "string \<Rightarrow> (string \<times> string) option" where
  "parse_line raw =
     (let line = trim_space raw in
      if line = [] \<or> has_prefix line ''#'' then None
      else (case cut (CHR ''='') line of
          None \<Rightarrow> None
        | Some (key, value) \<Rightarrow> Some (trim_space key, unquote (trim_space value))))"

definition add_line :: "string \<Rightarrow> (string \<rightharpoonup> string) \<Rightarrow> (string \<rightharpoonup> string)" where
  "add_line raw env =
     (case parse_line raw of None \<Rightarrow> env | Some (k, v) \<Rightarrow> env(k \<mapsto> v))"

definition parse_dotenv :: "string \<Rightarrow> (string \<rightharpoonup> string)" where
  "parse_dotenv content = fold add_line (split_on (CHR 0x0A) content) Map.empty"

text \<open>Go's \<open>env[key]\<close> on a \<open>map[string]string\<close>.\<close>

definition env_get :: "(string \<rightharpoonup> string) \<Rightarrow> string \<Rightarrow> string" where
  "env_get env k = (case env k of None \<Rightarrow> [] | Some v \<Rightarrow> v)"

text \<open>\<open>readKey\<close>: the value on the first line that starts with the key and an equals sign.\<close>

fun read_key_lines :: "string \<Rightarrow> string list \<Rightarrow> string" where
  "read_key_lines key [] = []"
| "read_key_lines key (l # ls) =
     (let line = trim_space l in
      if has_prefix line (key @ ''='')
      then unquote (trim_space (trim_prefix line (key @ ''='')))
      else read_key_lines key ls)"

definition read_key :: "string \<Rightarrow> string \<Rightarrow> string" where
  "read_key content key = read_key_lines key (split_on (CHR 0x0A) content)"

section \<open>Climbing to the root\<close>

definition path_abs :: "'d host \<Rightarrow> string \<Rightarrow> string result" where
  "path_abs h p =
     (if is_abs p then Inr (clean p)
      else (case getwd h of Inl e \<Rightarrow> Inl e | Inr wd \<Rightarrow> Inr (path_join [wd, p])))"

text \<open>
  Try a directory, then its parent, until the parent is the directory itself.  The fuel is
  the number of directories tried; \<open>None\<close> means it ran out.
\<close>

fun climb :: "nat \<Rightarrow> (string \<Rightarrow> 'a option) \<Rightarrow> string \<Rightarrow> 'a option option" where
  "climb 0 f d = None"
| "climb (Suc n) f d =
     (case f d of
        Some a \<Rightarrow> Some (Some a)
      | None \<Rightarrow> (if path_dir d = d then Some None else climb n f (path_dir d)))"

fun first_some :: "('b \<Rightarrow> 'a option) \<Rightarrow> 'b list \<Rightarrow> 'a option" where
  "first_some f [] = None"
| "first_some f (x # xs) = (case f x of Some a \<Rightarrow> Some a | None \<Rightarrow> first_some f xs)"

text \<open>The directories from a rooted path up to the root.\<close>

definition ancestors :: "string list \<Rightarrow> string list" where
  "ancestors cs = map rooted_path (rev (path_prefixes cs))"

lemma path_prefixes_snoc: "path_prefixes (cs @ [c]) = path_prefixes cs @ [cs @ [c]]"
  by (induction cs) auto

lemma ancestors_snoc: "ancestors (cs @ [c]) = rooted_path (cs @ [c]) # ancestors cs"
  by (simp add: ancestors_def path_prefixes_snoc)

lemma ancestors_Nil: "ancestors [] = [rooted_path []]"
  by (simp add: ancestors_def)

lemma path_dir_root: "path_dir (rooted_path []) = rooted_path []"
  by (simp add: path_dir_def rooted_path_def clean_def clean_stack_def clean_step_def is_abs_def
      render_def)

lemma climb_rooted:
  "list_all plain cs \<Longrightarrow> length cs < n \<Longrightarrow>
   climb n f (rooted_path cs) = Some (first_some f (ancestors cs))"
proof (induction cs arbitrary: n rule: rev_induct)
  case Nil
  then show ?case by (cases n) (auto simp: ancestors_Nil path_dir_root split: option.split)
next
  case (snoc c cs)
  then obtain m where n: "n = Suc m" by (cases n) auto
  have "rooted_path (cs @ [c]) \<noteq> rooted_path cs"
    using snoc.prems by (subst rooted_path_inj) auto
  with snoc n show ?case
    by (auto simp: ancestors_snoc path_dir_rooted split: option.split)
qed

lemma length_rooted_path: "list_all plain cs \<Longrightarrow> length cs < length (rooted_path cs) + 1"
proof (induction cs rule: rev_induct)
  case (snoc c cs)
  then show ?case by (cases "cs = []") (auto simp: rooted_path_def join_append plain_def Suc_le_eq)
qed simp

lemma climb_enough:
  assumes "is_abs d"
  shows "\<exists>r. climb (Suc (length (clean d))) f (clean d) = Some r"
  using clean_abs_obtain [OF assms] length_rooted_path climb_rooted
  by (metis Suc_eq_plus1)

section \<open>The registry's secret\<close>

text \<open>\<open>loadDotenv(startDir)\<close> of \<open>internal/registry\<close>.\<close>

definition dotenv_at :: "'d host \<Rightarrow> 'd world \<Rightarrow> string \<Rightarrow> (string \<rightharpoonup> string) option" where
  "dotenv_at h w d =
     (case read_file h w (path_join [d, ''.env'']) of
        Inl _ \<Rightarrow> None
      | Inr content \<Rightarrow> Some (parse_dotenv content))"

definition load_dotenv :: "'d host \<Rightarrow> 'd world \<Rightarrow> string \<Rightarrow> (string \<rightharpoonup> string)" where
  "load_dotenv h w start =
     (case path_abs h start of
        Inl _ \<Rightarrow> Map.empty
      | Inr d \<Rightarrow>
          (case climb (Suc (length d)) (dotenv_at h w) d of
             Some (Some env) \<Rightarrow> env
           | _ \<Rightarrow> Map.empty))"

definition secret_keys :: "string list" where
  "secret_keys = [''INFRA_SHELF_SECRET'', ''INFRA_SHELF_REGISTRY_SECRET'']"

text \<open>The first key whose trimmed value is not empty.\<close>

definition first_secret :: "(string \<Rightarrow> string) \<Rightarrow> string option" where
  "first_secret get =
     first_some (\<lambda>k. let v = trim_space (get k) in if v = [] then None else Some v) secret_keys"

definition registry_secret :: "'d host \<Rightarrow> 'd world \<Rightarrow> string \<Rightarrow> string result" where
  "registry_secret h w start =
     (case first_secret (getenv h) of
        Some v \<Rightarrow> Inr v
      | None \<Rightarrow>
          (case first_secret (env_get (load_dotenv h w start)) of
             Some v \<Rightarrow> Inr v
           | None \<Rightarrow> Inl (errorf
               ''INFRA_SHELF_SECRET is required to read the encrypted registry'')))"

lemma first_some_SomeD: "first_some f xs = Some a \<Longrightarrow> \<exists>x \<in> set xs. f x = Some a"
  by (induction xs) (auto split: option.splits)

lemma first_some_None: "first_some f xs = None \<longleftrightarrow> (\<forall>x \<in> set xs. f x = None)"
  by (induction xs) (auto split: option.splits)

lemma registry_secret_nonempty: "registry_secret h w d = Inr s \<Longrightarrow> s \<noteq> []"
  by (auto simp: registry_secret_def first_secret_def Let_def
      dest!: first_some_SomeD split: option.splits if_splits)

text \<open>The nearest enclosing \<open>.env\<close> is the one that counts.\<close>

lemma load_dotenv_nearest:
  assumes "list_all plain cs"
  shows "load_dotenv h w (rooted_path cs)
    = (case first_some (dotenv_at h w) (ancestors cs) of None \<Rightarrow> Map.empty | Some env \<Rightarrow> env)"
proof -
  have "climb (Suc (length (rooted_path cs))) (dotenv_at h w) (rooted_path cs)
      = Some (first_some (dotenv_at h w) (ancestors cs))"
    using assms length_rooted_path [OF assms] by (intro climb_rooted) auto
  then show ?thesis
    using assms by (simp add: load_dotenv_def path_abs_def split: option.split del: climb.simps)
qed

section \<open>The two readers agree\<close>

text \<open>The lines of a file that assign a key, in order.\<close>

definition assigned :: "string \<Rightarrow> string list \<Rightarrow> string list" where
  "assigned k ls = map snd (filter (\<lambda>(k', _). k' = k) (List.map_filter parse_line ls))"

lemma fold_add_line:
  "fold add_line ls env k = (if assigned k ls = [] then env k else Some (last (assigned k ls)))"
proof (induction ls arbitrary: env)
  case Nil
  then show ?case by (simp add: assigned_def List.map_filter_def)
next
  case (Cons l ls)
  then show ?case
    by (cases "parse_line l") (auto simp: assigned_def List.map_filter_def add_line_def split: prod.splits)
qed

lemma parse_dotenv_last:
  "parse_dotenv content k =
     (let vs = assigned k (split_on (CHR 0x0A) content) in if vs = [] then None else Some (last vs))"
  by (simp add: parse_dotenv_def fold_add_line Let_def)

text \<open>A key as the program spells its variables: no equals sign, no comment mark, no space.\<close>

definition env_key :: "string \<Rightarrow> bool" where
  "env_key k = (k \<noteq> [] \<and> list_all graphic k \<and> CHR ''='' \<notin> set k \<and> hd k \<noteq> CHR ''#'')"

lemma parse_line_prefix:
  assumes "env_key k" "has_prefix (trim_space l) (k @ ''='')"
  shows "parse_line l = Some (k, unquote (trim_space (trim_prefix (trim_space l) (k @ ''=''))))"
proof -
  obtain r where r: "trim_space l = k @ CHR ''='' # r"
    using assms(2) by (auto simp: has_prefix_iff)
  have k: "k \<noteq> []" "hd k \<noteq> CHR ''#''" "CHR ''='' \<notin> set k" "trim_space k = k"
    using assms(1) by (auto simp: env_key_def trim_space_all_graphic)
  then have "\<not> has_prefix (trim_space l) ''#''"
    by (cases k) (auto simp: r has_prefix_def)
  with k show ?thesis
    using trim_prefix_append [of "k @ ''=''" r]
    by (auto simp: parse_line_def r cut_append Let_def)
qed

lemma read_key_first:
  assumes "env_key k"
    and "\<forall>l \<in> set ls. \<forall>v. parse_line l = Some (k, v) \<longrightarrow> has_prefix (trim_space l) (k @ ''='')"
  shows "read_key_lines k ls = (if assigned k ls = [] then [] else hd (assigned k ls))"
  using assms(2)
proof (induction ls)
  case Nil
  then show ?case by (simp add: assigned_def List.map_filter_def)
next
  case (Cons l ls)
  show ?case
  proof (cases "has_prefix (trim_space l) (k @ ''='')")
    case True
    then show ?thesis
      using parse_line_prefix [OF assms(1) True] by (simp add: assigned_def List.map_filter_def Let_def)
  next
    case False
    with Cons show ?thesis
      by (auto simp: assigned_def List.map_filter_def Let_def split: option.splits)
  qed
qed

end
