(* ===== verification/Registry.thy ===== *)
theory Registry
  imports Dotenv
begin

text \<open>
  The data of \<open>internal/registry/registry.go\<close>: the per-service configurations, the app
  entry, the registry, and the pure operations on them (service parsing, the catalog queries
  and the rendering of an app's \<open>.env\<close> file).  A nil pointer in \<open>Services\<close> is \<open>None\<close>.
\<close>

section \<open>Service names\<close>

abbreviation Postgres :: string where "Postgres \<equiv> ''postgres''"
abbreviation Redis :: string where "Redis \<equiv> ''redis''"
abbreviation RabbitMQ :: string where "RabbitMQ \<equiv> ''rabbitmq''"
abbreviation AIStor :: string where "AIStor \<equiv> ''aistor''"
abbreviation MongoDB :: string where "MongoDB \<equiv> ''mongodb''"
abbreviation Signoz :: string where "Signoz \<equiv> ''signoz''"

definition valid_services :: "string list" where
  "valid_services = [Postgres, Redis, RabbitMQ, AIStor, MongoDB, Signoz]"

definition service_catalog :: "string list" where
  "service_catalog = [Postgres, Redis, RabbitMQ, AIStor, MongoDB, Signoz]"

definition app_name_pattern :: "string \<Rightarrow> bool" where
  "app_name_pattern s = name_pattern s"

definition validate_app_name :: "string \<Rightarrow> error option" where
  "validate_app_name name =
     (if app_name_pattern name then None else Some (errorf (''invalid app name '' @ quote name)))"

fun parse_services_from :: "string set \<Rightarrow> string list \<Rightarrow> string list result" where
  "parse_services_from seen [] = Inr []"
| "parse_services_from seen (v # vs) =
     (let value = trim_space v in
      if value = [] then parse_services_from seen vs
      else if value \<notin> set valid_services then Inl (errorf (''invalid service '' @ quote value))
      else if value \<in> seen then parse_services_from seen vs
      else map_sum id ((#) value) (parse_services_from (insert value seen) vs))"

definition parse_services :: "string list \<Rightarrow> string list result" where
  "parse_services values = parse_services_from {} values"

section \<open>Configurations and entries\<close>

record PostgresConfig =
  pg_Database :: string
  pg_Username :: string
  pg_Password :: string

record RedisConfig =
  redis_Username :: string
  redis_Password :: string
  redis_Prefix :: string

record RabbitMQConfig =
  rmq_Vhost :: string
  rmq_Username :: string
  rmq_Password :: string

record AIStorConfig =
  s3_Bucket :: string
  s3_AccessKey :: string
  s3_SecretKey :: string
  s3_Endpoint :: string

record MongoDBConfig =
  mongo_Database :: string
  mongo_Username :: string
  mongo_Password :: string

record SignozConfig =
  otel_ServiceName :: string
  otel_Environment :: string

record Services =
  svcPostgres :: "PostgresConfig option"
  svcRedis :: "RedisConfig option"
  svcRabbitMQ :: "RabbitMQConfig option"
  svcAIStor :: "AIStorConfig option"
  svcMongoDB :: "MongoDBConfig option"
  svcSignoz :: "SignozConfig option"

record AppEntry =
  CreatedAt :: string
  Environment :: string
  SignozServiceName :: string
  Svcs :: Services

record Registry =
  Version :: int
  Apps :: "(string, AppEntry) fmap"

record App =
  AppName :: string
  AppCreatedAt :: string
  Entry :: AppEntry

definition no_services :: Services where
  "no_services = \<lparr>svcPostgres = None, svcRedis = None, svcRabbitMQ = None, svcAIStor = None,
     svcMongoDB = None, svcSignoz = None\<rparr>"

definition empty_registry :: Registry where
  "empty_registry = \<lparr>Version = 1, Apps = fmempty\<rparr>"

section \<open>Queries\<close>

definition app_has_service :: "AppEntry \<Rightarrow> string \<Rightarrow> bool" where
  "app_has_service e name =
     (if name = Postgres then svcPostgres (Svcs e) \<noteq> None
      else if name = Redis then svcRedis (Svcs e) \<noteq> None
      else if name = RabbitMQ then svcRabbitMQ (Svcs e) \<noteq> None
      else if name = AIStor then svcAIStor (Svcs e) \<noteq> None
      else if name = MongoDB then svcMongoDB (Svcs e) \<noteq> None
      else if name = Signoz then svcSignoz (Svcs e) \<noteq> None
      else False)"

definition non_backupable :: "string \<Rightarrow> bool" where
  "non_backupable s = (s = Signoz)"

definition addon :: "string \<Rightarrow> bool" where
  "addon s = (s = Signoz)"

definition missing_services :: "App \<Rightarrow> string list" where
  "missing_services a =
     filter (\<lambda>s. \<not> addon s \<and> \<not> app_has_service (Entry a) s) service_catalog"

definition missing_addons :: "App \<Rightarrow> string list" where
  "missing_addons a =
     filter (\<lambda>s. addon s \<and> \<not> app_has_service (Entry a) s) service_catalog"

definition service_names :: "App \<Rightarrow> string list" where
  "service_names a =
     (if svcPostgres (Svcs (Entry a)) \<noteq> None then [Postgres] else [])
     @ (if svcRedis (Svcs (Entry a)) \<noteq> None then [Redis] else [])
     @ (if svcRabbitMQ (Svcs (Entry a)) \<noteq> None then [RabbitMQ] else [])
     @ (if svcAIStor (Svcs (Entry a)) \<noteq> None then [AIStor] else [])
     @ (if svcMongoDB (Svcs (Entry a)) \<noteq> None then [MongoDB] else [])
     @ (if svcSignoz (Svcs (Entry a)) \<noteq> None then [Signoz] else [])"

definition backupable_service_names :: "App \<Rightarrow> string list" where
  "backupable_service_names a = filter (\<lambda>n. \<not> non_backupable n) (service_names a)"

definition apps_of :: "Registry \<Rightarrow> App list" where
  "apps_of r =
     map (\<lambda>n. case fmlookup (Apps r) n of
            Some e \<Rightarrow> \<lparr>AppName = n, AppCreatedAt = CreatedAt e, Entry = e\<rparr>)
       (sorted_list_of_fset (fmdom (Apps r)))"

definition find_app :: "Registry \<Rightarrow> string \<Rightarrow> App option" where
  "find_app r name =
     map_option (\<lambda>e. \<lparr>AppName = name, AppCreatedAt = CreatedAt e, Entry = e\<rparr>)
       (fmlookup (Apps r) name)"

section \<open>The .env file of an app\<close>

definition newline :: string where
  "newline = [CHR 0x0A]"

text \<open>\<open>url.PathEscape\<close>.\<close>

definition path_segment_char :: "char \<Rightarrow> bool" where
  "path_segment_char c =
     (is_lower c \<or> is_digit c \<or> (CHR ''A'' \<le> c \<and> c \<le> CHR ''Z'') \<or> c \<in> set ''-_.~$&+:=@'')"

definition upper_hex :: "nat \<Rightarrow> char" where
  "upper_hex d = (if d < 10 then char_of (48 + d) else char_of (55 + d))"

definition percent :: "char \<Rightarrow> string" where
  "percent c = (let n = of_char c :: nat in [CHR ''%'', upper_hex (n div 16), upper_hex (n mod 16)])"

definition path_escape :: "string \<Rightarrow> string" where
  "path_escape s = concat (map (\<lambda>c. if path_segment_char c then [c] else percent c) s)"

definition postgres_env :: "PostgresConfig \<Rightarrow> string" where
  "postgres_env cfg = join newline
     [''# === PostgreSQL ==='',
      ''DATABASE_URL=postgres://'' @ pg_Username cfg @ '':'' @ pg_Password cfg
        @ ''@postgres:5432/'' @ pg_Database cfg,
      ''DB_HOST=postgres'',
      ''DB_PORT=5432'',
      ''DB_USERNAME='' @ pg_Username cfg,
      ''DB_PASSWORD='' @ pg_Password cfg,
      ''DB_NAME='' @ pg_Database cfg]"

definition redis_env :: "RedisConfig \<Rightarrow> string" where
  "redis_env cfg = join newline
     [''# === Redis ==='',
      ''REDIS_URL=redis://'' @ redis_Username cfg @ '':'' @ redis_Password cfg @ ''@redis:6379/0'',
      ''REDIS_HOST=redis'',
      ''REDIS_PORT=6379'',
      ''REDIS_USERNAME='' @ redis_Username cfg,
      ''REDIS_PASSWORD='' @ redis_Password cfg,
      ''REDIS_PREFIX='' @ redis_Prefix cfg]"

definition rabbitmq_env :: "RabbitMQConfig \<Rightarrow> string" where
  "rabbitmq_env cfg = join newline
     [''# === RabbitMQ ==='',
      ''AMQP_URL=amqp://'' @ rmq_Username cfg @ '':'' @ rmq_Password cfg @ ''@rabbitmq:5672/''
        @ path_escape (rmq_Vhost cfg),
      ''RABBITMQ_HOST=rabbitmq'',
      ''RABBITMQ_PORT=5672'',
      ''RABBITMQ_USERNAME='' @ rmq_Username cfg,
      ''RABBITMQ_PASSWORD='' @ rmq_Password cfg,
      ''RABBITMQ_VHOST='' @ rmq_Vhost cfg]"

definition signoz_env :: "SignozConfig \<Rightarrow> string" where
  "signoz_env cfg =
     (let attrs = ''service.name='' @ otel_ServiceName cfg
            @ '',service.namespace=infra-shelf,deployment.environment='' @ otel_Environment cfg in
      join newline
     [''# === SignOz (OpenTelemetry) ==='',
      ''OTEL_EXPORTER_OTLP_ENDPOINT=http://signoz-otel-collector:4317'',
      ''OTEL_EXPORTER_OTLP_PROTOCOL=grpc'',
      ''OTEL_SERVICE_NAME='' @ otel_ServiceName cfg,
      ''OTEL_RESOURCE_ATTRIBUTES='' @ attrs,
      ''OTEL_TRACES_EXPORTER=otlp'',
      ''OTEL_METRICS_EXPORTER=otlp'',
      ''OTEL_LOGS_EXPORTER=otlp''])"

definition aistor_env :: "AIStorConfig \<Rightarrow> string" where
  "aistor_env cfg = join newline
     [''# === AIStor (S3) ==='',
      ''S3_ENDPOINT='' @ s3_Endpoint cfg,
      ''S3_BUCKET='' @ s3_Bucket cfg,
      ''S3_REGION=us-east-1'',
      ''S3_ACCESS_KEY_ID='' @ s3_AccessKey cfg,
      ''S3_SECRET_ACCESS_KEY='' @ s3_SecretKey cfg,
      ''S3_FORCE_PATH_STYLE=true'',
      ''AWS_ENDPOINT_URL='' @ s3_Endpoint cfg,
      ''AWS_ACCESS_KEY_ID='' @ s3_AccessKey cfg,
      ''AWS_SECRET_ACCESS_KEY='' @ s3_SecretKey cfg,
      ''AWS_REGION=us-east-1'']"

definition mongodb_env :: "MongoDBConfig \<Rightarrow> string" where
  "mongodb_env cfg = join newline
     [''# === MongoDB ==='',
      ''MONGODB_URL=mongodb://'' @ mongo_Username cfg @ '':'' @ mongo_Password cfg
        @ ''@mongodb:27017/'' @ mongo_Database cfg @ ''?authSource='' @ mongo_Database cfg,
      ''MONGODB_HOST=mongodb'',
      ''MONGODB_PORT=27017'',
      ''MONGODB_USERNAME='' @ mongo_Username cfg,
      ''MONGODB_PASSWORD='' @ mongo_Password cfg,
      ''MONGODB_DATABASE='' @ mongo_Database cfg]"

definition opt_block :: "string \<Rightarrow> ('c \<Rightarrow> string) \<Rightarrow> 'c option \<Rightarrow> (string \<times> string) list" where
  "opt_block label f cfg = (case cfg of None \<Rightarrow> [] | Some c \<Rightarrow> [(label, f c)])"

definition env_blocks :: "AppEntry \<Rightarrow> (string \<times> string) list" where
  "env_blocks e =
     opt_block ''PostgreSQL'' postgres_env (svcPostgres (Svcs e))
     @ opt_block ''Redis'' redis_env (svcRedis (Svcs e))
     @ opt_block ''RabbitMQ'' rabbitmq_env (svcRabbitMQ (Svcs e))
     @ opt_block ''AIStor'' aistor_env (svcAIStor (Svcs e))
     @ opt_block ''MongoDB'' mongodb_env (svcMongoDB (Svcs e))
     @ opt_block ''SignOz'' signoz_env (svcSignoz (Svcs e))"

definition env_file :: "AppEntry \<Rightarrow> string" where
  "env_file e = join (newline @ newline) (map snd (env_blocks e))"

section \<open>Service lists\<close>

text \<open>The values a list of raw service flags stands for: trimmed, blanks dropped.\<close>

definition trimmed :: "string list \<Rightarrow> string list" where
  "trimmed vs = filter (\<lambda>v. v \<noteq> []) (map trim_space vs)"

lemma trimmed_simps [simp]:
  "trimmed [] = []"
  "trimmed (v # vs) = (if trim_space v = [] then trimmed vs else trim_space v # trimmed vs)"
  by (simp_all add: trimmed_def)

lemma parse_services_from_eq:
  "parse_services_from seen vs =
     (if set (trimmed vs) \<subseteq> set valid_services then Inr (dedup_from seen (trimmed vs))
      else Inl (errorf (''invalid service ''
             @ quote (hd (filter (\<lambda>v. v \<notin> set valid_services) (trimmed vs))))))"
proof (induction vs arbitrary: seen)
  case (Cons v vs)
  define t where "t = trim_space v"
  consider "t = []" | "t \<noteq> []" "t \<notin> set valid_services"
    | "t \<noteq> []" "t \<in> set valid_services" "t \<in> seen"
    | "t \<noteq> []" "t \<in> set valid_services" "t \<notin> seen" by blast
  then show ?case
    by cases (simp_all add: Cons.IH Let_def flip: t_def)
qed simp

lemma parse_services_eq:
  "parse_services vs =
     (if set (trimmed vs) \<subseteq> set valid_services then Inr (dedup_from {} (trimmed vs))
      else Inl (errorf (''invalid service ''
             @ quote (hd (filter (\<lambda>v. v \<notin> set valid_services) (trimmed vs))))))"
  by (simp add: parse_services_def parse_services_from_eq)

lemma valid_services_graphic: "s \<in> set valid_services \<Longrightarrow> trim_space s = s \<and> s \<noteq> []"
proof -
  have "list_all (\<lambda>s. name_pattern s) valid_services"
    by (simp add: valid_services_def char_class_defs)
  then show "s \<in> set valid_services \<Longrightarrow> trim_space s = s \<and> s \<noteq> []"
    by (auto simp: list_all_iff trim_space_name)
qed

lemma trimmed_valid: "set vs \<subseteq> set valid_services \<Longrightarrow> trimmed vs = vs"
  by (induction vs) (auto dest: valid_services_graphic)

lemma valid_services_distinct [simp]: "distinct valid_services"
  by (simp add: valid_services_def)

lemma catalog_valid: "service_catalog = valid_services"
  by (simp add: service_catalog_def valid_services_def)

section \<open>The catalog queries\<close>

lemma service_names_eq: "service_names a = filter (app_has_service (Entry a)) service_catalog"
  by (auto simp: service_names_def service_catalog_def app_has_service_def)

lemma app_has_service_valid: "app_has_service e s \<Longrightarrow> s \<in> set valid_services"
  by (auto simp: app_has_service_def valid_services_def split: if_splits)

lemma env_blocks_services:
  "length (env_blocks e) = length (filter (app_has_service e) service_catalog)"
  by (auto simp: env_blocks_def opt_block_def service_catalog_def app_has_service_def
      split: option.splits)

end
