(* ===== verification/Codec.thy ===== *)
theory Codec
  imports World
begin

text \<open>
  \<open>encoding/base64\<close> as the registry and the password generator use it: the padded standard
  alphabet and the unpadded URL alphabet.  A codec is a pair of functions whose decoder
  undoes the encoder; the locale \<open>codec\<close> states that contract and composes codecs.
\<close>

section \<open>Codecs\<close>

locale codec =
  fixes enc :: "'a \<Rightarrow> 'b"
    and dec :: "'b \<Rightarrow> 'a option"
  assumes dec_enc: "dec (enc x) = Some x"
begin

lemma enc_inj: "enc x = enc y \<longleftrightarrow> x = y"
  by (metis dec_enc option.inject)

lemma dec_range: "y \<in> range enc \<Longrightarrow> \<exists>x. dec y = Some x \<and> enc x = y"
  using dec_enc by auto

end

section \<open>Six-bit groups\<close>

definition sextet_chars :: "char \<Rightarrow> char \<Rightarrow> string" where
  "sextet_chars c62 c63 =
     ''ABCDEFGHIJKLMNOPQRSTUVWXYZabcdefghijklmnopqrstuvwxyz0123456789'' @ [c62, c63]"

definition std_alphabet :: string where
  "std_alphabet = sextet_chars (CHR ''+'') (CHR 0x2F)"

definition url_alphabet :: string where
  "url_alphabet = sextet_chars (CHR ''-'') (CHR ''_'')"

fun sextets :: "nat list \<Rightarrow> nat list" where
  "sextets [] = []"
| "sextets [a] = [a div 4, a mod 4 * 16]"
| "sextets [a, b] = [a div 4, a mod 4 * 16 + b div 16, b mod 16 * 4]"
| "sextets (a # b # c # r) =
     [a div 4, a mod 4 * 16 + b div 16, b mod 16 * 4 + c div 64, c mod 64] @ sextets r"

definition encode_sextets :: "string \<Rightarrow> string \<Rightarrow> string" where
  "encode_sextets alphabet s = map (\<lambda>i. alphabet ! i) (sextets (map of_char s))"

text \<open>\<open>base64.RawURLEncoding.EncodeToString\<close> and \<open>base64.StdEncoding.EncodeToString\<close>.\<close>

definition raw_url_encode :: "string \<Rightarrow> string" where
  "raw_url_encode s = encode_sextets url_alphabet s"

definition std_encode :: "string \<Rightarrow> string" where
  "std_encode s =
     encode_sextets std_alphabet s @ replicate ((3 - length s mod 3) mod 3) (CHR ''='')"

fun index_of :: "char \<Rightarrow> string \<Rightarrow> nat option" where
  "index_of c [] = None"
| "index_of c (x # xs) = (if x = c then Some 0 else map_option Suc (index_of c xs))"

definition sextet_of :: "char \<Rightarrow> nat option" where
  "sextet_of c = index_of c std_alphabet"

text \<open>Three bytes of the four sextets; the low bits a padded group leaves over are ignored.\<close>

definition bytes3 :: "nat \<Rightarrow> nat \<Rightarrow> nat \<Rightarrow> nat \<Rightarrow> string" where
  "bytes3 i j k l =
     [char_of (i * 4 + j div 16), char_of (j mod 16 * 16 + k div 4), char_of (k mod 4 * 64 + l)]"

fun decode_groups :: "string \<Rightarrow> string option" where
  "decode_groups [] = Some []"
| "decode_groups (a # b # c # d # r) =
     (case (sextet_of a, sextet_of b) of
        (Some i, Some j) \<Rightarrow>
          (if c = CHR ''='' then
             (if d = CHR ''='' \<and> r = [] then Some (take 1 (bytes3 i j 0 0)) else None)
           else (case sextet_of c of
              None \<Rightarrow> None
            | Some k \<Rightarrow>
                (if d = CHR ''='' then (if r = [] then Some (take 2 (bytes3 i j k 0)) else None)
                 else (case (sextet_of d, decode_groups r) of
                    (Some l, Some s) \<Rightarrow> Some (bytes3 i j k l @ s)
                  | _ \<Rightarrow> None))))
      | _ \<Rightarrow> None)"
| "decode_groups _ = None"

text \<open>\<open>base64.StdEncoding.DecodeString\<close>: line breaks are skipped.\<close>

definition std_decode :: "string \<Rightarrow> string option" where
  "std_decode s = decode_groups (filter (\<lambda>c. c \<noteq> CHR 0x0D \<and> c \<noteq> CHR 0x0A) s)"

section \<open>The standard encoding round trips\<close>

lemma sextets_bound: "\<forall>x \<in> set bs. x < 256 \<Longrightarrow> \<forall>i \<in> set (sextets bs). i < 64"
proof (induction bs rule: sextets.induct)
  case (4 a b c r)
  then have "a div 4 < 64" "a mod 4 * 16 + b div 16 < 64" "b mod 16 * 4 + c div 64 < 64"
    by auto
  with 4 show ?case by simp
qed auto

lemma length_std_alphabet [simp]: "length std_alphabet = 64"
  by (simp add: std_alphabet_def sextet_chars_def)

lemma length_url_alphabet [simp]: "length url_alphabet = 64"
  by (simp add: url_alphabet_def sextet_chars_def)

lemma all_sextets: "list_all (\<lambda>i. sextet_of (std_alphabet ! i) = Some i) [0..<64]"
  by code_simp

lemma sextet_of_nth [simp]: "i < 64 \<Longrightarrow> sextet_of (std_alphabet ! i) = Some i"
  using all_sextets by (simp add: list_all_iff)

lemma all_std_plain:
  "list_all (\<lambda>i. std_alphabet ! i \<noteq> CHR ''='' \<and> std_alphabet ! i \<noteq> CHR 0x0D
     \<and> std_alphabet ! i \<noteq> CHR 0x0A) [0..<64]"
  by code_simp

lemma std_alphabet_plain [simp]:
  assumes "i < 64"
  shows "std_alphabet ! i \<noteq> CHR ''=''" "std_alphabet ! i \<noteq> CHR 0x0D" "std_alphabet ! i \<noteq> CHR 0x0A"
  using all_std_plain assms by (simp_all add: list_all_iff)

lemma of_char_less [simp]: "(of_char c :: nat) < 256"
  by (rule nat_of_char_less_256)

lemma high_part: "b < 256 \<Longrightarrow> (a mod 4 * 16 + b div 16) div 16 = (a mod 4 :: nat)"
  by simp

lemma low_part: "b < 256 \<Longrightarrow> (a mod 4 * 16 + b div 16) mod 16 = (b div 16 :: nat)"
  by simp

lemma high_part2: "c < 256 \<Longrightarrow> (b mod 16 * 4 + c div 64) div 4 = (b mod 16 :: nat)"
  by simp

lemma low_part2: "c < 256 \<Longrightarrow> (b mod 16 * 4 + c div 64) mod 4 = (c div 64 :: nat)"
  by simp

lemma bytes3_sextets:
  fixes a b c :: char
  defines "x \<equiv> of_char a :: nat" and "y \<equiv> of_char b :: nat" and "z \<equiv> of_char c :: nat"
  shows "bytes3 (x div 4) (x mod 4 * 16 + y div 16) (y mod 16 * 4 + z div 64) (z mod 64) = [a, b, c]"
proof -
  have b: "x < 256" "y < 256" "z < 256" by (simp_all add: x_def y_def z_def)
  have "x div 4 * 4 + (x mod 4 * 16 + y div 16) div 16 = x"
    by (subst high_part [OF b(2)]) simp
  moreover have "(x mod 4 * 16 + y div 16) mod 16 * 16 + (y mod 16 * 4 + z div 64) div 4 = y"
    by (subst low_part [OF b(2)], subst high_part2 [OF b(3)]) simp
  moreover have "(y mod 16 * 4 + z div 64) mod 4 * 64 + z mod 64 = z"
    by (subst low_part2 [OF b(3)]) simp
  ultimately show ?thesis
    by (simp add: bytes3_def x_def y_def z_def)
qed

lemma bytes3_take1:
  "take (Suc 0) (bytes3 (of_char a div 4) (of_char a mod 4 * 16) 0 0) = [a]"
  by (simp add: bytes3_def)

lemma bytes3_take2:
  "take 2 (bytes3 (of_char a div 4) (of_char a mod 4 * 16 + of_char b div 16) (of_char b mod 16 * 4) 0) = [a, b]"
  using bytes3_sextets [of a b "char_of (0::nat)"] by (simp add: bytes3_def)

lemma sextet_bounds:
  fixes a b c :: char
  shows "(of_char a :: nat) div 4 < 64" "(of_char a :: nat) mod 4 * 16 < 64"
    "(of_char a :: nat) mod 4 * 16 + of_char b div 16 < 64"
    "(of_char b :: nat) mod 16 * 4 < 64"
    "(of_char b :: nat) mod 16 * 4 + of_char c div 64 < 64" "(of_char c :: nat) mod 64 < 64"
proof -
  have "(of_char b :: nat) div 16 < 16" "(of_char c :: nat) div 64 < 4"
    by (simp_all add: less_mult_imp_div_less)
  then show "(of_char a :: nat) mod 4 * 16 + of_char b div 16 < 64"
    "(of_char b :: nat) mod 16 * 4 + of_char c div 64 < 64" by auto
qed (auto simp: less_mult_imp_div_less)

lemma decode_groups_step:
  assumes "i < 64" "j < 64" "k < 64" "l < 64"
  shows "decode_groups (std_alphabet ! i # std_alphabet ! j # std_alphabet ! k # std_alphabet ! l # t)
    = map_option ((@) (bytes3 i j k l)) (decode_groups t)"
  using assms by (simp split: option.split)

lemma decode_groups_pad1:
  "i < 64 \<Longrightarrow> j < 64 \<Longrightarrow> decode_groups [std_alphabet ! i, std_alphabet ! j, CHR ''='', CHR ''='']
     = Some (take 1 (bytes3 i j 0 0))"
  by simp

lemma decode_groups_pad2:
  "i < 64 \<Longrightarrow> j < 64 \<Longrightarrow> k < 64 \<Longrightarrow>
   decode_groups [std_alphabet ! i, std_alphabet ! j, std_alphabet ! k, CHR ''='']
     = Some (take 2 (bytes3 i j k 0))"
  by simp

definition padding :: "string \<Rightarrow> string" where
  "padding s = replicate ((3 - length s mod 3) mod 3) (CHR ''='')"

lemma padding_Cons3: "padding (a # b # c # r) = padding r"
proof -
  have "length (a # b # c # r) mod 3 = length r mod 3" by simp
  then show ?thesis by (simp only: padding_def)
qed

lemma decode_sextets:
  "decode_groups (encode_sextets std_alphabet s @ padding s) = Some s"
proof (induction s rule: length_induct)
  case (1 s)
  consider "s = []" | a where "s = [a]" | a b where "s = [a, b]" | a b c r where "s = a # b # c # r"
    by (metis list.exhaust)
  then show ?case
  proof cases
    case 1
    then show ?thesis by (simp add: encode_sextets_def padding_def)
  next
    case (2 a)
    then have "padding s = ''==''" by (simp add: padding_def numeral_2_eq_2)
    with 2 show ?thesis
      by (simp add: encode_sextets_def decode_groups_pad1 bytes3_take1 sextet_bounds del: decode_groups.simps)
  next
    case (3 a b)
    then have "padding s = ''=''" by (simp add: padding_def)
    with 3 show ?thesis
      by (simp add: encode_sextets_def decode_groups_pad2 bytes3_take2 sextet_bounds del: decode_groups.simps)
  next
    case (4 a b c r)
    have "decode_groups (encode_sextets std_alphabet r @ padding r) = Some r"
      using "1.IH" 4 by simp
    moreover have "padding s = padding r" by (simp only: 4 padding_Cons3)
    ultimately show ?thesis
      by (simp add: 4 encode_sextets_def decode_groups_step bytes3_sextets sextet_bounds del: decode_groups.simps)
  qed
qed

lemma std_encode_chars:
  "list_all (\<lambda>c. c \<noteq> CHR 0x0D \<and> c \<noteq> CHR 0x0A) (std_encode s)"
proof -
  have "\<forall>i \<in> set (sextets (map of_char s)). i < 64" by (rule sextets_bound) auto
  with std_alphabet_plain show ?thesis
    by (auto simp: std_encode_def encode_sextets_def list_all_iff)
qed

lemma std_decode_encode: "std_decode (std_encode s) = Some s"
proof -
  have "filter (\<lambda>c. c \<noteq> CHR 0x0D \<and> c \<noteq> CHR 0x0A) (std_encode s) = std_encode s"
    using std_encode_chars [of s] by (auto simp: filter_id_conv list_all_iff)
  then show ?thesis by (simp add: std_decode_def std_encode_def decode_sextets flip: padding_def)
qed

interpretation base64: codec std_encode std_decode
  by unfold_locales (rule std_decode_encode)

section \<open>The URL encoding\<close>

lemma length_sextets: "length bs \<le> length (sextets bs)"
  by (induction bs rule: sextets.induct) auto

lemma length_raw_url_encode: "length s \<le> length (raw_url_encode s)"
  using length_sextets [of "map of_char s"] by (simp add: raw_url_encode_def encode_sextets_def)

lemma set_raw_url_encode: "set (raw_url_encode s) \<subseteq> set url_alphabet"
proof -
  have "\<forall>i \<in> set (sextets (map of_char s)). i < length url_alphabet"
    using sextets_bound [of "map of_char s"] by auto
  then show ?thesis by (auto simp: raw_url_encode_def encode_sextets_def)
qed

end
