(* ===== verification/GoJson.thy ===== *)
theory GoJson
  imports Codec
begin

text \<open>
  \<open>encoding/json\<close> as the registry uses it: the text of a value (\<open>Marshal\<close> and
  \<open>MarshalIndent(v, "", "  ")\<close>, with Go's HTML escapes), the parser, and the assignment of
  an object's members to the fields of a struct.  A number is kept as its literal.  What is
  not modelled: the wording of syntax errors, the nesting limit of 10000, and the two
  non-ASCII letters that \<open>json\<close> folds onto ASCII ones when it matches field names.
\<close>

datatype json =
    JNull
  | JBool bool
  | JNum string
  | JStr string
  | JArr "json list"
  | JObj "(string \<times> json) list"

section \<open>UTF-8\<close>

definition byte_in :: "nat \<Rightarrow> nat \<Rightarrow> char \<Rightarrow> bool" where
  "byte_in lo hi c = (lo \<le> (of_char c :: nat) \<and> (of_char c :: nat) \<le> hi)"

text \<open>The length of the rune at the head of a string; 0 where the bytes are not valid.\<close>

fun utf8_len :: "string \<Rightarrow> nat" where
  "utf8_len [] = 0"
| "utf8_len (a # r) =
     (if byte_in 0 127 a then 1
      else if byte_in 194 223 a then (case r of b # _ \<Rightarrow> if byte_in 128 191 b then 2 else 0 | _ \<Rightarrow> 0)
      else if byte_in 224 239 a then
        (case r of
           b # c # _ \<Rightarrow>
             (if byte_in (if a = CHR 0xE0 then 160 else 128) (if a = CHR 0xED then 159 else 191) b
                 \<and> byte_in 128 191 c then 3 else 0)
         | _ \<Rightarrow> 0)
      else if byte_in 240 244 a then
        (case r of
           b # c # d # _ \<Rightarrow>
             (if byte_in (if a = CHR 0xF0 then 144 else 128) (if a = CHR 0xF4 then 143 else 191) b
                 \<and> byte_in 128 191 c \<and> byte_in 128 191 d then 4 else 0)
         | _ \<Rightarrow> 0)
      else 0)"

definition utf8_encode :: "nat \<Rightarrow> string" where
  "utf8_encode n =
     map char_of
       (if n < 128 then [n]
        else if n < 2048 then [192 + n div 64, 128 + n mod 64]
        else if n < 65536 then [224 + n div 4096, 128 + n div 64 mod 64, 128 + n mod 64]
        else [240 + n div 262144, 128 + n div 4096 mod 64, 128 + n div 64 mod 64, 128 + n mod 64])"

definition replacement :: string where
  "replacement = utf8_encode 65533"

section \<open>Printing\<close>

definition backslash :: char where "backslash = CHR 0x5C"
definition dquote :: char where "dquote = CHR 0x22"

definition escape_ascii :: "char \<Rightarrow> string" where
  "escape_ascii c =
     (let n = of_char c :: nat in
      if n = 34 \<or> n = 92 then [backslash, c]
      else if n = 8 then [backslash, CHR ''b'']
      else if n = 12 then [backslash, CHR ''f'']
      else if n = 10 then [backslash, CHR ''n'']
      else if n = 13 then [backslash, CHR ''r'']
      else if n = 9 then [backslash, CHR ''t'']
      else if n < 32 \<or> n = 60 \<or> n = 62 \<or> n = 38
        then [backslash, CHR ''u'', CHR ''0'', CHR ''0'', hex_digit (n div 16), hex_digit (n mod 16)]
      else [c])"

function escape :: "string \<Rightarrow> string" where
  "escape [] = []"
| "escape (c # cs) =
     (if byte_in 0 127 c then escape_ascii c @ escape cs
      else if utf8_len (c # cs) = 0 then [backslash] @ ''ufffd'' @ escape cs
      else if take 3 (c # cs) \<in> {utf8_encode 8232, utf8_encode 8233}
        then [backslash] @ ''u202'' @ [if take 3 (c # cs) = utf8_encode 8232 then CHR ''8'' else CHR ''9'']
             @ escape (drop 2 cs)
      else take (utf8_len (c # cs)) (c # cs) @ escape (drop (utf8_len (c # cs)) (c # cs)))"
  by pat_completeness auto
termination by (relation "measure length") auto

definition jstring :: "string \<Rightarrow> string" where
  "jstring s = [dquote] @ escape s @ [dquote]"

text \<open>Line break and indentation at a depth; nothing in the compact form.\<close>

definition nl :: "bool \<Rightarrow> nat \<Rightarrow> string" where
  "nl ind d = (if ind then CHR 0x0A # replicate (2 * d) (CHR '' '') else [])"

fun print_json :: "bool \<Rightarrow> nat \<Rightarrow> json \<Rightarrow> string"
  and print_elems :: "bool \<Rightarrow> nat \<Rightarrow> json list \<Rightarrow> string"
  and print_members :: "bool \<Rightarrow> nat \<Rightarrow> (string \<times> json) list \<Rightarrow> string" where
  "print_json ind d JNull = ''null''"
| "print_json ind d (JBool b) = (if b then ''true'' else ''false'')"
| "print_json ind d (JNum s) = s"
| "print_json ind d (JStr s) = jstring s"
| "print_json ind d (JArr xs) =
     (if xs = [] then ''[]''
      else ''['' @ nl ind (Suc d) @ print_elems ind (Suc d) xs @ nl ind d @ '']'')"
| "print_json ind d (JObj ms) =
     (if ms = [] then ''{}''
      else ''{'' @ nl ind (Suc d) @ print_members ind (Suc d) ms @ nl ind d @ ''}'')"
| "print_elems ind d [] = []"
| "print_elems ind d (x # xs) =
     print_json ind d x @ (if xs = [] then [] else '','' @ nl ind d @ print_elems ind d xs)"
| "print_members ind d [] = []"
| "print_members ind d ((k, x) # ms) =
     jstring k @ '':'' @ (if ind then '' '' else []) @ print_json ind d x
     @ (if ms = [] then [] else '','' @ nl ind d @ print_members ind d ms)"

text \<open>\<open>json.Marshal\<close> and \<open>json.MarshalIndent(v, "", "  ")\<close>.\<close>

definition marshal :: "json \<Rightarrow> string" where
  "marshal v = print_json False 0 v"

definition marshal_indent :: "json \<Rightarrow> string" where
  "marshal_indent v = print_json True 0 v"

section \<open>Parsing\<close>

definition json_space :: "char \<Rightarrow> bool" where
  "json_space c = (c = CHR '' '' \<or> c = CHR 0x09 \<or> c = CHR 0x0D \<or> c = CHR 0x0A)"

definition skip :: "string \<Rightarrow> string" where
  "skip s = dropWhile json_space s"

definition hex_value :: "char \<Rightarrow> nat option" where
  "hex_value c =
     (if byte_in 48 57 c then Some (of_char c - 48)
      else if byte_in 97 102 c then Some (of_char c - 87)
      else if byte_in 65 70 c then Some (of_char c - 55) else None)"

fun hex4 :: "string \<Rightarrow> nat option" where
  "hex4 (a # b # c # d # _) =
     (case (hex_value a, hex_value b, hex_value c, hex_value d) of
        (Some w, Some x, Some y, Some z) \<Rightarrow> Some (w * 4096 + x * 256 + y * 16 + z)
      | _ \<Rightarrow> None)"
| "hex4 _ = None"

text \<open>
  The rune of a \<open>\u\<close> escape, after its four digits have been read as \<open>n\<close>, and how many more
  bytes it takes: a high surrogate needs a low one after it, and a stray surrogate is U+FFFD.
\<close>

definition unescape_u :: "nat \<Rightarrow> string \<Rightarrow> string \<times> nat" where
  "unescape_u n r =
     (if n < 55296 \<or> 57343 < n then (utf8_encode n, 0)
      else if n < 56320 \<and> has_prefix r [backslash, CHR ''u'']
        then (case hex4 (drop 2 r) of
                Some m \<Rightarrow>
                  (if 56320 \<le> m \<and> m \<le> 57343
                   then (utf8_encode (65536 + (n - 55296) * 1024 + (m - 56320)), 6)
                   else (replacement, 0))
              | None \<Rightarrow> (replacement, 0))
      else (replacement, 0))"

definition simple_escape :: "char \<Rightarrow> char option" where
  "simple_escape c =
     (if c = dquote \<or> c = backslash \<or> c = CHR 0x2F then Some c
      else if c = CHR ''b'' then Some (CHR 0x08)
      else if c = CHR ''f'' then Some (CHR 0x0C)
      else if c = CHR ''n'' then Some (CHR 0x0A)
      else if c = CHR ''r'' then Some (CHR 0x0D)
      else if c = CHR ''t'' then Some (CHR 0x09) else None)"

text \<open>The body of a string, up to its closing quote, and the text after it.\<close>

function parse_string :: "string \<Rightarrow> (string \<times> string) option" where
  "parse_string [] = None"
| "parse_string (c # cs) =
     (if c = dquote then Some ([], cs)
      else if c = backslash then
        (case cs of
           [] \<Rightarrow> None
         | e # r \<Rightarrow>
             (if e = CHR ''u'' then
                (case hex4 r of
                   None \<Rightarrow> None
                 | Some n \<Rightarrow>
                     (case unescape_u n (drop 4 r) of
                        (u, k) \<Rightarrow> map_option (apfst ((@) u)) (parse_string (drop (4 + k) r))))
              else (case simple_escape e of
                  None \<Rightarrow> None
                | Some x \<Rightarrow> map_option (apfst ((#) x)) (parse_string r))))
      else if byte_in 0 31 c then None
      else if utf8_len (c # cs) = 0 then map_option (apfst ((@) replacement)) (parse_string cs)
      else map_option (apfst ((@) (take (utf8_len (c # cs)) (c # cs))))
             (parse_string (drop (utf8_len (c # cs)) (c # cs))))"
  by pat_completeness auto
termination by (relation "measure length") auto

definition number_char :: "char \<Rightarrow> bool" where
  "number_char c = (is_digit c \<or> c \<in> set ''+-.eE'')"

fun digits1 :: "string \<Rightarrow> string option" where
  "digits1 [] = None"
| "digits1 (c # cs) = (if is_digit c then Some (dropWhile is_digit cs) else None)"

definition valid_number :: "string \<Rightarrow> bool" where
  "valid_number s =
     (let s1 = trim_prefix s ''-'';
          ip = takeWhile is_digit s1;
          s2 = dropWhile is_digit s1;
          s3 = (if has_prefix s2 ''.'' then digits1 (tl s2) else Some s2) in
      ip \<noteq> [] \<and> (length ip = 1 \<or> hd ip \<noteq> CHR ''0'') \<and>
      (case s3 of
         None \<Rightarrow> False
       | Some s4 \<Rightarrow>
           s4 = []
           \<or> hd s4 \<in> set ''eE''
             \<and> digits1 (if tl s4 \<noteq> [] \<and> hd (tl s4) \<in> set ''+-'' then tl (tl s4) else tl s4) = Some []))"

fun parse_value :: "nat \<Rightarrow> string \<Rightarrow> (json \<times> string) option"
  and parse_elems :: "nat \<Rightarrow> string \<Rightarrow> (json list \<times> string) option"
  and parse_members :: "nat \<Rightarrow> string \<Rightarrow> ((string \<times> json) list \<times> string) option" where
  "parse_value 0 s = None"
| "parse_value (Suc n) s =
     (case skip s of
        [] \<Rightarrow> None
      | c # r \<Rightarrow>
          (if c = dquote then map_option (apfst JStr) (parse_string r)
           else if c = CHR ''{'' then
             (if has_prefix (skip r) ''}'' then Some (JObj [], tl (skip r))
              else map_option (apfst JObj) (parse_members n r))
           else if c = CHR ''['' then
             (if has_prefix (skip r) '']'' then Some (JArr [], tl (skip r))
              else map_option (apfst JArr) (parse_elems n r))
           else if has_prefix (c # r) ''null'' then Some (JNull, drop 3 r)
           else if has_prefix (c # r) ''true'' then Some (JBool True, drop 3 r)
           else if has_prefix (c # r) ''false'' then Some (JBool False, drop 4 r)
           else if valid_number (takeWhile number_char (c # r))
             then Some (JNum (takeWhile number_char (c # r)), dropWhile number_char (c # r))
           else None))"
| "parse_elems 0 s = None"
| "parse_elems (Suc n) s =
     (case parse_value n s of
        None \<Rightarrow> None
      | Some (x, r) \<Rightarrow>
          (case skip r of
             c # r' \<Rightarrow>
               (if c = CHR '','' then map_option (apfst ((#) x)) (parse_elems n r')
                else if c = CHR '']'' then Some ([x], r') else None)
           | [] \<Rightarrow> None))"
| "parse_members 0 s = None"
| "parse_members (Suc n) s =
     (case skip s of
        [] \<Rightarrow> None
      | q # r \<Rightarrow>
          (if q \<noteq> dquote then None
           else (case parse_string r of
               None \<Rightarrow> None
             | Some (k, r1) \<Rightarrow>
                 (if \<not> has_prefix (skip r1) '':'' then None
                  else (case parse_value n (tl (skip r1)) of
                      None \<Rightarrow> None
                    | Some (x, r2) \<Rightarrow>
                        (case skip r2 of
                           c # r' \<Rightarrow>
                             (if c = CHR '','' then map_option (apfst ((#) (k, x))) (parse_members n r')
                              else if c = CHR ''}'' then Some ([(k, x)], r') else None)
                         | [] \<Rightarrow> None))))))"

text \<open>The whole text is one value; the fuel is more than its length.\<close>

definition parse_json :: "string \<Rightarrow> json option" where
  "parse_json s =
     (case parse_value (Suc (length s)) s of
        Some (v, r) \<Rightarrow> (if skip r = [] then Some v else None)
      | None \<Rightarrow> None)"

section \<open>What is printed parses back\<close>

definition ascii :: "string \<Rightarrow> bool" where
  "ascii s = list_all (byte_in 0 127) s"

lemma hex_value_digit [simp]: "d < 16 \<Longrightarrow> hex_value (hex_digit d) = Some d"
  by (simp add: hex_value_def hex_digit_def byte_in_def)

lemma hex4_control:
  "n < 128 \<Longrightarrow> hex4 (CHR ''0'' # CHR ''0'' # hex_digit (n div 16) # hex_digit (n mod 16) # t) = Some n"
proof -
  assume "n < 128"
  then have "n div 16 < 16" "n mod 16 < 16" by auto
  moreover have "hex_value (CHR ''0'') = Some 0" by (simp add: hex_value_def byte_in_def)
  ultimately show ?thesis by simp
qed

lemma append_single [simp]: "(@) [c] = (#) c"
  by (simp add: fun_eq_iff)

lemma utf8_encode_ascii: "(of_char c :: nat) < 128 \<Longrightarrow> utf8_encode (of_char c) = [c]"
  by (simp add: utf8_encode_def)

lemma unescape_ascii: "(of_char c :: nat) < 128 \<Longrightarrow> unescape_u (of_char c) r = ([c], 0)"
  by (simp add: unescape_u_def utf8_encode_ascii)

lemma char_eq_iff_nat: "c = d \<longleftrightarrow> (of_char c :: nat) = of_char d"
  by simp

lemma parse_string_plain:
  "byte_in 32 127 c \<Longrightarrow> c \<noteq> dquote \<Longrightarrow> c \<noteq> backslash \<Longrightarrow>
   parse_string (c # t) = map_option (apfst ((#) c)) (parse_string t)"
  by (simp add: byte_in_def Cons_eq_append_conv append_eq_Cons_conv cong: map_option_cong)

lemma parse_string_simple:
  "e \<noteq> CHR ''u'' \<Longrightarrow> simple_escape e = Some x \<Longrightarrow>
   parse_string (backslash # e # t) = map_option (apfst ((#) x)) (parse_string t)"
  by (simp add: backslash_def dquote_def)

lemma parse_string_u:
  "(of_char c :: nat) < 128 \<Longrightarrow>
   parse_string (backslash # CHR ''u'' # CHR ''0'' # CHR ''0'' # hex_digit (of_char c div 16)
     # hex_digit (of_char c mod 16) # t) = map_option (apfst ((#) c)) (parse_string t)"
  using hex4_control [of "of_char c" t] by (simp add: backslash_def dquote_def unescape_ascii)

lemma simple_escapes:
  "simple_escape dquote = Some dquote" "simple_escape backslash = Some backslash"
  "simple_escape (CHR ''b'') = Some (CHR 0x08)" "simple_escape (CHR ''f'') = Some (CHR 0x0C)"
  "simple_escape (CHR ''n'') = Some (CHR 0x0A)" "simple_escape (CHR ''r'') = Some (CHR 0x0D)"
  "simple_escape (CHR ''t'') = Some (CHR 0x09)"
  by (simp_all add: simple_escape_def dquote_def backslash_def)

lemma escape_ascii_values:
  "escape_ascii dquote = [backslash, dquote]" "escape_ascii backslash = [backslash, backslash]"
  "escape_ascii (CHR 0x08) = [backslash, CHR ''b'']" "escape_ascii (CHR 0x0C) = [backslash, CHR ''f'']"
  "escape_ascii (CHR 0x0A) = [backslash, CHR ''n'']" "escape_ascii (CHR 0x0D) = [backslash, CHR ''r'']"
  "escape_ascii (CHR 0x09) = [backslash, CHR ''t'']"
  by (simp_all add: escape_ascii_def dquote_def backslash_def)

lemma special_char:
  "(of_char c :: nat) \<in> {34, 92, 8, 12, 10, 13, 9} \<Longrightarrow>
   c = dquote \<or> c = backslash \<or> c = CHR 0x08 \<or> c = CHR 0x0C \<or> c = CHR 0x0A \<or> c = CHR 0x0D
    \<or> c = CHR 0x09"
  by (simp add: char_eq_iff_nat [of c] dquote_def backslash_def)

lemma escape_ascii_special:
  "(of_char c :: nat) \<in> {34, 92, 8, 12, 10, 13, 9} \<Longrightarrow>
     \<exists>e. escape_ascii c = [backslash, e] \<and> e \<noteq> CHR ''u'' \<and> simple_escape e = Some c"
  by (drule special_char)
    (elim disjE, simp_all add: escape_ascii_values simple_escapes, simp_all add: dquote_def backslash_def)

lemma escape_ascii_other:
  "(of_char c :: nat) < 128 \<Longrightarrow> (of_char c :: nat) \<notin> {34, 92, 8, 12, 10, 13, 9} \<Longrightarrow>
     escape_ascii c = [backslash, CHR ''u'', CHR ''0'', CHR ''0'', hex_digit (of_char c div 16),
          hex_digit (of_char c mod 16)]
     \<or> escape_ascii c = [c] \<and> byte_in 32 127 c \<and> c \<noteq> dquote \<and> c \<noteq> backslash"
  by (auto simp: escape_ascii_def Let_def byte_in_def dquote_def backslash_def)

lemmas escape_ascii_cases = escape_ascii_special escape_ascii_other

lemma parse_string_escape_ascii:
  assumes "byte_in 0 127 c"
  shows "parse_string (escape_ascii c @ t) = map_option (apfst ((#) c)) (parse_string t)"
proof -
  have n: "(of_char c :: nat) < 128" using assms by (simp add: byte_in_def)
  show ?thesis
  proof (cases "(of_char c :: nat) \<in> {34, 92, 8, 12, 10, 13, 9}")
    case True
    then show ?thesis
      using escape_ascii_special [OF True] by (auto simp: parse_string_simple simp del: parse_string.simps)
  next
    case False
    from escape_ascii_other [OF n False] show ?thesis
      by (elim disjE conjE)
        (simp_all add: parse_string_u [OF n] parse_string_plain del: parse_string.simps)
  qed
qed

lemma parse_string_escape: "ascii s \<Longrightarrow> parse_string (escape s @ dquote # r) = Some (s, r)"
proof (induction s)
  case (Cons c s)
  then have "byte_in 0 127 c" "parse_string (escape s @ dquote # r) = Some (s, r)"
    by (auto simp: ascii_def)
  then show ?case by (simp add: parse_string_escape_ascii del: parse_string.simps)
qed (simp add: ascii_def)

text \<open>Values whose strings are ASCII and whose numbers are number literals.\<close>

fun plain_json :: "json \<Rightarrow> bool" where
  "plain_json JNull = True"
| "plain_json (JBool b) = True"
| "plain_json (JNum s) = (list_all number_char s \<and> valid_number s)"
| "plain_json (JStr s) = ascii s"
| "plain_json (JArr xs) = list_all plain_json xs"
| "plain_json (JObj ms) = list_all (\<lambda>(k, x). ascii k \<and> plain_json x) ms"

text \<open>The fuel a value needs.\<close>

fun need :: "json \<Rightarrow> nat" and need_elems :: "json list \<Rightarrow> nat"
  and need_members :: "(string \<times> json) list \<Rightarrow> nat" where
  "need (JArr xs) = Suc (need_elems xs)"
| "need (JObj ms) = Suc (need_members ms)"
| "need v = 1"
| "need_elems [] = 0"
| "need_elems (x # xs) = Suc (max (need x) (need_elems xs))"
| "need_members [] = 0"
| "need_members ((k, x) # ms) = Suc (max (need x) (need_members ms))"

definition stops :: "string \<Rightarrow> bool" where
  "stops r = (r = [] \<or> \<not> number_char (hd r))"

lemma skip_append: "list_all json_space ws \<Longrightarrow> skip (ws @ s) = skip s"
  by (induction ws) (auto simp: skip_def)

lemma skip_nl: "skip (nl ind d @ s) = skip s"
  by (rule skip_append) (auto simp: nl_def list_all_iff json_space_def)

lemma parse_value_skip: "skip s = skip t \<Longrightarrow> parse_value n s = parse_value n t"
  by (cases n) (simp_all only: parse_value.simps)

lemma parse_elems_skip: "skip s = skip t \<Longrightarrow> parse_elems n s = parse_elems n t"
  by (cases n) (simp_all only: parse_elems.simps parse_value_skip [of s t])

lemma parse_members_skip: "skip s = skip t \<Longrightarrow> parse_members n s = parse_members n t"
  by (cases n) (simp_all only: parse_members.simps)

lemma parse_value_nl [simp]: "parse_value n (nl ind d @ s) = parse_value n s"
  by (rule parse_value_skip) (simp add: skip_nl)

lemma parse_elems_nl [simp]: "parse_elems n (nl ind d @ s) = parse_elems n s"
  by (rule parse_elems_skip) (simp add: skip_nl)

lemma parse_members_nl [simp]: "parse_members n (nl ind d @ s) = parse_members n s"
  by (rule parse_members_skip) (simp add: skip_nl)

lemma parse_value_sp [simp]: "parse_value n (CHR '' '' # s) = parse_value n s"
  by (rule parse_value_skip) (simp add: skip_def json_space_def)

lemma stops_nl: "stops r \<Longrightarrow> stops (nl ind d @ r)"
  by (auto simp: stops_def nl_def number_char_def is_digit_def less_eq_char_def)

lemma stops_punct [simp]: "stops (CHR '','' # r)" "stops (CHR '']'' # r)" "stops (CHR ''}'' # r)"
  by (auto simp: stops_def number_char_def is_digit_def less_eq_char_def)

lemma take_number: "list_all number_char s \<Longrightarrow> stops r \<Longrightarrow> takeWhile number_char (s @ r) = s"
  by (cases r) (auto simp: stops_def list_all_iff takeWhile_append)

lemma drop_number: "list_all number_char s \<Longrightarrow> stops r \<Longrightarrow> dropWhile number_char (s @ r) = r"
  by (cases r) (auto simp: stops_def list_all_iff dropWhile_append)

declare parse_value.simps [simp del] parse_elems.simps [simp del] parse_members.simps [simp del]
declare parse_string.simps [simp del]

lemma skip_head: "\<not> json_space c \<Longrightarrow> skip (c # s) = c # s"
  by (simp add: skip_def)

lemma not_space [simp]:
  "\<not> json_space dquote" "\<not> json_space (CHR ''{'')" "\<not> json_space (CHR ''['')" "\<not> json_space (CHR '','')"
  "\<not> json_space (CHR ''}'')" "\<not> json_space (CHR '']'')" "\<not> json_space (CHR '':'')"
  "\<not> json_space (CHR ''n'')" "\<not> json_space (CHR ''t'')" "\<not> json_space (CHR ''f'')"
  by (simp_all add: json_space_def dquote_def)

lemma valid_number_head: "valid_number s \<Longrightarrow> \<exists>c t. s = c # t \<and> (is_digit c \<or> c = CHR ''-'')"
  by (cases s) (auto simp: valid_number_def Let_def trim_prefix_def has_prefix_def split: if_splits)

lemma digit_head:
  assumes "is_digit c \<or> c = CHR ''-''"
  shows "\<not> json_space c" "c \<noteq> dquote" "c \<noteq> CHR ''{''" "c \<noteq> CHR ''[''" "c \<noteq> CHR '']''" "c \<noteq> CHR ''}''"
    "c \<noteq> CHR ''n''" "c \<noteq> CHR ''t''" "c \<noteq> CHR ''f''"
  using assms by (auto simp: json_space_def dquote_def is_digit_def less_eq_char_def)

lemma print_head:
  assumes "plain_json v"
  shows "\<exists>c t. print_json ind d v = c # t \<and> \<not> json_space c \<and> c \<noteq> CHR '']''"
proof (cases v)
  case (JNum s)
  then show ?thesis using assms valid_number_head [of s] digit_head by fastforce
qed (use not_space in \<open>auto simp: jstring_def dquote_def\<close>)

lemma parse_value_number:
  assumes "list_all number_char s" "valid_number s" "stops r"
  shows "parse_value (Suc n) (s @ r) = Some (JNum s, r)"
proof -
  obtain c t where s: "s = c # t" and c: "is_digit c \<or> c = CHR ''-''"
    using valid_number_head assms(2) by blast
  have sk: "skip (s @ r) = s @ r" using digit_head(1) [OF c] by (simp add: s skip_head)
  have "\<not> has_prefix (s @ r) ''null''" "\<not> has_prefix (s @ r) ''true''" "\<not> has_prefix (s @ r) ''false''"
    using digit_head [OF c] by (auto simp: s has_prefix_def)
  then show ?thesis
    using take_number [OF assms(1,3)] drop_number [OF assms(1,3)] assms(2) digit_head [OF c] sk
    by (simp add: s parse_value.simps)
qed

lemma parse_value_string: "ascii s \<Longrightarrow> parse_value (Suc n) (jstring s @ r) = Some (JStr s, r)"
  by (simp add: parse_value.simps jstring_def skip_head parse_string_escape)

lemma parse_value_word:
  "parse_value (Suc n) (''null'' @ r) = Some (JNull, r)"
  "parse_value (Suc n) (''true'' @ r) = Some (JBool True, r)"
  "parse_value (Suc n) (''false'' @ r) = Some (JBool False, r)"
  by (simp_all add: parse_value.simps skip_head has_prefix_def) (simp_all add: dquote_def)

lemma parse_value_obj:
  "parse_value (Suc n) (CHR ''{'' # t) =
     (if has_prefix (skip t) ''}'' then Some (JObj [], tl (skip t))
      else map_option (apfst JObj) (parse_members n t))"
  by (simp add: parse_value.simps skip_head) (simp add: dquote_def)

lemma parse_value_arr:
  "parse_value (Suc n) (CHR ''['' # t) =
     (if has_prefix (skip t) '']'' then Some (JArr [], tl (skip t))
      else map_option (apfst JArr) (parse_elems n t))"
  by (simp add: parse_value.simps skip_head) (simp add: dquote_def)

lemma parse_members_step:
  "ascii k \<Longrightarrow> parse_value n s = Some (x, r) \<Longrightarrow>
   parse_members (Suc n) (jstring k @ CHR '':'' # (if ind then '' '' else []) @ s) =
     (case skip r of
        c # r' \<Rightarrow>
          (if c = CHR '','' then map_option (apfst ((#) (k, x))) (parse_members n r')
           else if c = CHR ''}'' then Some ([(k, x)], r') else None)
      | [] \<Rightarrow> None)"
  by (cases ind)
    (simp_all add: parse_members.simps jstring_def skip_head parse_string_escape has_prefix_def)

lemma print_elems_head: "plain_json x \<Longrightarrow> \<not> has_prefix (skip (print_elems ind d (x # xs) @ u)) '']''"
  using print_head [of x ind d] by (auto simp: skip_head has_prefix_def)

lemma print_members_head: "\<not> has_prefix (skip (print_members ind d (kx # ms) @ u)) ''}''"
  by (cases kx) (simp add: jstring_def skip_head has_prefix_def dquote_def json_space_def)

lemma parse_print:
  "plain_json v \<Longrightarrow> need v \<le> n \<Longrightarrow> stops r \<Longrightarrow>
     parse_value n (print_json ind d v @ r) = Some (v, r)"
  "list_all plain_json xs \<Longrightarrow> xs \<noteq> [] \<Longrightarrow> need_elems xs \<le> n \<Longrightarrow>
     parse_elems n (print_elems ind d xs @ nl ind e @ CHR '']'' # r) = Some (xs, r)"
  "list_all (\<lambda>(k, x). ascii k \<and> plain_json x) ms \<Longrightarrow> ms \<noteq> [] \<Longrightarrow> need_members ms \<le> n \<Longrightarrow>
     parse_members n (print_members ind d ms @ nl ind e @ CHR ''}'' # r) = Some (ms, r)"
proof (induction ind d v and ind d xs and ind d ms arbitrary: n r and n e r and n e r
    rule: print_json_print_elems_print_members.induct)
  case (5 ind d xs)
  then obtain m where n: "n = Suc m" by (cases n) auto
  show ?case
  proof (cases xs)
    case Nil
    then show ?thesis by (simp add: n parse_value_arr skip_head has_prefix_def)
  next
    case (Cons x ys)
    with "5.prems" print_elems_head have "\<not> has_prefix (skip (print_elems ind (Suc d) xs @ u)) '']''" for u by simp
    with 5 Cons show ?thesis by (simp add: n parse_value_arr skip_nl)
  qed
next
  case (6 ind d ms)
  then obtain m where n: "n = Suc m" by (cases n) auto
  show ?case
  proof (cases ms)
    case Nil
    then show ?thesis by (simp add: n parse_value_obj skip_head has_prefix_def)
  next
    case (Cons kx ys)
    with print_members_head have "\<not> has_prefix (skip (print_members ind (Suc d) ms @ u)) ''}''" for u by simp
    with 6 Cons show ?thesis by (simp add: n parse_value_obj skip_nl)
  qed
next
  case (8 ind d x xs)
  then obtain m where n: "n = Suc m" by (cases n) auto
  show ?case
    using 8 by (cases "xs = []")
      (simp_all add: n parse_elems.simps skip_nl skip_head stops_nl)
next
  case (10 ind d k x ms)
  then obtain m where n: "n = Suc m" by (cases n) auto
  show ?case
  proof (cases "ms = []")
    case True
    then have "parse_value m (print_json ind d x @ nl ind e @ CHR ''}'' # r) = Some (x, nl ind e @ CHR ''}'' # r)"
      using 10 by (simp add: n stops_nl)
    from parse_members_step [OF _ this] 10 True show ?thesis
      by (simp add: n skip_nl skip_head)
  next
    case False
    then have "parse_value m (print_json ind d x @ CHR '','' # nl ind d @ print_members ind d ms @ nl ind e @ CHR ''}'' # r)
       = Some (x, CHR '','' # nl ind d @ print_members ind d ms @ nl ind e @ CHR ''}'' # r)"
      using 10 by (simp add: n)
    from parse_members_step [OF _ this] 10 False show ?thesis
      by (simp add: n skip_head)
  qed
qed (auto simp: parse_value_number parse_value_string parse_value_word [simplified] Suc_le_eq gr0_conv_Suc)

lemma need_length:
  "plain_json v \<Longrightarrow> need v \<le> length (print_json ind d v)"
  "list_all plain_json xs \<Longrightarrow> need_elems xs \<le> Suc (length (print_elems ind d xs))"
  "list_all (\<lambda>(k, x). ascii k \<and> plain_json x) ms \<Longrightarrow> need_members ms \<le> length (print_members ind d ms)"
proof (induction ind d v and ind d xs and ind d ms
    rule: print_json_print_elems_print_members.induct)
  case (3 ind d s)
  then show ?case using valid_number_head by fastforce
qed (auto simp: jstring_def)

lemma parse_json_print:
  assumes "plain_json v" "list_all json_space ws"
  shows "parse_json (print_json ind d v @ ws) = Some v"
proof -
  have "stops ws"
    using assms(2)
    by (cases ws) (auto simp: stops_def json_space_def number_char_def is_digit_def less_eq_char_def)
  then have "parse_value (Suc (length (print_json ind d v @ ws))) (print_json ind d v @ ws) = Some (v, ws)"
    using need_length(1) [OF assms(1), of ind d] assms(1) by (intro parse_print(1)) auto
  moreover have "skip ws = []" using skip_append [OF assms(2), of "[]"] by (simp add: skip_def)
  ultimately show ?thesis by (simp add: parse_json_def)
qed

section \<open>Values of Go types\<close>

text \<open>
  \<open>json.Unmarshal\<close> assigns to a variable that has a value already: \<open>null\<close> leaves a scalar
  or a struct as it is and clears a pointer, a member of no field is ignored, a second member
  of the same name decodes into what the first left.  \<open>None\<close> is any type mismatch (Go
  carries on to the end of the text and then returns the error).
\<close>

fun read_string :: "json \<Rightarrow> string \<Rightarrow> string option" where
  "read_string JNull cur = Some cur"
| "read_string (JStr s) cur = Some s"
| "read_string _ cur = None"

fun read_bool :: "json \<Rightarrow> bool \<Rightarrow> bool option" where
  "read_bool JNull cur = Some cur"
| "read_bool (JBool b) cur = Some b"
| "read_bool _ cur = None"

definition digits_value :: "string \<Rightarrow> int" where
  "digits_value s = foldl (\<lambda>a c. 10 * a + (of_char c - 48)) 0 s"

definition int64 :: "int \<Rightarrow> bool" where
  "int64 i = (- (2 ^ 63) \<le> i \<and> i < 2 ^ 63)"

text \<open>\<open>strconv.ParseInt(s, 10, 64)\<close> on a JSON number.\<close>

definition parse_int :: "string \<Rightarrow> int option" where
  "parse_int s =
     (let neg = has_prefix s ''-''; ds = trim_prefix s ''-'';
          i = (if neg then - digits_value ds else digits_value ds) in
      if ds \<noteq> [] \<and> list_all is_digit ds \<and> int64 i then Some i else None)"

fun read_int :: "json \<Rightarrow> int \<Rightarrow> int option" where
  "read_int JNull cur = Some cur"
| "read_int (JNum s) cur = parse_int s"
| "read_int _ cur = None"

definition read_ptr :: "(json \<Rightarrow> 'a \<Rightarrow> 'a option) \<Rightarrow> 'a \<Rightarrow> json \<Rightarrow> 'a option \<Rightarrow> 'a option option" where
  "read_ptr rd zero v cur =
     (if v = JNull then Some None
      else map_option Some (rd v (case cur of None \<Rightarrow> zero | Some c \<Rightarrow> c)))"

text \<open>A field: its JSON name and how a value is assigned to it.\<close>

type_synonym 'r field = "string \<times> (json \<Rightarrow> 'r \<Rightarrow> 'r option)"

definition field ::
  "string \<Rightarrow> ('r \<Rightarrow> 'a) \<Rightarrow> (('a \<Rightarrow> 'a) \<Rightarrow> 'r \<Rightarrow> 'r) \<Rightarrow> (json \<Rightarrow> 'a \<Rightarrow> 'a option) \<Rightarrow> 'r field" where
  "field name get upd rd = (name, \<lambda>v r. map_option (\<lambda>x. upd (\<lambda>_. x) r) (rd v (get r)))"

definition to_lower :: "char \<Rightarrow> char" where
  "to_lower c = (if byte_in 65 90 c then char_of (of_char c + 32 :: nat) else c)"

definition find_field :: "'r field list \<Rightarrow> string \<Rightarrow> (json \<Rightarrow> 'r \<Rightarrow> 'r option) option" where
  "find_field fs k =
     (case map_of fs k of
        Some rd \<Rightarrow> Some rd
      | None \<Rightarrow> map_option snd (find (\<lambda>f. map to_lower (fst f) = map to_lower k) fs))"

fun read_members :: "'r field list \<Rightarrow> (string \<times> json) list \<Rightarrow> 'r \<Rightarrow> 'r option" where
  "read_members fs [] r = Some r"
| "read_members fs ((k, v) # ms) r =
     (case find_field fs k of
        None \<Rightarrow> read_members fs ms r
      | Some rd \<Rightarrow> (case rd v r of None \<Rightarrow> None | Some r' \<Rightarrow> read_members fs ms r'))"

fun read_struct :: "'r field list \<Rightarrow> json \<Rightarrow> 'r \<Rightarrow> 'r option" where
  "read_struct fs JNull r = Some r"
| "read_struct fs (JObj ms) r = read_members fs ms r"
| "read_struct fs _ r = None"

text \<open>A map with string keys: each member is decoded from the zero value of the element.\<close>

fun read_map_members ::
  "(json \<Rightarrow> 'a \<Rightarrow> 'a option) \<Rightarrow> 'a \<Rightarrow> (string \<times> json) list \<Rightarrow> (string, 'a) fmap \<Rightarrow> (string, 'a) fmap option" where
  "read_map_members rd zero [] m = Some m"
| "read_map_members rd zero ((k, v) # ms) m =
     (case rd v zero of None \<Rightarrow> None | Some x \<Rightarrow> read_map_members rd zero ms (fmupd k x m))"

fun read_map ::
  "(json \<Rightarrow> 'a \<Rightarrow> 'a option) \<Rightarrow> 'a \<Rightarrow> json \<Rightarrow> (string, 'a) fmap \<Rightarrow> (string, 'a) fmap option" where
  "read_map rd zero JNull m = Some fmempty"
| "read_map rd zero (JObj ms) m = read_map_members rd zero ms m"
| "read_map rd zero _ m = None"

text \<open>How a map and a field with \<open>omitempty\<close> are printed.\<close>

definition map_json :: "('a \<Rightarrow> json) \<Rightarrow> (string, 'a) fmap \<Rightarrow> json" where
  "map_json f m = JObj (map (\<lambda>k. (k, f (the (fmlookup m k)))) (sorted_list_of_fset (fmdom m)))"

definition omit_empty :: "string \<Rightarrow> string \<Rightarrow> (string \<times> json) list" where
  "omit_empty name s = (if s = [] then [] else [(name, JStr s)])"

definition omit_nil :: "string \<Rightarrow> ('a \<Rightarrow> json) \<Rightarrow> 'a option \<Rightarrow> (string \<times> json) list" where
  "omit_nil name f p = (case p of None \<Rightarrow> [] | Some x \<Rightarrow> [(name, f x)])"

section \<open>Untyped values\<close>

text \<open>
  A Go \<open>any\<close>: an object is a map, so its members are unordered and the last of a name counts;
  it is printed in the order of its keys.
\<close>

definition by_key :: "(string \<times> 'a) list \<Rightarrow> (string \<times> 'a) list" where
  "by_key ms = map (\<lambda>k. (k, the (map_of (rev ms) k))) (sort (remdups (map fst ms)))"

definition member :: "string \<Rightarrow> (string \<times> json) list \<Rightarrow> json" where
  "member k ms = (case map_of (rev ms) k of None \<Rightarrow> JNull | Some v \<Rightarrow> v)"

text \<open>A value decoded into an \<open>any\<close>, as \<open>json.Marshal\<close> would print it again.\<close>

fun any_json :: "'d host \<Rightarrow> json \<Rightarrow> json option" where
  "any_json h (JNum s) = map_option JNum (json_float h s)"
| "any_json h (JArr xs) = map_option JArr (those (map (any_json h) xs))"
| "any_json h (JObj ms) =
     map_option (JObj \<circ> by_key) (those (map (\<lambda>(k, v). map_option (Pair k) (any_json h v)) ms))"
| "any_json h v = Some v"

text \<open>The \<open>%v\<close> verb.\<close>

fun show_any :: "'d host \<Rightarrow> json \<Rightarrow> string" where
  "show_any h JNull = ''<nil>''"
| "show_any h (JBool b) = (if b then ''true'' else ''false'')"
| "show_any h (JNum s) = show_float h s"
| "show_any h (JStr s) = s"
| "show_any h (JArr xs) = ''['' @ join '' '' (map (show_any h) xs) @ '']''"
| "show_any h (JObj ms) =
     ''map['' @ join '' '' (map (\<lambda>(k, v). k @ '':'' @ v) (by_key (map (\<lambda>(k, v). (k, show_any h v)) ms))) @ '']''"

section \<open>Round trips of the building blocks\<close>

lemma digit_char_value: "d < 10 \<Longrightarrow> of_char (digit_char d) = (48 + int d)"
  using of_nat_of_char [of "digit_char d", where 'a = int] by (simp add: digit_char_def)

lemma is_digit_digit_char [simp]: "d < 10 \<Longrightarrow> is_digit (digit_char d)"
  by (simp add: digit_char_def is_digit_def less_eq_char_def)

lemma dec_digits: "list_all is_digit (dec n) \<and> dec n \<noteq> []"
  by (induction n rule: dec.induct) (subst (1 2) dec.simps, auto)

lemma dec_value: "digits_value (dec n) = int n"
proof (induction n rule: dec.induct)
  case (1 n)
  show ?case
  proof (cases "n < 10")
    case True
    then show ?thesis by (subst dec.simps) (simp add: digits_value_def digit_char_value)
  next
    case False
    with 1 have "digits_value (dec (n div 10)) = int (n div 10)" by simp
    with False show ?thesis
      by (subst dec.simps) (simp add: digits_value_def digit_char_value zdiv_int zmod_int)
  qed
qed

lemma dec_head: "hd (dec n) = CHR ''0'' \<Longrightarrow> n = 0"
proof (induction n rule: dec.induct)
  case (1 n)
  show ?case
  proof (cases "n < 10")
    case True
    then have "of_char (digit_char n) = (48 + int n)" by (rule digit_char_value)
    with 1 True show ?thesis by (subst (asm) (2) dec.simps) auto
  next
    case False
    with 1 have "hd (dec (n div 10)) = CHR ''0'' \<Longrightarrow> n div 10 = 0" by simp
    moreover have "hd (dec n) = hd (dec (n div 10))"
      using False dec_digits [of "n div 10"] by (subst dec.simps) simp
    ultimately show ?thesis using False 1 by auto
  qed
qed

lemma digit_not_minus: "is_digit c \<Longrightarrow> c \<noteq> CHR ''-''"
  by (auto simp: is_digit_def less_eq_char_def)

lemma dec_no_minus [simp]: "trim_prefix (dec n) ''-'' = dec n" "\<not> has_prefix (dec n) ''-''"
  using dec_digits [of n] digit_not_minus
  by (cases "dec n"; auto simp: trim_prefix_def has_prefix_def)+

lemma minus_prefix [simp]:
  "trim_prefix (CHR ''-'' # r) ''-'' = r" "has_prefix (CHR ''-'' # r) ''-''"
  by (simp_all add: trim_prefix_def has_prefix_def)

lemma dec_digits_all [simp]: "list_all is_digit (dec n)" "dec n \<noteq> []"
  using dec_digits by auto

lemma parse_int_dec: "int64 i \<Longrightarrow> parse_int (dec_int i) = Some i"
  by (cases "i < 0") (simp_all add: parse_int_def dec_int_def dec_value Let_def)

lemma takeWhile_digits [simp]: "takeWhile is_digit (dec n) = dec n" "dropWhile is_digit (dec n) = []"
  using dec_digits_all(1) [of n] by (auto simp: list_all_iff takeWhile_eq_all_conv)

lemma dec_0: "dec 0 = ''0''"
  by (subst dec.simps) (simp add: digit_char_def char_eq_iff_nat)

lemma valid_number_dec: "valid_number (dec n)" "valid_number (CHR ''-'' # dec n)"
proof -
  have "length (dec n) = 1 \<or> hd (dec n) \<noteq> CHR ''0''"
    using dec_head [of n] by (cases "n = 0") (auto simp: dec_0)
  then show "valid_number (dec n)" "valid_number (CHR ''-'' # dec n)"
    by (simp_all add: valid_number_def Let_def has_prefix_def)
qed

lemma number_char_dec: "list_all number_char (dec n)"
  using dec_digits_all(1) by (rule list_all_mono) (simp add: number_char_def)

lemma plain_dec_int: "plain_json (JNum (dec_int i))"
  by (simp add: dec_int_def valid_number_dec number_char_dec) (simp add: number_char_def)

lemma read_map_members_map:
  assumes "\<And>k. k \<in> set ks \<Longrightarrow> rd (f (g k)) zero = Some (g k)"
  shows "read_map_members rd zero (map (\<lambda>k. (k, f (g k))) ks) m = Some (fold (\<lambda>k. fmupd k (g k)) ks m)"
  using assms by (induction ks arbitrary: m) auto

lemma fmlookup_fold_upd:
  "fmlookup (fold (\<lambda>k. fmupd k (g k)) ks m) k = (if k \<in> set ks then Some (g k) else fmlookup m k)"
  by (induction ks arbitrary: m) auto

lemma read_map_json:
  assumes "\<And>k x. fmlookup m k = Some x \<Longrightarrow> rd (f x) zero = Some x"
  shows "read_map rd zero (map_json f m) fmempty = Some m"
proof -
  have "read_map rd zero (map_json f m) fmempty
      = Some (fold (\<lambda>k. fmupd k (the (fmlookup m k))) (sorted_list_of_fset (fmdom m)) fmempty)"
    unfolding map_json_def read_map.simps
    by (rule read_map_members_map) (use assms in \<open>auto simp: fmlookup_dom_iff\<close>)
  moreover have "fold (\<lambda>k. fmupd k (the (fmlookup m k))) (sorted_list_of_fset (fmdom m)) fmempty = m"
  proof (rule fmap_ext)
    fix k
    show "fmlookup (fold (\<lambda>k. fmupd k (the (fmlookup m k))) (sorted_list_of_fset (fmdom m)) fmempty) k
        = fmlookup m k"
      by (cases "fmlookup m k") (simp_all add: fmlookup_fold_upd fmlookup_dom_iff)
  qed
  ultimately show ?thesis by simp
qed

end
