(* ===== verification/RegistryJson.thy ===== *)
theory RegistryJson
  imports Registry GoJson
begin

text \<open>
  The JSON of the registry: what the struct tags of \<open>internal/registry/registry.go\<close> make
  \<open>encoding/json\<close> print and read, for the registry itself and for the envelope of an
  encrypted one.
\<close>

record encryptedRegistryFile =
  encVersion :: int
  encEncrypted :: bool
  encAlgorithm :: string
  encKDF :: string
  encNonce :: string
  encCiphertext :: string

section \<open>Printing\<close>

definition postgres_json :: "PostgresConfig \<Rightarrow> json" where
  "postgres_json c = JObj [(''database'', JStr (pg_Database c)), (''username'', JStr (pg_Username c)),
     (''password'', JStr (pg_Password c))]"

definition redis_json :: "RedisConfig \<Rightarrow> json" where
  "redis_json c = JObj [(''username'', JStr (redis_Username c)), (''password'', JStr (redis_Password c)),
     (''prefix'', JStr (redis_Prefix c))]"

definition rabbitmq_json :: "RabbitMQConfig \<Rightarrow> json" where
  "rabbitmq_json c = JObj [(''vhost'', JStr (rmq_Vhost c)), (''username'', JStr (rmq_Username c)),
     (''password'', JStr (rmq_Password c))]"

definition aistor_json :: "AIStorConfig \<Rightarrow> json" where
  "aistor_json c = JObj [(''bucket'', JStr (s3_Bucket c)), (''accessKey'', JStr (s3_AccessKey c)),
     (''secretKey'', JStr (s3_SecretKey c)), (''endpoint'', JStr (s3_Endpoint c))]"

definition mongodb_json :: "MongoDBConfig \<Rightarrow> json" where
  "mongodb_json c = JObj [(''database'', JStr (mongo_Database c)), (''username'', JStr (mongo_Username c)),
     (''password'', JStr (mongo_Password c))]"

definition signoz_json :: "SignozConfig \<Rightarrow> json" where
  "signoz_json c = JObj [(''serviceName'', JStr (otel_ServiceName c)),
     (''environment'', JStr (otel_Environment c))]"

definition services_json :: "Services \<Rightarrow> json" where
  "services_json s = JObj
     (omit_nil ''postgres'' postgres_json (svcPostgres s) @ omit_nil ''redis'' redis_json (svcRedis s)
      @ omit_nil ''rabbitmq'' rabbitmq_json (svcRabbitMQ s) @ omit_nil ''aistor'' aistor_json (svcAIStor s)
      @ omit_nil ''mongodb'' mongodb_json (svcMongoDB s) @ omit_nil ''signoz'' signoz_json (svcSignoz s))"

definition entry_json :: "AppEntry \<Rightarrow> json" where
  "entry_json e = JObj
     ([(''createdAt'', JStr (CreatedAt e))] @ omit_empty ''environment'' (Environment e)
      @ omit_empty ''signozServiceName'' (SignozServiceName e) @ [(''services'', services_json (Svcs e))])"

definition registry_json :: "Registry \<Rightarrow> json" where
  "registry_json r = JObj [(''version'', JNum (dec_int (Version r))), (''apps'', map_json entry_json (Apps r))]"

definition envelope_json :: "encryptedRegistryFile \<Rightarrow> json" where
  "envelope_json f = JObj
     [(''version'', JNum (dec_int (encVersion f))), (''encrypted'', JBool (encEncrypted f)),
      (''algorithm'', JStr (encAlgorithm f)), (''kdf'', JStr (encKDF f)),
      (''nonce'', JStr (encNonce f)), (''ciphertext'', JStr (encCiphertext f))]"

section \<open>Reading\<close>

definition zero_entry :: AppEntry where
  "zero_entry = \<lparr>CreatedAt = [], Environment = [], SignozServiceName = [], Svcs = no_services\<rparr>"

definition zero_registry :: Registry where
  "zero_registry = \<lparr>Version = 0, Apps = fmempty\<rparr>"

definition zero_envelope :: encryptedRegistryFile where
  "zero_envelope = \<lparr>encVersion = 0, encEncrypted = False, encAlgorithm = [], encKDF = [], encNonce = [],
     encCiphertext = []\<rparr>"

definition postgres_fields :: "PostgresConfig field list" where
  "postgres_fields =
     [field ''database'' pg_Database pg_Database_update read_string,
      field ''username'' pg_Username pg_Username_update read_string,
      field ''password'' pg_Password pg_Password_update read_string]"

definition redis_fields :: "RedisConfig field list" where
  "redis_fields =
     [field ''username'' redis_Username redis_Username_update read_string,
      field ''password'' redis_Password redis_Password_update read_string,
      field ''prefix'' redis_Prefix redis_Prefix_update read_string]"

definition rabbitmq_fields :: "RabbitMQConfig field list" where
  "rabbitmq_fields =
     [field ''vhost'' rmq_Vhost rmq_Vhost_update read_string,
      field ''username'' rmq_Username rmq_Username_update read_string,
      field ''password'' rmq_Password rmq_Password_update read_string]"

definition aistor_fields :: "AIStorConfig field list" where
  "aistor_fields =
     [field ''bucket'' s3_Bucket s3_Bucket_update read_string,
      field ''accessKey'' s3_AccessKey s3_AccessKey_update read_string,
      field ''secretKey'' s3_SecretKey s3_SecretKey_update read_string,
      field ''endpoint'' s3_Endpoint s3_Endpoint_update read_string]"

definition mongodb_fields :: "MongoDBConfig field list" where
  "mongodb_fields =
     [field ''database'' mongo_Database mongo_Database_update read_string,
      field ''username'' mongo_Username mongo_Username_update read_string,
      field ''password'' mongo_Password mongo_Password_update read_string]"

definition signoz_fields :: "SignozConfig field list" where
  "signoz_fields =
     [field ''serviceName'' otel_ServiceName otel_ServiceName_update read_string,
      field ''environment'' otel_Environment otel_Environment_update read_string]"

definition services_fields :: "Services field list" where
  "services_fields =
     [field ''postgres'' svcPostgres svcPostgres_update
        (read_ptr (read_struct postgres_fields) \<lparr>pg_Database = [], pg_Username = [], pg_Password = []\<rparr>),
      field ''redis'' svcRedis svcRedis_update
        (read_ptr (read_struct redis_fields) \<lparr>redis_Username = [], redis_Password = [], redis_Prefix = []\<rparr>),
      field ''rabbitmq'' svcRabbitMQ svcRabbitMQ_update
        (read_ptr (read_struct rabbitmq_fields) \<lparr>rmq_Vhost = [], rmq_Username = [], rmq_Password = []\<rparr>),
      field ''aistor'' svcAIStor svcAIStor_update
        (read_ptr (read_struct aistor_fields)
          \<lparr>s3_Bucket = [], s3_AccessKey = [], s3_SecretKey = [], s3_Endpoint = []\<rparr>),
      field ''mongodb'' svcMongoDB svcMongoDB_update
        (read_ptr (read_struct mongodb_fields)
          \<lparr>mongo_Database = [], mongo_Username = [], mongo_Password = []\<rparr>),
      field ''signoz'' svcSignoz svcSignoz_update
        (read_ptr (read_struct signoz_fields) \<lparr>otel_ServiceName = [], otel_Environment = []\<rparr>)]"

definition entry_fields :: "AppEntry field list" where
  "entry_fields =
     [field ''createdAt'' CreatedAt CreatedAt_update read_string,
      field ''environment'' Environment Environment_update read_string,
      field ''signozServiceName'' SignozServiceName SignozServiceName_update read_string,
      field ''services'' Svcs Svcs_update (read_struct services_fields)]"

definition registry_fields :: "Registry field list" where
  "registry_fields =
     [field ''version'' Version Version_update read_int,
      field ''apps'' Apps Apps_update (read_map (read_struct entry_fields) zero_entry)]"

definition envelope_fields :: "encryptedRegistryFile field list" where
  "envelope_fields =
     [field ''version'' encVersion encVersion_update read_int,
      field ''encrypted'' encEncrypted encEncrypted_update read_bool,
      field ''algorithm'' encAlgorithm encAlgorithm_update read_string,
      field ''kdf'' encKDF encKDF_update read_string,
      field ''nonce'' encNonce encNonce_update read_string,
      field ''ciphertext'' encCiphertext encCiphertext_update read_string]"

text \<open>\<open>json.Unmarshal\<close> into a zero \<open>Registry\<close> and a zero envelope.\<close>

definition unmarshal :: "'r field list \<Rightarrow> 'r \<Rightarrow> string \<Rightarrow> 'r option" where
  "unmarshal fs zero text = (case parse_json text of None \<Rightarrow> None | Some v \<Rightarrow> read_struct fs v zero)"

definition unmarshal_registry :: "string \<Rightarrow> Registry option" where
  "unmarshal_registry text = unmarshal registry_fields zero_registry text"

definition unmarshal_envelope :: "string \<Rightarrow> encryptedRegistryFile option" where
  "unmarshal_envelope text = unmarshal envelope_fields zero_envelope text"

section \<open>Round trips\<close>

lemma field_sel [simp]:
  "fst (field n g u rd) = n"
  "snd (field n g u rd) = (\<lambda>v r. map_option (\<lambda>x. u (\<lambda>_. x) r) (rd v (g r)))"
  by (simp_all add: field_def)

lemma find_field_here [simp]:
  "find_field (field n g u rd # fs) n = Some (\<lambda>v r. map_option (\<lambda>x. u (\<lambda>_. x) r) (rd v (g r)))"
  by (simp add: find_field_def)

lemma find_field_later [simp]:
  "k \<noteq> n \<Longrightarrow> map_of fs k \<noteq> None \<Longrightarrow> find_field (field n g u rd # fs) k = find_field fs k"
  by (auto simp: find_field_def)

lemma find_field_set:
  "distinct (map fst fs) \<Longrightarrow> field n g u rd \<in> set fs \<Longrightarrow>
   find_field fs n = Some (\<lambda>v r. map_option (\<lambda>x. u (\<lambda>_. x) r) (rd v (g r)))"
  using map_of_is_SomeI [of fs n "snd (field n g u rd)"] by (simp add: find_field_def field_def)

lemmas config_fields =
  postgres_fields_def redis_fields_def rabbitmq_fields_def aistor_fields_def mongodb_fields_def
  signoz_fields_def

lemmas config_json =
  postgres_json_def redis_json_def rabbitmq_json_def aistor_json_def mongodb_json_def signoz_json_def

lemma read_configs:
  "read_struct postgres_fields (postgres_json c1) z1 = Some c1"
  "read_struct redis_fields (redis_json c2) z2 = Some c2"
  "read_struct rabbitmq_fields (rabbitmq_json c3) z3 = Some c3"
  "read_struct aistor_fields (aistor_json c4) z4 = Some c4"
  "read_struct mongodb_fields (mongodb_json c5) z5 = Some c5"
  "read_struct signoz_fields (signoz_json c6) z6 = Some c6"
  by (simp_all add: config_fields config_json)

lemma config_json_not_null:
  "postgres_json c1 \<noteq> JNull" "redis_json c2 \<noteq> JNull" "rabbitmq_json c3 \<noteq> JNull"
  "aistor_json c4 \<noteq> JNull" "mongodb_json c5 \<noteq> JNull" "signoz_json c6 \<noteq> JNull"
  by (simp_all add: config_json)

text \<open>A field with \<open>omitempty\<close> is either read back or left at its zero value.\<close>

lemma services_lookup:
  "find_field services_fields ''postgres'' =
     Some (\<lambda>v r. map_option (\<lambda>x. r\<lparr>svcPostgres := x\<rparr>)
       (read_ptr (read_struct postgres_fields) \<lparr>pg_Database = [], pg_Username = [], pg_Password = []\<rparr> v (svcPostgres r)))"
  "find_field services_fields ''redis'' =
     Some (\<lambda>v r. map_option (\<lambda>x. r\<lparr>svcRedis := x\<rparr>)
       (read_ptr (read_struct redis_fields) \<lparr>redis_Username = [], redis_Password = [], redis_Prefix = []\<rparr> v (svcRedis r)))"
  "find_field services_fields ''rabbitmq'' =
     Some (\<lambda>v r. map_option (\<lambda>x. r\<lparr>svcRabbitMQ := x\<rparr>)
       (read_ptr (read_struct rabbitmq_fields) \<lparr>rmq_Vhost = [], rmq_Username = [], rmq_Password = []\<rparr> v (svcRabbitMQ r)))"
  "find_field services_fields ''aistor'' =
     Some (\<lambda>v r. map_option (\<lambda>x. r\<lparr>svcAIStor := x\<rparr>)
       (read_ptr (read_struct aistor_fields) \<lparr>s3_Bucket = [], s3_AccessKey = [], s3_SecretKey = [], s3_Endpoint = []\<rparr> v (svcAIStor r)))"
  "find_field services_fields ''mongodb'' =
     Some (\<lambda>v r. map_option (\<lambda>x. r\<lparr>svcMongoDB := x\<rparr>)
       (read_ptr (read_struct mongodb_fields) \<lparr>mongo_Database = [], mongo_Username = [], mongo_Password = []\<rparr> v (svcMongoDB r)))"
  "find_field services_fields ''signoz'' =
     Some (\<lambda>v r. map_option (\<lambda>x. r\<lparr>svcSignoz := x\<rparr>)
       (read_ptr (read_struct signoz_fields) \<lparr>otel_ServiceName = [], otel_Environment = []\<rparr> v (svcSignoz r)))"
  by (simp_all add: services_fields_def)

lemma services_none:
  "svcPostgres r = None \<Longrightarrow> r\<lparr>svcPostgres := None\<rparr> = r"
  "svcRedis r = None \<Longrightarrow> r\<lparr>svcRedis := None\<rparr> = r"
  "svcRabbitMQ r = None \<Longrightarrow> r\<lparr>svcRabbitMQ := None\<rparr> = r"
  "svcAIStor r = None \<Longrightarrow> r\<lparr>svcAIStor := None\<rparr> = r"
  "svcMongoDB r = None \<Longrightarrow> r\<lparr>svcMongoDB := None\<rparr> = r"
  "svcSignoz r = None \<Longrightarrow> r\<lparr>svcSignoz := None\<rparr> = r"
  by (cases r; simp)+

lemma services_steps:
  "svcPostgres r = None \<Longrightarrow> read_members services_fields (omit_nil ''postgres'' postgres_json p0 @ ms) r
     = read_members services_fields ms (r\<lparr>svcPostgres := p0\<rparr>)"
  "svcRedis r = None \<Longrightarrow> read_members services_fields (omit_nil ''redis'' redis_json p1 @ ms) r
     = read_members services_fields ms (r\<lparr>svcRedis := p1\<rparr>)"
  "svcRabbitMQ r = None \<Longrightarrow> read_members services_fields (omit_nil ''rabbitmq'' rabbitmq_json p2 @ ms) r
     = read_members services_fields ms (r\<lparr>svcRabbitMQ := p2\<rparr>)"
  "svcAIStor r = None \<Longrightarrow> read_members services_fields (omit_nil ''aistor'' aistor_json p3 @ ms) r
     = read_members services_fields ms (r\<lparr>svcAIStor := p3\<rparr>)"
  "svcMongoDB r = None \<Longrightarrow> read_members services_fields (omit_nil ''mongodb'' mongodb_json p4 @ ms) r
     = read_members services_fields ms (r\<lparr>svcMongoDB := p4\<rparr>)"
  "svcSignoz r = None \<Longrightarrow> read_members services_fields (omit_nil ''signoz'' signoz_json p5 @ ms) r
     = read_members services_fields ms (r\<lparr>svcSignoz := p5\<rparr>)"
  by (simp_all add: omit_nil_def services_lookup read_ptr_def read_configs config_json_not_null
      services_none split: option.split)

lemma read_services: "read_struct services_fields (services_json s) no_services = Some s"
  using services_steps(6) [where ms = "[]"]
  by (simp add: services_json_def no_services_def services_steps)

lemma entry_lookup:
  "find_field entry_fields ''createdAt'' = Some (\<lambda>v r. map_option (\<lambda>x. r\<lparr>CreatedAt := x\<rparr>) (read_string v (CreatedAt r)))"
  "find_field entry_fields ''environment'' = Some (\<lambda>v r. map_option (\<lambda>x. r\<lparr>Environment := x\<rparr>) (read_string v (Environment r)))"
  "find_field entry_fields ''signozServiceName'' =
     Some (\<lambda>v r. map_option (\<lambda>x. r\<lparr>SignozServiceName := x\<rparr>) (read_string v (SignozServiceName r)))"
  "find_field entry_fields ''services'' =
     Some (\<lambda>v r. map_option (\<lambda>x. r\<lparr>Svcs := x\<rparr>) (read_struct services_fields v (Svcs r)))"
  by (simp_all add: entry_fields_def)

lemma read_entry: "read_struct entry_fields (entry_json e) zero_entry = Some e"
  using read_services
  by (simp add: entry_json_def zero_entry_def omit_empty_def entry_lookup split: option.split)

lemma read_registry:
  "int64 (Version r) \<Longrightarrow> read_struct registry_fields (registry_json r) zero_registry = Some r"
  using read_map_json [of "Apps r" "read_struct entry_fields" entry_json zero_entry]
  by (simp add: registry_json_def registry_fields_def zero_registry_def parse_int_dec read_entry)

lemma read_envelope:
  "int64 (encVersion f) \<Longrightarrow> read_struct envelope_fields (envelope_json f) zero_envelope = Some f"
  by (simp add: envelope_json_def envelope_fields_def zero_envelope_def parse_int_dec)

text \<open>
  The plain registry read as an envelope: it has no field \<open>encrypted\<close>, so the flag stays off.
\<close>

lemma read_registry_as_envelope:
  "case read_struct envelope_fields (registry_json r) zero_envelope of
     None \<Rightarrow> True | Some f \<Rightarrow> \<not> encEncrypted f"
  by (simp add: registry_json_def envelope_fields_def zero_envelope_def find_field_def to_lower_def
      byte_in_def split: option.split)

text \<open>Registries whose names and values are ASCII, with a version of Go's \<open>int\<close>.\<close>

definition services_values :: "Services \<Rightarrow> string list" where
  "services_values s =
     concat
       [case svcPostgres s of None \<Rightarrow> [] | Some c \<Rightarrow> [pg_Database c, pg_Username c, pg_Password c],
        case svcRedis s of None \<Rightarrow> [] | Some c \<Rightarrow> [redis_Username c, redis_Password c, redis_Prefix c],
        case svcRabbitMQ s of None \<Rightarrow> [] | Some c \<Rightarrow> [rmq_Vhost c, rmq_Username c, rmq_Password c],
        case svcAIStor s of None \<Rightarrow> []
          | Some c \<Rightarrow> [s3_Bucket c, s3_AccessKey c, s3_SecretKey c, s3_Endpoint c],
        case svcMongoDB s of None \<Rightarrow> [] | Some c \<Rightarrow> [mongo_Database c, mongo_Username c, mongo_Password c],
        case svcSignoz s of None \<Rightarrow> [] | Some c \<Rightarrow> [otel_ServiceName c, otel_Environment c]]"

definition entry_values :: "AppEntry \<Rightarrow> string list" where
  "entry_values e = [CreatedAt e, Environment e, SignozServiceName e] @ services_values (Svcs e)"

definition storable :: "Registry \<Rightarrow> bool" where
  "storable r =
     (int64 (Version r)
      \<and> list_all (\<lambda>k. ascii k \<and> list_all ascii (entry_values (the (fmlookup (Apps r) k))))
          (sorted_list_of_fset (fmdom (Apps r))))"

lemma ascii_literals [simp]: "ascii []" "ascii (c # s) \<longleftrightarrow> byte_in 0 127 c \<and> ascii s"
  by (simp_all add: ascii_def)

lemma plain_omit:
  "list_all (\<lambda>(k, x). ascii k \<and> plain_json x) (omit_nil n f p) \<longleftrightarrow>
     (case p of None \<Rightarrow> True | Some c \<Rightarrow> ascii n \<and> plain_json (f c))"
  "list_all (\<lambda>(k, x). ascii k \<and> plain_json x) (omit_empty n s) \<longleftrightarrow> s = [] \<or> ascii n \<and> ascii s"
  by (auto simp: omit_nil_def omit_empty_def split: option.split)

lemma plain_configs:
  "list_all ascii (services_values s) \<Longrightarrow> plain_json (services_json s)"
  by (auto simp: services_json_def services_values_def plain_omit config_json byte_in_def
      split: option.splits)

lemma plain_entry: "list_all ascii (entry_values e) \<Longrightarrow> plain_json (entry_json e)"
  by (auto simp: entry_json_def entry_values_def plain_omit byte_in_def plain_configs)

lemma plain_registry:
  assumes "storable r"
  shows "plain_json (registry_json r)"
  using assms plain_dec_int [of "Version r"]
  by (auto simp: registry_json_def map_json_def storable_def list_all_iff plain_entry byte_in_def
      simp del: fmdom'_notD)

lemma parse_registry:
  "storable r \<Longrightarrow> list_all json_space ws \<Longrightarrow>
   parse_json (print_json ind 0 (registry_json r) @ ws) = Some (registry_json r)"
  by (rule parse_json_print [OF plain_registry])

lemma unmarshal_registry_print:
  "storable r \<Longrightarrow> list_all json_space ws \<Longrightarrow>
   unmarshal_registry (print_json ind 0 (registry_json r) @ ws) = Some r"
  by (simp add: unmarshal_registry_def unmarshal_def parse_registry read_registry storable_def)

lemma unmarshal_envelope_registry:
  "storable r \<Longrightarrow> list_all json_space ws \<Longrightarrow>
   unmarshal_envelope (print_json ind 0 (registry_json r) @ ws) = Some f \<Longrightarrow> \<not> encEncrypted f"
  using read_registry_as_envelope [of r]
  by (simp add: unmarshal_envelope_def unmarshal_def parse_registry)

end
