(* ===== verification/Gcm.thy ===== *)
theory Gcm
  imports Codec "HOL-Library.Word"
begin

text \<open>
  The cryptography of the encrypted registry, as \<open>crypto/sha256\<close>, \<open>crypto/aes\<close> and
  \<open>crypto/cipher\<close> compute it: SHA-256 (FIPS 180-4), the AES-256 block cipher (FIPS 197) and
  GCM (SP 800-38D) with a 12-byte nonce, a 16-byte tag and no additional data.  Words of
  SHA-256 are \<open>32 word\<close> and wrap; a byte is an \<open>8 word\<close> and a GCM block a \<open>128 word\<close>.
\<close>

unbundle bit_operations_syntax

type_synonym byte = "8 word"

definition bytes_of :: "string \<Rightarrow> byte list" where
  "bytes_of s = map (\<lambda>c. word_of_nat (of_char c)) s"

definition string_of :: "byte list \<Rightarrow> string" where
  "string_of bs = map (\<lambda>b. char_of (unat b)) bs"

section \<open>SHA-256\<close>

definition sha_k :: "32 word list" where
  "sha_k =
     [0x428A2F98, 0x71374491, 0xB5C0FBCF, 0xE9B5DBA5, 0x3956C25B, 0x59F111F1, 0x923F82A4, 0xAB1C5ED5,
      0xD807AA98, 0x12835B01, 0x243185BE, 0x550C7DC3, 0x72BE5D74, 0x80DEB1FE, 0x9BDC06A7, 0xC19BF174,
      0xE49B69C1, 0xEFBE4786, 0x0FC19DC6, 0x240CA1CC, 0x2DE92C6F, 0x4A7484AA, 0x5CB0A9DC, 0x76F988DA,
      0x983E5152, 0xA831C66D, 0xB00327C8, 0xBF597FC7, 0xC6E00BF3, 0xD5A79147, 0x06CA6351, 0x14292967,
      0x27B70A85, 0x2E1B2138, 0x4D2C6DFC, 0x53380D13, 0x650A7354, 0x766A0ABB, 0x81C2C92E, 0x92722C85,
      0xA2BFE8A1, 0xA81A664B, 0xC24B8B70, 0xC76C51A3, 0xD192E819, 0xD6990624, 0xF40E3585, 0x106AA070,
      0x19A4C116, 0x1E376C08, 0x2748774C, 0x34B0BCB5, 0x391C0CB3, 0x4ED8AA4A, 0x5B9CCA4F, 0x682E6FF3,
      0x748F82EE, 0x78A5636F, 0x84C87814, 0x8CC70208, 0x90BEFFFA, 0xA4506CEB, 0xBEF9A3F7, 0xC67178F2]"

definition sha_init :: "32 word list" where
  "sha_init =
     [0x6A09E667, 0xBB67AE85, 0x3C6EF372, 0xA54FF53A, 0x510E527F, 0x9B05688C, 0x1F83D9AB, 0x5BE0CD19]"

definition rotr :: "nat \<Rightarrow> 32 word \<Rightarrow> 32 word" where
  "rotr n x = (drop_bit n x OR push_bit (32 - n) x)"

definition be_value :: "byte list \<Rightarrow> nat" where
  "be_value bs = foldl (\<lambda>a b. 256 * a + unat b) 0 bs"

definition be_bytes :: "nat \<Rightarrow> nat \<Rightarrow> byte list" where
  "be_bytes n v = map (\<lambda>i. word_of_nat (v div 256 ^ (n - 1 - i))) [0..<n]"

fun chunks :: "nat \<Rightarrow> 'a list \<Rightarrow> 'a list list" where
  "chunks n [] = []"
| "chunks n (x # xs) = take n (x # xs) # chunks n (drop (n - 1) xs)"

definition sha_pad :: "byte list \<Rightarrow> byte list" where
  "sha_pad m = m @ [128] @ replicate ((119 - length m mod 64) mod 64) 0 @ be_bytes 8 (8 * length m)"

text \<open>The message schedule, newest word first.\<close>

definition sha_next :: "32 word list \<Rightarrow> 32 word" where
  "sha_next ws =
     (let a = ws ! 1; b = ws ! 14;
          s1 = rotr 17 a XOR rotr 19 a XOR drop_bit 10 a;
          s0 = rotr 7 b XOR rotr 18 b XOR drop_bit 3 b in
      s1 + ws ! 6 + s0 + ws ! 15)"

definition sha_schedule :: "byte list \<Rightarrow> 32 word list" where
  "sha_schedule blk =
     rev (((\<lambda>ws. sha_next ws # ws) ^^ 48) (rev (map (\<lambda>c. word_of_nat (be_value c)) (chunks 4 blk))))"

fun sha_round :: "32 word \<times> 32 word \<Rightarrow> 32 word list \<Rightarrow> 32 word list" where
  "sha_round (k, w) [a, b, c, d, e, f, g, h] =
     (let s1 = rotr 6 e XOR rotr 11 e XOR rotr 25 e;
          ch = (e AND f) XOR (NOT e AND g);
          t1 = h + s1 + ch + k + w;
          s0 = rotr 2 a XOR rotr 13 a XOR rotr 22 a;
          maj = (a AND b) XOR (a AND c) XOR (b AND c) in
      [t1 + (s0 + maj), a, b, c, d + t1, e, f, g])"
| "sha_round _ s = s"

definition sha_block :: "byte list \<Rightarrow> 32 word list \<Rightarrow> 32 word list" where
  "sha_block blk hs = map2 (+) hs (fold sha_round (zip sha_k (sha_schedule blk)) hs)"

text \<open>\<open>sha256.Sum256([]byte(s))\<close>.\<close>

definition sha256 :: "string \<Rightarrow> byte list" where
  "sha256 s = concat (map (\<lambda>w. be_bytes 4 (unat w))
     (fold sha_block (chunks 64 (sha_pad (bytes_of s))) sha_init))"

section \<open>AES-256\<close>

definition aes_sbox :: "byte list" where
  "aes_sbox =
     [99, 124, 119, 123, 242, 107, 111, 197, 48, 1, 103, 43, 254, 215, 171, 118,
      202, 130, 201, 125, 250, 89, 71, 240, 173, 212, 162, 175, 156, 164, 114, 192,
      183, 253, 147, 38, 54, 63, 247, 204, 52, 165, 229, 241, 113, 216, 49, 21,
      4, 199, 35, 195, 24, 150, 5, 154, 7, 18, 128, 226, 235, 39, 178, 117,
      9, 131, 44, 26, 27, 110, 90, 160, 82, 59, 214, 179, 41, 227, 47, 132,
      83, 209, 0, 237, 32, 252, 177, 91, 106, 203, 190, 57, 74, 76, 88, 207,
      208, 239, 170, 251, 67, 77, 51, 133, 69, 249, 2, 127, 80, 60, 159, 168,
      81, 163, 64, 143, 146, 157, 56, 245, 188, 182, 218, 33, 16, 255, 243, 210,
      205, 12, 19, 236, 95, 151, 68, 23, 196, 167, 126, 61, 100, 93, 25, 115,
      96, 129, 79, 220, 34, 42, 144, 136, 70, 238, 184, 20, 222, 94, 11, 219,
      224, 50, 58, 10, 73, 6, 36, 92, 194, 211, 172, 98, 145, 149, 228, 121,
      231, 200, 55, 109, 141, 213, 78, 169, 108, 86, 244, 234, 101, 122, 174, 8,
      186, 120, 37, 46, 28, 166, 180, 198, 232, 221, 116, 31, 75, 189, 139, 138,
      112, 62, 181, 102, 72, 3, 246, 14, 97, 53, 87, 185, 134, 193, 29, 158,
      225, 248, 152, 17, 105, 217, 142, 148, 155, 30, 135, 233, 206, 85, 40, 223,
      140, 161, 137, 13, 191, 230, 66, 104, 65, 153, 45, 15, 176, 84, 187, 22]"

definition sub_byte :: "byte \<Rightarrow> byte" where
  "sub_byte b = aes_sbox ! unat b"

definition xor_bytes :: "byte list \<Rightarrow> byte list \<Rightarrow> byte list" where
  "xor_bytes as bs = map2 (XOR) as bs"

definition xtime :: "byte \<Rightarrow> byte" where
  "xtime a = (if bit a 7 then push_bit 1 a XOR 27 else push_bit 1 a)"

text \<open>The key schedule, newest word first; the words are lists of four bytes.\<close>

definition expand_word :: "byte list list \<Rightarrow> byte list" where
  "expand_word ws =
     (let i = length ws; t = hd ws in
      xor_bytes (ws ! 7)
        (if i mod 8 = 0
           then xor_bytes (map sub_byte (rotate1 t)) [(xtime ^^ (i div 8 - 1)) 1, 0, 0, 0]
         else if i mod 8 = 4 then map sub_byte t else t))"

definition round_keys :: "byte list \<Rightarrow> byte list list" where
  "round_keys key =
     map concat (chunks 4 (rev (((\<lambda>ws. expand_word ws # ws) ^^ 52) (rev (chunks 4 key)))))"

definition shift_rows :: "byte list \<Rightarrow> byte list" where
  "shift_rows s = map (\<lambda>i. s ! ((i + 4 * (i mod 4)) mod 16)) [0..<16]"

fun mix_column :: "byte list \<Rightarrow> byte list" where
  "mix_column [a, b, c, d] =
     (let t = (a XOR b) XOR (c XOR d) in
      [a XOR t XOR xtime (a XOR b), b XOR t XOR xtime (b XOR c),
       c XOR t XOR xtime (c XOR d), d XOR t XOR xtime (d XOR a)])"
| "mix_column s = s"

definition aes_round :: "byte list \<Rightarrow> byte list \<Rightarrow> byte list" where
  "aes_round k s = xor_bytes (concat (map mix_column (chunks 4 (shift_rows (map sub_byte s))))) k"

definition aes_encrypt :: "byte list list \<Rightarrow> byte list \<Rightarrow> byte list" where
  "aes_encrypt ks s =
     (case ks of
        [] \<Rightarrow> s
      | k0 # rest \<Rightarrow>
          xor_bytes (shift_rows (map sub_byte (fold aes_round (butlast rest) (xor_bytes s k0)))) (last ks))"

section \<open>GCM\<close>

definition block_word :: "byte list \<Rightarrow> 128 word" where
  "block_word bs = word_of_nat (be_value (take 16 (bs @ replicate 16 0)))"

definition word_block :: "128 word \<Rightarrow> byte list" where
  "word_block w = be_bytes 16 (unat w)"

text \<open>Multiplication in the field of GCM; the first bit is the most significant.\<close>

definition gf_step :: "128 word \<Rightarrow> nat \<Rightarrow> 128 word \<times> 128 word \<Rightarrow> 128 word \<times> 128 word" where
  "gf_step x i zv =
     (case zv of (z, v) \<Rightarrow>
        (if bit x (127 - i) then z XOR v else z,
         if bit v 0 then drop_bit 1 v XOR 0xE1000000000000000000000000000000 else drop_bit 1 v))"

definition gf_mult :: "128 word \<Rightarrow> 128 word \<Rightarrow> 128 word" where
  "gf_mult x y = fst (fold (gf_step x) [0..<128] (0, y))"

definition ghash :: "128 word \<Rightarrow> byte list \<Rightarrow> 128 word" where
  "ghash hk c =
     gf_mult (fold (\<lambda>b y. gf_mult (y XOR block_word b) hk) (chunks 16 c) 0
       XOR word_of_nat (8 * length c)) hk"

definition ctr_block :: "byte list list \<Rightarrow> byte list \<Rightarrow> nat \<Rightarrow> byte list" where
  "ctr_block ks nonce i = aes_encrypt ks (nonce @ be_bytes 4 i)"

definition keystream :: "byte list list \<Rightarrow> byte list \<Rightarrow> nat \<Rightarrow> byte list" where
  "keystream ks nonce n =
     take n (concat (map (\<lambda>i. take 16 (ctr_block ks nonce (i + 2) @ replicate 16 0)) [0..<n div 16 + 1]))"

definition gcm_crypt :: "byte list list \<Rightarrow> byte list \<Rightarrow> byte list \<Rightarrow> byte list" where
  "gcm_crypt ks nonce s = xor_bytes s (keystream ks nonce (length s))"

definition gcm_tag :: "byte list list \<Rightarrow> byte list \<Rightarrow> byte list \<Rightarrow> byte list" where
  "gcm_tag ks nonce c =
     word_block (ghash (block_word (aes_encrypt ks (replicate 16 0))) c XOR block_word (ctr_block ks nonce 1))"

text \<open>\<open>gcm.Seal(nil, nonce, s, nil)\<close> and \<open>gcm.Open(nil, nonce, s, nil)\<close> under a 32-byte key.\<close>

definition gcm_seal :: "byte list \<Rightarrow> string \<Rightarrow> string \<Rightarrow> string" where
  "gcm_seal key nonce s =
     (let ks = round_keys key; n = bytes_of nonce; c = gcm_crypt ks n (bytes_of s) in
      string_of (c @ gcm_tag ks n c))"

definition gcm_open :: "byte list \<Rightarrow> string \<Rightarrow> string \<Rightarrow> string option" where
  "gcm_open key nonce s =
     (let ks = round_keys key; n = bytes_of nonce; bs = bytes_of s;
          c = take (length bs - 16) bs; t = drop (length bs - 16) bs in
      if length s < 16 \<or> t \<noteq> gcm_tag ks n c then None
      else Some (string_of (gcm_crypt ks n c)))"

section \<open>Opening undoes sealing\<close>

lemma string_of_bytes [simp]: "string_of (bytes_of s) = s"
  by (induction s) (simp_all add: string_of_def bytes_of_def unat_of_nat)

lemma bytes_of_string [simp]: "bytes_of (string_of bs) = bs"
proof -
  have "word_of_nat (of_char (char_of (unat b) :: char)) = b" for b :: byte
  proof -
    have "unat b < 256" using unsigned_less [of b] by simp
    then show ?thesis by simp
  qed
  then show ?thesis by (simp add: bytes_of_def string_of_def map_idI)
qed

lemma length_bytes [simp]: "length (bytes_of s) = length s" "length (string_of bs) = length bs"
  by (simp_all add: bytes_of_def string_of_def)

lemma length_be_bytes [simp]: "length (be_bytes n v) = n"
  by (simp add: be_bytes_def)

lemma length_gcm_tag [simp]: "length (gcm_tag ks n c) = 16"
  by (simp add: gcm_tag_def word_block_def)

lemma xor_bytes_twice: "length s \<le> length k \<Longrightarrow> xor_bytes (xor_bytes s k) k = s"
proof (induction s arbitrary: k)
  case (Cons x s)
  then show ?case by (cases k) (auto simp: xor_bytes_def xor.assoc)
qed (simp add: xor_bytes_def)

lemma length_blocks: "(\<And>x. x \<in> set xs \<Longrightarrow> length (f x) = 16) \<Longrightarrow> length (concat (map f xs)) = 16 * length xs"
  by (induction xs) auto

lemma length_keystream [simp]: "length (keystream ks nonce n) = n"
proof -
  define bs where
    "bs = concat (map (\<lambda>i. take 16 (ctr_block ks nonce (i + 2) @ replicate 16 0)) [0..<n div 16 + 1])"
  have "length bs = 16 * length [0..<n div 16 + 1]"
    unfolding bs_def by (rule length_blocks) simp
  then have "n \<le> length bs" by simp
  then show ?thesis unfolding keystream_def bs_def [symmetric] by simp
qed

lemma length_gcm_crypt [simp]: "length (gcm_crypt ks n s) = length s"
  by (simp add: gcm_crypt_def xor_bytes_def)

lemma gcm_crypt_twice [simp]: "gcm_crypt ks n (gcm_crypt ks n s) = s"
  unfolding gcm_crypt_def [of ks n "gcm_crypt ks n s"] length_gcm_crypt
  by (simp add: gcm_crypt_def xor_bytes_twice)

lemma gcm_open_seal: "gcm_open key nonce (gcm_seal key nonce s) = Some s"
  by (simp add: gcm_open_def gcm_seal_def Let_def)

lemma length_gcm_seal [simp]: "length (gcm_seal key nonce s) = length s + 16"
  by (simp add: gcm_seal_def Let_def)

text \<open>Under a fixed key and nonce the cipher is a codec.\<close>

interpretation gcm: codec "gcm_seal key nonce" "gcm_open key nonce" for key nonce
  by unfold_locales (rule gcm_open_seal)

end
