(* ===== verification/Passwordgen.thy ===== *)
theory Passwordgen
  imports Codec
begin

text \<open>
  \<open>internal/passwordgen\<close>: random bytes in the URL alphabet of base64, cut to the length asked
  for.  \<open>crypto/rand.Read\<close> fills its buffer or ends the process, so it has no error here.
\<close>

definition generate :: "'d host \<Rightarrow> int \<Rightarrow> 'd world \<Rightarrow> string \<times> 'd world" where
  "generate h len w =
     (let n = nat (if len \<le> 0 then 24 else len) in
      (case rand_bytes h n w of
         (buf, w') \<Rightarrow>
           (let encoded = raw_url_encode buf in
            (if n < length encoded then take n encoded else encoded, w'))))"

text \<open>Letters, digits, hyphen and underscore: nothing that a quoting context treats specially.\<close>

definition is_password_char :: "char \<Rightarrow> bool" where
  "is_password_char c =
     (is_lower c \<or> is_digit c \<or> CHR ''A'' \<le> c \<and> c \<le> CHR ''Z'' \<or> c = CHR ''-'' \<or> c = CHR ''_'')"

lemma url_alphabet_chars: "list_all is_password_char url_alphabet"
  by (simp add: url_alphabet_def sextet_chars_def is_password_char_def char_class_defs)

lemma is_password_char_graphic: "is_password_char c \<Longrightarrow> graphic c"
  by (auto simp: is_password_char_def char_class_defs graphic_def)

lemma generate_length:
  "length (fst (generate h len w)) = nat (if len \<le> 0 then 24 else len)"
proof -
  define n where "n = nat (if len \<le> 0 then 24 else len)"
  have "n \<le> length (raw_url_encode (map (entropy h (tick w)) [0..<n]))"
    using length_raw_url_encode [of "map (entropy h (tick w)) [0..<n]"] by simp
  then have "length (fst (generate h len w)) = n"
    by (simp add: generate_def rand_bytes_def Let_def flip: n_def)
  then show ?thesis by (simp add: n_def)
qed

lemma generate_chars: "list_all is_password_char (fst (generate h len w))"
proof -
  let ?n = "nat (if len \<le> 0 then 24 else len)"
  let ?e = "raw_url_encode (map (entropy h (tick w)) [0..<?n])"
  have "set (fst (generate h len w)) \<subseteq> set ?e"
    by (simp add: generate_def rand_bytes_def Let_def set_take_subset)
  then show ?thesis
    using set_raw_url_encode url_alphabet_chars by (fastforce simp: list_all_iff)
qed

lemma generate_world: "snd (generate h len w) = w\<lparr>tick := Suc (tick w)\<rparr>"
  by (simp add: generate_def rand_bytes_def Let_def)

lemma generate_frame [world_simps]:
  "generate h len w = (p, w') \<Longrightarrow>
     files w' = files w \<and> daemon w' = daemon w \<and> calls w' = calls w \<and> report w' = report w
     \<and> length p = nat (if len \<le> 0 then 24 else len) \<and> list_all is_password_char p"
  using generate_length [of h len w] generate_chars [of h len w] generate_world [of h len w]
  by auto

end
