(* ===== verification/RegistryStore.thy ===== *)
theory RegistryStore
  imports RegistryJson Gcm Passwordgen
begin

text \<open>
  The registry on disk: \<open>Store\<close> of \<open>internal/registry\<close>.  The file holds either the registry's
  JSON or the envelope of its AES-256-GCM encryption under the SHA-256 of the secret.  A save
  writes a sibling \<open>.tmp\<close> file and renames it into place.  The interface the engine relies on
  is the locale \<open>registry_store\<close>; the concrete store is its interpretation.
\<close>

section \<open>Reading\<close>

text \<open>The wording of \<open>encoding/json\<close> and \<open>encoding/base64\<close> errors is not modelled.\<close>

definition json_error :: error where
  "json_error = errorf ''json: cannot unmarshal the registry''"

definition base64_error :: error where
  "base64_error = errorf ''illegal base64 data''"

definition decryptRegistryContent ::
  "'d host \<Rightarrow> 'd world \<Rightarrow> encryptedRegistryFile \<Rightarrow> string \<Rightarrow> string result" where
  "decryptRegistryContent h w file path =
     (if encAlgorithm file \<noteq> ''AES-256-GCM'' \<or> encKDF file \<noteq> ''SHA-256''
      then Inl (errorf (''unsupported encrypted registry format: '' @ encAlgorithm file @ ''/'' @ encKDF file))
      else (case registry_secret h w (path_dir path) of
          Inl e \<Rightarrow> Inl e
        | Inr secret \<Rightarrow>
            (case std_decode (encCiphertext file) of
               None \<Rightarrow> Inl base64_error
             | Some payload \<Rightarrow>
                 (if length payload \<le> 16 then Inl (errorf ''invalid encrypted registry payload'')
                  else (case std_decode (encNonce file) of
                      None \<Rightarrow> Inl base64_error
                    | Some nonce \<Rightarrow>
                        (if length nonce \<noteq> 12 then Inl (errorf ''invalid encrypted registry nonce'')
                         else (case gcm_open (sha256 secret) nonce payload of
                             None \<Rightarrow> Inl (errorf ''cipher: message authentication failed'')
                           | Some content \<Rightarrow> Inr content)))))))"

definition decode_registry :: "string \<Rightarrow> Registry result" where
  "decode_registry content =
     (case unmarshal_registry content of None \<Rightarrow> Inl json_error | Some r \<Rightarrow> Inr r)"

definition store_load :: "'d host \<Rightarrow> string \<Rightarrow> 'd world \<Rightarrow> Registry result" where
  "store_load h path w =
     (case read_file h w path of
        Inl e \<Rightarrow> if err_is e = Some ErrNotExist then Inr empty_registry else Inl e
      | Inr content \<Rightarrow>
          (case unmarshal_envelope content of
             Some f \<Rightarrow>
               (if encEncrypted f
                then (case decryptRegistryContent h w f path of
                    Inl e \<Rightarrow> Inl e
                  | Inr decrypted \<Rightarrow> decode_registry decrypted)
                else decode_registry content)
           | None \<Rightarrow> decode_registry content))"

definition list_apps :: "'d host \<Rightarrow> string \<Rightarrow> 'd world \<Rightarrow> App list result" where
  "list_apps h path w = map_sum id apps_of (store_load h path w)"

definition get_app :: "'d host \<Rightarrow> string \<Rightarrow> string \<Rightarrow> 'd world \<Rightarrow> App option result" where
  "get_app h path name w = map_sum id (\<lambda>r. find_app r name) (store_load h path w)"

section \<open>Writing\<close>

definition encryptRegistry ::
  "'d host \<Rightarrow> Registry \<Rightarrow> string \<Rightarrow> 'd world \<Rightarrow> encryptedRegistryFile \<times> 'd world" where
  "encryptRegistry h reg secret w =
     (case rand_bytes h 12 w of
        (nonce, w') \<Rightarrow>
          (\<lparr>encVersion = 2, encEncrypted = True, encAlgorithm = ''AES-256-GCM'', encKDF = ''SHA-256'',
             encNonce = std_encode nonce,
             encCiphertext = std_encode (gcm_seal (sha256 secret) nonce (marshal (registry_json reg)))\<rparr>, w'))"

definition atomicWrite :: "'d host \<Rightarrow> string \<Rightarrow> string \<Rightarrow> 'd world \<Rightarrow> error option \<times> 'd world" where
  "atomicWrite h path payload w =
     (case mkdir_all h (path_dir path) w of
        (Some e, w1) \<Rightarrow> (Some e, w1)
      | (None, w1) \<Rightarrow>
          (case write_file h (path @ ''.tmp'') payload w1 of
             (Some e, w2) \<Rightarrow> (Some e, w2)
           | (None, w2) \<Rightarrow>
               (case rename_file h (path @ ''.tmp'') path w2 of
                  (Some e, w3) \<Rightarrow> (Some e, snd (remove_file h (path @ ''.tmp'') w3))
                | (None, w3) \<Rightarrow> (None, w3))))"

definition saved_version :: "Registry \<Rightarrow> Registry" where
  "saved_version reg = (if Version reg = 0 then reg\<lparr>Version := 1\<rparr> else reg)"

definition store_save :: "'d host \<Rightarrow> string \<Rightarrow> Registry \<Rightarrow> 'd world \<Rightarrow> error option \<times> 'd world" where
  "store_save h path reg w =
     (let reg1 = saved_version reg in
      case registry_secret h w (path_dir path) of
        Inr secret \<Rightarrow>
          (case encryptRegistry h reg1 secret w of
             (f, w1) \<Rightarrow> atomicWrite h path (marshal_indent (envelope_json f) @ newline) w1)
      | Inl _ \<Rightarrow> atomicWrite h path (marshal_indent (registry_json reg1) @ newline) w)"

definition encrypt_in_place :: "'d host \<Rightarrow> string \<Rightarrow> 'd world \<Rightarrow> error option \<times> 'd world" where
  "encrypt_in_place h path w =
     (case registry_secret h w (path_dir path) of
        Inl _ \<Rightarrow> (Some (errorf ''INFRA_SHELF_SECRET is required to encrypt the registry''), w)
      | Inr secret \<Rightarrow>
          (case store_load h path w of
             Inl e \<Rightarrow> (Some e, w)
           | Inr reg \<Rightarrow>
               (case encryptRegistry h reg secret w of
                  (f, w1) \<Rightarrow> atomicWrite h path (marshal_indent (envelope_json f) @ newline) w1)))"

definition upsert_app :: "'d host \<Rightarrow> string \<Rightarrow> string \<Rightarrow> AppEntry \<Rightarrow> 'd world \<Rightarrow> error option \<times> 'd world" where
  "upsert_app h path name entry w =
     (case store_load h path w of
        Inl e \<Rightarrow> (Some e, w)
      | Inr reg \<Rightarrow> store_save h path (reg\<lparr>Apps := fmupd name entry (Apps reg)\<rparr>) w)"

definition delete_app :: "'d host \<Rightarrow> string \<Rightarrow> string \<Rightarrow> 'd world \<Rightarrow> error option \<times> 'd world" where
  "delete_app h path name w =
     (case store_load h path w of
        Inl e \<Rightarrow> (Some e, w)
      | Inr reg \<Rightarrow>
          (if fmlookup (Apps reg) name = None then (None, w)
           else store_save h path (reg\<lparr>Apps := fmdrop name (Apps reg)\<rparr>) w))"

text \<open>\<open>DefaultPath(root)\<close>.\<close>

definition default_path :: "'d host \<Rightarrow> string \<Rightarrow> 'd world \<Rightarrow> string" where
  "default_path h root w =
     (let p = trim_space (getenv h ''INFRA_SHELF_REGISTRY_PATH'') in
      if p \<noteq> [] then (case path_abs h p of Inr a \<Rightarrow> a | Inl _ \<Rightarrow> p)
      else
        (let r1 = (if root = [] then trim_space (getenv h ''INFRA_SHELF_ROOT'') else root);
             r2 = (if r1 = [] then (case getwd h of Inr d \<Rightarrow> d | Inl _ \<Rightarrow> []) else r1);
             legacy = path_join [r2, ''packages'', ''cli'', ''src'', ''apps.json''] in
         case stat h w legacy of Inr _ \<Rightarrow> legacy | Inl _ \<Rightarrow> path_join [r2, ''data'', ''apps.json'']))"

section \<open>What a write changes\<close>

text \<open>
  A registry path: absolute, clean, below the root, and not itself a \<open>.env\<close> file (the secret is
  looked up in those).
\<close>

definition registry_path :: "string \<Rightarrow> bool" where
  "registry_path p =
     (is_abs p \<and> clean p = p \<and> p \<noteq> rooted_path [] \<and> path_base p \<noteq> ''.env'')"

definition reads_ok :: "'d host \<Rightarrow> bool" where
  "reads_ok h = (\<forall>t p. fault h t OpRead p = None)"

lemma registry_path_obtain:
  assumes "registry_path p"
  obtains ds f where "p = rooted_path (ds @ [f])" "list_all plain (ds @ [f])" "f \<noteq> ''.env''"
proof -
  obtain cs where cs: "list_all plain cs" "clean p = rooted_path cs"
    using assms clean_abs_obtain [of p] unfolding registry_path_def by metis
  then have p: "p = rooted_path cs" "cs \<noteq> []"
    using assms by (auto simp: registry_path_def)
  then obtain ds f where "cs = ds @ [f]" by (metis rev_exhaust)
  with p cs assms that show ?thesis
    by (auto simp: registry_path_def path_base_rooted)
qed

definition file_content :: "'d world \<Rightarrow> string \<Rightarrow> string option" where
  "file_content w q = (case lookup_file w q of Some (File c _) \<Rightarrow> Some c | _ \<Rightarrow> None)"

lemma read_file_ok:
  "reads_ok h \<Longrightarrow> read_file h w p =
     (case lookup_file w p of
        None \<Rightarrow> Inl (not_exist ''open'' p)
      | Some Dir \<Rightarrow> Inl (errorf (''read '' @ p @ '': is a directory''))
      | Some (File c _) \<Rightarrow> Inr c)"
  by (simp add: read_file_def fails_def reads_ok_def)

lemma dotenv_at_content:
  "reads_ok h \<Longrightarrow> dotenv_at h w d = map_option parse_dotenv (file_content w (path_join [d, ''.env'']))"
  by (simp add: dotenv_at_def read_file_ok file_content_def split: option.split fnode.split)

lemma path_prefixes_plain:
  "list_all plain cs \<Longrightarrow> ps \<in> set (path_prefixes cs) \<Longrightarrow> list_all plain ps \<and> length ps \<le> length cs"
  by (induction cs arbitrary: ps) auto

lemma plain_env [simp]: "plain ''.env''"
  by (simp add: plain_def slash_def)

lemma first_some_cong:
  "(\<And>x. x \<in> set xs \<Longrightarrow> f x = g x) \<Longrightarrow> first_some f xs = first_some g xs"
  by (induction xs) (auto split: option.split)

text \<open>The secret depends on the \<open>.env\<close> files only.\<close>

definition same_env :: "'d world \<Rightarrow> 'd world \<Rightarrow> bool" where
  "same_env w w' =
     (\<forall>cs. list_all plain cs \<longrightarrow>
        file_content w' (rooted_path (cs @ [''.env''])) = file_content w (rooted_path (cs @ [''.env''])))"

lemma registry_secret_same:
  assumes "reads_ok h" "same_env w w'" "list_all plain ds"
  shows "registry_secret h w' (rooted_path ds) = registry_secret h w (rooted_path ds)"
proof -
  have "dotenv_at h w' d = dotenv_at h w d" if "d \<in> set (ancestors ds)" for d
  proof -
    from that obtain cs where cs: "d = rooted_path cs" "list_all plain cs"
      using path_prefixes_plain [OF assms(3)] by (auto simp: ancestors_def)
    then show ?thesis
      using assms(1,2) path_join_rooted [of cs "[''.env'']"]
      by (simp add: dotenv_at_content same_env_def)
  qed
  then have "first_some (dotenv_at h w') (ancestors ds) = first_some (dotenv_at h w) (ancestors ds)"
    by (rule first_some_cong)
  then have "load_dotenv h w' (rooted_path ds) = load_dotenv h w (rooted_path ds)"
    by (simp only: load_dotenv_nearest [OF assms(3)])
  then show ?thesis by (simp add: registry_secret_def split: option.split)
qed

section \<open>The atomic write\<close>

lemma dir_chain_rooted: "list_all plain ds \<Longrightarrow> dir_chain (rooted_path ds) = map rooted_path (path_prefixes ds)"
proof -
  have "render True = rooted_path" by (rule ext) (simp add: render_def rooted_path_def)
  then show "list_all plain ds \<Longrightarrow> ?thesis" by (simp add: dir_chain_def clean_stack_rooted)
qed

lemma remove_file_snd [simp]:
  "daemon (snd (remove_file h p w)) = daemon w" "calls (snd (remove_file h p w)) = calls w"
  "report (snd (remove_file h p w)) = report w"
  using remove_file_frame [of h p w] by (metis surjective_pairing)+

lemma join_extend: "join sep (xs @ [a @ b]) = join sep (xs @ [a]) @ b"
  by (cases "xs = []") (simp_all add: join_append)

lemma mkdir_all_content:
  "mkdir_all h p w = (r, w') \<Longrightarrow> file_content w' q = file_content w q"
  by (fastforce simp: mkdir_all_def file_content_def lookup_file_def fmlookup_fold_dirs list_all_iff
      split: option.splits if_splits fnode.splits)

lemma mkdir_all_other:
  "mkdir_all h p w = (r, w') \<Longrightarrow> clean q \<notin> set (dir_chain p) \<Longrightarrow> lookup_file w' q = lookup_file w q"
  by (auto simp: mkdir_all_def lookup_file_def fmlookup_fold_dirs split: option.splits if_splits)

lemma registry_path_not_dir:
  assumes "registry_path p"
  shows "clean p \<notin> set (dir_chain (path_dir p))"
proof -
  obtain ds f where p: "p = rooted_path (ds @ [f])" "list_all plain (ds @ [f])"
    using assms by (rule registry_path_obtain)
  have "rooted_path (ds @ [f]) \<noteq> rooted_path ps" if "ps \<in> set (path_prefixes ds)" for ps
    using path_prefixes_plain [OF _ that] p(2) by (subst rooted_path_inj) auto
  then show ?thesis
    using p by (auto simp: path_dir_rooted dir_chain_rooted)
qed

lemma registry_path_tmp:
  assumes "registry_path p"
  shows "clean (p @ ''.tmp'') \<noteq> clean p"
proof -
  have "p \<noteq> []" using assms by (auto simp: registry_path_def is_abs_def)
  then show ?thesis by (intro clean_suffix_neq) (auto simp: slash_def)
qed

lemma atomicWrite_ok:
  assumes "atomicWrite h path payload w = (None, w')"
  shows "file_content w' path = Some payload"
  using assms
  by (auto simp: atomicWrite_def file_content_def split: prod.splits option.splits
      dest!: rename_file_ok write_file_ok)

text \<open>A write that fails leaves the target as it was.\<close>

lemma atomicWrite_fail:
  assumes "atomicWrite h path payload w = (Some e, w')" "registry_path path"
  shows "lookup_file w' path = lookup_file w path"
proof -
  note neq = registry_path_tmp [OF assms(2), symmetric]
  obtain r1 w1 where 1: "mkdir_all h (path_dir path) w = (r1, w1)" by fastforce
  then have l1: "lookup_file w1 path = lookup_file w path"
    using registry_path_not_dir [OF assms(2)] by (rule mkdir_all_other)
  obtain r2 w2 where 2: "write_file h (path @ ''.tmp'') payload w1 = (r2, w2)" by fastforce
  then have l2: "lookup_file w2 path = lookup_file w1 path"
    using neq by (rule write_file_other)
  obtain r3 w3 where 3: "rename_file h (path @ ''.tmp'') path w2 = (r3, w3)" by fastforce
  obtain r4 w4 where 4: "remove_file h (path @ ''.tmp'') w3 = (r4, w4)" by fastforce
  then have l4: "lookup_file w4 path = lookup_file w3 path"
    using neq by (rule remove_file_other)
  show ?thesis
    using assms(1) 1 2 3 4 l1 l2 l4 rename_file_fail [of h "path @ ''.tmp''" path w2]
    by (auto simp: atomicWrite_def split: option.splits)
qed

text \<open>No other file than the target and its sibling is touched.\<close>

lemma atomicWrite_other:
  assumes "atomicWrite h path payload w = (r, w')" "clean q \<noteq> clean path" "clean q \<noteq> clean (path @ ''.tmp'')"
  shows "file_content w' q = file_content w q"
proof -
  obtain r1 w1 where 1: "mkdir_all h (path_dir path) w = (r1, w1)" by fastforce
  obtain r2 w2 where 2: "write_file h (path @ ''.tmp'') payload w1 = (r2, w2)" by fastforce
  obtain r3 w3 where 3: "rename_file h (path @ ''.tmp'') path w2 = (r3, w3)" by fastforce
  obtain r4 w4 where 4: "remove_file h (path @ ''.tmp'') w3 = (r4, w4)" by fastforce
  have "file_content w1 q = file_content w q" using 1 by (rule mkdir_all_content)
  moreover have "file_content w2 q = file_content w1 q"
    using write_file_other [OF 2 assms(3)] by (simp add: file_content_def)
  moreover have "file_content w3 q = file_content w2 q"
    using rename_file_other [OF 3 assms(3,2)] by (simp add: file_content_def)
  moreover have "file_content w4 q = file_content w3 q"
    using remove_file_other [OF 4 assms(3)] by (simp add: file_content_def)
  ultimately show ?thesis
    using assms(1) 1 2 3 4 by (auto simp: atomicWrite_def split: option.splits)
qed

lemma atomicWrite_frame [world_simps]:
  "atomicWrite h path payload w = (r, w') \<Longrightarrow>
     daemon w' = daemon w \<and> calls w' = calls w \<and> report w' = report w"
  by (auto simp: atomicWrite_def split: prod.splits option.splits dest!: mkdir_all_frame write_file_frame
      rename_file_frame remove_file_frame dest: sym)

lemma atomicWrite_same_env:
  assumes "atomicWrite h path payload w = (r, w')" "registry_path path"
  shows "same_env w w'"
proof -
  obtain ds f where p: "path = rooted_path (ds @ [f])" "list_all plain (ds @ [f])" "f \<noteq> ''.env''"
    using assms(2) by (rule registry_path_obtain)
  have "path @ ''.tmp'' = rooted_path (ds @ [f @ ''.tmp''])" "plain (f @ ''.tmp'')"
    using p(1,2) by (auto simp: rooted_path_def join_extend plain_def slash_def)
  then have t: "clean (path @ ''.tmp'') = rooted_path (ds @ [f @ ''.tmp''])" "plain (f @ ''.tmp'')"
    using p(2) by auto
  show ?thesis
    unfolding same_env_def
  proof (intro allI impI)
    fix cs assume cs: "list_all plain cs"
    then have "clean (rooted_path (cs @ [''.env''])) \<noteq> clean path"
      "clean (rooted_path (cs @ [''.env''])) \<noteq> clean (path @ ''.tmp'')"
      using p t by (auto simp: rooted_path_inj)
    then show "file_content w' (rooted_path (cs @ [''.env''])) = file_content w (rooted_path (cs @ [''.env'']))"
      by (rule atomicWrite_other [OF assms(1)])
  qed
qed

section \<open>Save and load\<close>

lemma std_alphabet_ascii: "list_all (byte_in 0 127) std_alphabet"
  by (simp add: std_alphabet_def sextet_chars_def byte_in_def)

lemma ascii_std_encode [simp]: "ascii (std_encode s)"
proof -
  have "\<forall>i \<in> set (sextets (map of_char s)). i < 64" by (rule sextets_bound) auto
  then have "\<forall>i \<in> set (sextets (map of_char s)). byte_in 0 127 (std_alphabet ! i)"
    using std_alphabet_ascii by (simp add: list_all_length)
  then show ?thesis
    by (auto simp: ascii_def std_encode_def encode_sextets_def list_all_iff byte_in_def)
qed

lemma newline_space [simp]: "list_all json_space newline"
  by (simp add: newline_def json_space_def)

lemma storable_saved_version: "storable r \<Longrightarrow> storable (saved_version r)"
  by (auto simp: storable_def saved_version_def int64_def)

lemma Apps_saved_version [simp]: "Apps (saved_version r) = Apps r"
  by (simp add: saved_version_def)

lemma unmarshal_envelope_print:
  assumes "ascii (encAlgorithm f)" "ascii (encKDF f)" "ascii (encNonce f)" "ascii (encCiphertext f)"
    "int64 (encVersion f)"
  shows "unmarshal_envelope (marshal_indent (envelope_json f) @ newline) = Some f"
proof -
  have "plain_json (envelope_json f)"
    using assms plain_dec_int [of "encVersion f"] by (simp add: envelope_json_def byte_in_def)
  then have "parse_json (marshal_indent (envelope_json f) @ newline) = Some (envelope_json f)"
    unfolding marshal_indent_def by (rule parse_json_print) simp
  then show ?thesis using assms(5) by (simp add: unmarshal_envelope_def unmarshal_def read_envelope)
qed

lemma decode_registry_print:
  assumes "storable r"
  shows "decode_registry (marshal_indent (registry_json r) @ newline) = Inr r"
    and "decode_registry (marshal (registry_json r)) = Inr r"
  using unmarshal_registry_print [OF assms newline_space, of True]
    unmarshal_registry_print [OF assms, of "[]" False]
  by (simp_all add: decode_registry_def marshal_def marshal_indent_def)

lemma marshal_registry_nonempty: "0 < length (marshal (registry_json r))"
  by (simp add: marshal_def registry_json_def)

lemma encryptRegistry_sel:
  assumes "encryptRegistry h reg secret w = (f, w')"
  shows "encEncrypted f" "unmarshal_envelope (marshal_indent (envelope_json f) @ newline) = Some f"
    "w' = w\<lparr>tick := Suc (tick w)\<rparr>"
  using assms
  by (auto simp: encryptRegistry_def rand_bytes_def int64_def byte_in_def intro!: unmarshal_envelope_print)

lemma decrypt_encrypt:
  assumes "encryptRegistry h reg secret w = (f, w1)" "registry_secret h w' (path_dir path) = Inr secret"
  shows "decryptRegistryContent h w' f path = Inr (marshal (registry_json reg))"
  using assms marshal_registry_nonempty [of reg]
  by (auto simp: encryptRegistry_def rand_bytes_def decryptRegistryContent_def std_decode_encode gcm_open_seal)

lemma store_load_content:
  "reads_ok h \<Longrightarrow> file_content w path = Some c \<Longrightarrow> store_load h path w =
     (case unmarshal_envelope c of
        Some f \<Rightarrow>
          (if encEncrypted f
           then (case decryptRegistryContent h w f path of
               Inl e \<Rightarrow> Inl e
             | Inr decrypted \<Rightarrow> decode_registry decrypted)
           else decode_registry c)
      | None \<Rightarrow> decode_registry c)"
  by (auto simp: store_load_def read_file_ok file_content_def split: option.splits fnode.splits)

lemma path_dir_registry:
  assumes "registry_path path"
  obtains ds where "path_dir path = rooted_path ds" "list_all plain ds"
  using assms by (auto elim!: registry_path_obtain simp: path_dir_rooted)

lemma atomicWrite_secret:
  assumes "reads_ok h" "registry_path path" "atomicWrite h path payload w = (r, w')"
  shows "registry_secret h w' (path_dir path) = registry_secret h w (path_dir path)"
proof -
  obtain ds where ds: "path_dir path = rooted_path ds" "list_all plain ds"
    using assms(2) by (rule path_dir_registry)
  show ?thesis
    unfolding ds(1)
    using assms(1) atomicWrite_same_env [OF assms(3,2)] ds(2) by (rule registry_secret_same)
qed

lemma tick_secret:
  assumes "reads_ok h" "registry_path path"
  shows "registry_secret h (w\<lparr>tick := t\<rparr>) (path_dir path) = registry_secret h w (path_dir path)"
proof -
  obtain ds where ds: "path_dir path = rooted_path ds" "list_all plain ds"
    using assms(2) by (rule path_dir_registry)
  have "same_env w (w\<lparr>tick := t\<rparr>)" by (simp add: same_env_def file_content_def)
  then show ?thesis unfolding ds(1) using assms(1) ds(2) by (intro registry_secret_same)
qed

lemma envelope_write_load:
  assumes "registry_path path" "reads_ok h" "storable reg"
    "registry_secret h w (path_dir path) = Inr secret" "encryptRegistry h reg secret w = (f, w1)"
    "atomicWrite h path (marshal_indent (envelope_json f) @ newline) w1 = (None, w')"
  shows "store_load h path w' = Inr reg"
proof -
  note e = encryptRegistry_sel [OF assms(5)]
  have "registry_secret h w' (path_dir path) = Inr secret"
    using atomicWrite_secret [OF assms(2,1,6)] tick_secret [OF assms(2,1)] assms(4) e(3) by simp
  then show ?thesis
    using store_load_content [OF assms(2) atomicWrite_ok [OF assms(6)]] e(1,2)
      decrypt_encrypt [OF assms(5)] decode_registry_print(2) [OF assms(3)]
    by simp
qed

lemma plain_content_load:
  assumes "reads_ok h" "storable reg" "file_content w path = Some (marshal_indent (registry_json reg) @ newline)"
  shows "store_load h path w = Inr reg"
  using store_load_content [OF assms(1,3)] unmarshal_envelope_registry [of reg newline True]
    decode_registry_print(1) [OF assms(2)] assms(2)
  by (simp add: marshal_indent_def split: option.splits)

lemma store_save_load:
  assumes "registry_path path" "reads_ok h" "storable reg" "store_save h path reg w = (None, w')"
  shows "store_load h path w' = Inr (saved_version reg)"
proof (cases "registry_secret h w (path_dir path)")
  case (Inl e)
  then have w': "atomicWrite h path (marshal_indent (registry_json (saved_version reg)) @ newline) w = (None, w')"
    using assms(4) by (simp add: store_save_def)
  show ?thesis
    by (rule plain_content_load [OF assms(2) storable_saved_version [OF assms(3)] atomicWrite_ok [OF w']])
next
  case (Inr secret)
  obtain f w1 where f: "encryptRegistry h (saved_version reg) secret w = (f, w1)" by fastforce
  show ?thesis
    using assms Inr f
    by (intro envelope_write_load [OF _ _ storable_saved_version _ f]) (auto simp: store_save_def)
qed

lemma encrypt_in_place_load:
  assumes "registry_path path" "reads_ok h" "store_load h path w = Inr reg" "storable reg"
    "encrypt_in_place h path w = (None, w')"
  shows "store_load h path w' = Inr reg"
  using assms
  by (auto simp: encrypt_in_place_def split: sum.splits prod.splits
      intro: envelope_write_load [OF assms(1,2,4)])

lemma load_unchanged:
  assumes "reads_ok h" "lookup_file w' path = lookup_file w path"
    "registry_secret h w' (path_dir path) = registry_secret h w (path_dir path)"
  shows "store_load h path w' = store_load h path w"
proof -
  have "decryptRegistryContent h w' f path = decryptRegistryContent h w f path" for f
    by (simp add: decryptRegistryContent_def assms(3))
  then show ?thesis
    unfolding store_load_def read_file_ok [OF assms(1)] assms(2) by (simp split: option.split sum.split)
qed

lemma store_save_fail:
  assumes "registry_path path" "reads_ok h" "store_save h path reg w = (Some e, w')"
  shows "store_load h path w' = store_load h path w"
proof -
  obtain payload w1 where w1: "atomicWrite h path payload w1 = (Some e, w')"
    "w1 = w \<or> w1 = w\<lparr>tick := Suc (tick w)\<rparr>"
    using assms(3)
    by (auto simp: store_save_def Let_def dest: encryptRegistry_sel(3) split: sum.splits prod.splits)
  show ?thesis
    using atomicWrite_fail [OF w1(1) assms(1)] atomicWrite_secret [OF assms(2,1) w1(1)]
      tick_secret [OF assms(2,1)] w1(2)
    by (intro load_unchanged [OF assms(2)]) auto
qed

lemma store_save_frame [world_simps]:
  "store_save h path reg w = (r, w') \<Longrightarrow>
     daemon w' = daemon w \<and> calls w' = calls w \<and> report w' = report w"
  by (auto simp: store_save_def Let_def split: sum.splits prod.splits dest!: atomicWrite_frame
      dest: encryptRegistry_sel(3))

section \<open>On a healthy disk a save succeeds\<close>

definition no_faults :: "'d host \<Rightarrow> bool" where
  "no_faults h = (\<forall>t oper p. fault h t oper p = None)"

text \<open>The directories above the path can be made, and neither it nor its sibling is one.\<close>

definition disk_ready :: "string \<Rightarrow> 'd world \<Rightarrow> bool" where
  "disk_ready path w =
     (list_all (\<lambda>d. fmlookup (files w) d \<in> {None, Some Dir}) (dir_chain (path_dir path))
      \<and> lookup_file w (path @ ''.tmp'') \<noteq> Some Dir \<and> lookup_file w path \<noteq> Some Dir)"

lemma no_faults_reads: "no_faults h \<Longrightarrow> reads_ok h"
  by (simp add: no_faults_def reads_ok_def)

lemma registry_tmp_not_dir:
  assumes "registry_path p"
  shows "clean (p @ ''.tmp'') \<notin> set (dir_chain (path_dir p))"
proof -
  obtain ds f where p: "p = rooted_path (ds @ [f])" "list_all plain (ds @ [f])"
    using assms by (rule registry_path_obtain)
  have t: "p @ ''.tmp'' = rooted_path (ds @ [f @ ''.tmp''])" "list_all plain (ds @ [f @ ''.tmp''])"
    using p by (auto simp: rooted_path_def join_extend plain_def slash_def)
  have "rooted_path (ds @ [f @ ''.tmp'']) \<noteq> rooted_path ps" if "ps \<in> set (path_prefixes ds)" for ps
    using path_prefixes_plain [OF _ that] t(2) by (subst rooted_path_inj) auto
  then show ?thesis
    using p t by (auto simp: path_dir_rooted dir_chain_rooted)
qed

lemma atomicWrite_ready:
  assumes "no_faults h" "registry_path path" "disk_ready path w"
  shows "\<exists>w'. atomicWrite h path payload w = (None, w') \<and> disk_ready path w'"
proof -
  let ?chain = "dir_chain (path_dir path)" and ?tmp = "path @ ''.tmp''"
  note f = assms(1) [unfolded no_faults_def]
  note nd = registry_path_not_dir [OF assms(2)] registry_tmp_not_dir [OF assms(2)] registry_path_tmp [OF assms(2)]
  define w1 where "w1 = w\<lparr>files := fold (\<lambda>d m. fmupd d Dir m) ?chain (files w), tick := Suc (tick w)\<rparr>"
  have 1: "mkdir_all h (path_dir path) w = (None, w1)"
    using assms(3) f by (simp add: mkdir_all_def fails_def w1_def disk_ready_def)
  have l1: "lookup_file w1 ?tmp = lookup_file w ?tmp" "lookup_file w1 path = lookup_file w path"
    using nd by (simp_all add: w1_def lookup_file_def fmlookup_fold_dirs)
  define w2 where "w2 = put_file ?tmp (File payload (time_now h w1)) w1"
  have 2: "write_file h ?tmp payload w1 = (None, w2)"
    using assms(3) f l1 by (auto simp: write_file_def w2_def disk_ready_def split: option.split fnode.split)
  define w3 where "w3 = put_file path (File payload (time_now h w1)) (drop_file ?tmp w2)"
  have 3: "rename_file h ?tmp path w2 = (None, w3)"
    using assms(3) f l1 nd
    by (auto simp: rename_file_def fails_def w2_def w3_def lookup_put_file disk_ready_def
        split: option.split fnode.split)
  have "fmlookup (files w3) d \<in> {None, Some Dir}" if "d \<in> set ?chain" for d
    using that nd assms(3) by (auto simp: w3_def w2_def w1_def fmlookup_fold_dirs)
  moreover have "lookup_file w3 ?tmp \<noteq> Some Dir" "lookup_file w3 path \<noteq> Some Dir"
    using nd by (simp_all add: w3_def lookup_put_file lookup_drop_file)
  ultimately show ?thesis
    using 1 2 3 by (simp add: atomicWrite_def disk_ready_def list_all_iff)
qed

lemma disk_ready_files: "files w' = files w \<Longrightarrow> disk_ready path w' = disk_ready path w"
  by (simp add: disk_ready_def lookup_file_def)

lemma store_save_ready:
  assumes "no_faults h" "registry_path path" "disk_ready path w"
  shows "\<exists>w'. store_save h path reg w = (None, w') \<and> disk_ready path w'"
proof -
  have "disk_ready path (w\<lparr>tick := t\<rparr>)" for t using assms(3) by (simp add: disk_ready_def lookup_file_def)
  then show ?thesis
    using atomicWrite_ready [OF assms(1,2)] assms(3)
    by (auto simp: store_save_def Let_def encryptRegistry_def rand_bytes_def split: sum.split)
qed

section \<open>The contract the engine relies on\<close>

text \<open>
  \<open>GetApp\<close>, \<open>UpsertApp\<close> and \<open>DeleteApp\<close> as a map from names to entries.  \<open>good\<close> is what the
  laws need of a state, \<open>fits\<close> what they need of an entry.
\<close>

locale registry_store =
  fixes get :: "string \<Rightarrow> 'w \<Rightarrow> App option result"
    and upsert :: "string \<Rightarrow> AppEntry \<Rightarrow> 'w \<Rightarrow> error option \<times> 'w"
    and delete :: "string \<Rightarrow> 'w \<Rightarrow> error option \<times> 'w"
    and good :: "'w \<Rightarrow> bool"
    and fits :: "string \<Rightarrow> AppEntry \<Rightarrow> bool"
  assumes get_good: "good w \<Longrightarrow> \<exists>a. get n w = Inr a"
    and upsert_good: "good w \<Longrightarrow> fits n e \<Longrightarrow> upsert n e w = (r, w') \<Longrightarrow> good w'"
    and upsert_ok: "good w \<Longrightarrow> fits n e \<Longrightarrow> upsert n e w = (None, w') \<Longrightarrow>
      get m w' = (if m = n then Inr (Some \<lparr>AppName = n, AppCreatedAt = CreatedAt e, Entry = e\<rparr>) else get m w)"
    and upsert_fail: "good w \<Longrightarrow> upsert n e w = (Some err, w') \<Longrightarrow> get m w' = get m w"
    and delete_good: "good w \<Longrightarrow> delete n w = (r, w') \<Longrightarrow> good w'"
    and delete_ok: "good w \<Longrightarrow> delete n w = (None, w') \<Longrightarrow>
      get m w' = (if m = n then Inr None else get m w)"
    and delete_fail: "good w \<Longrightarrow> delete n w = (Some err, w') \<Longrightarrow> get m w' = get m w"
begin

lemma upsert_twice:
  assumes "good w" "fits n e1" "fits n e2" "upsert n e1 w = (None, w1)" "upsert n e2 w1 = (None, w2)"
    "upsert n e2 w = (None, w3)"
  shows "get m w2 = get m w3"
  using upsert_ok [OF assms(1,2,4)] upsert_ok [OF upsert_good [OF assms(1,2,4)] assms(3,5)]
    upsert_ok [OF assms(1,3,6)] by simp

lemma upsert_commute:
  assumes "good w" "fits n e" "fits n' e'" "n \<noteq> n'"
    "upsert n e w = (None, w1)" "upsert n' e' w1 = (None, w2)"
    "upsert n' e' w = (None, w3)" "upsert n e w3 = (None, w4)"
  shows "get m w2 = get m w4"
  using assms(4) upsert_ok [OF assms(1,2,5)] upsert_ok [OF upsert_good [OF assms(1,2,5)] assms(3,6)]
    upsert_ok [OF assms(1,3,7)] upsert_ok [OF upsert_good [OF assms(1,3,7)] assms(2,8)] by simp

text \<open>Adding an app that was not there and deleting it again is invisible.\<close>

lemma upsert_delete:
  assumes "good w" "fits n e" "get n w = Inr None" "upsert n e w = (None, w1)" "delete n w1 = (None, w2)"
  shows "get m w2 = get m w"
  using assms(3) upsert_ok [OF assms(1,2,4)] delete_ok [OF upsert_good [OF assms(1,2,4)] assms(5)] by simp

lemma delete_upsert:
  assumes "good w" "fits n e" "delete n w = (None, w1)" "upsert n e w1 = (None, w2)"
    "upsert n e w = (None, w3)"
  shows "get m w2 = get m w3"
  using upsert_ok [OF assms(1,2,5)] delete_ok [OF assms(1,3)]
    upsert_ok [OF delete_good [OF assms(1,3)] assms(2,4)] by simp

lemma other_apps_kept:
  assumes "good w" "fits n e" "upsert n e w = (r, w')" "m \<noteq> n"
  shows "get m w' = get m w"
  using assms upsert_ok upsert_fail by (cases r) auto

lemma other_apps_kept_delete:
  assumes "good w" "delete n w = (r, w')" "m \<noteq> n"
  shows "get m w' = get m w"
  using assms delete_ok delete_fail by (cases r) auto

end

section \<open>The file store meets the contract\<close>

definition store_good :: "'d host \<Rightarrow> string \<Rightarrow> 'd world \<Rightarrow> bool" where
  "store_good h path w =
     (registry_path path \<and> reads_ok h
      \<and> (case store_load h path w of Inl _ \<Rightarrow> False | Inr r \<Rightarrow> storable r))"

definition entry_fits :: "string \<Rightarrow> AppEntry \<Rightarrow> bool" where
  "entry_fits n e = (ascii n \<and> list_all ascii (entry_values e))"

lemma Ball_fmdom:
  "(\<forall>k \<in> fset (fmdom m). P k (the (fmlookup m k))) \<longleftrightarrow> (\<forall>k e. fmlookup m k = Some e \<longrightarrow> P k e)"
proof (intro iffI allI impI ballI)
  fix k e assume "\<forall>k \<in> fset (fmdom m). P k (the (fmlookup m k))" "fmlookup m k = Some e"
  then show "P k e" by (metis fmdomI option.sel)
next
  fix k assume "\<forall>k e. fmlookup m k = Some e \<longrightarrow> P k e" "k \<in> fset (fmdom m)"
  then show "P k (the (fmlookup m k))" by (metis fmlookup_dom_iff option.collapse)
qed

lemma storable_iff:
  "storable r \<longleftrightarrow> int64 (Version r) \<and> (\<forall>k e. fmlookup (Apps r) k = Some e \<longrightarrow> entry_fits k e)"
  using Ball_fmdom [of "Apps r" entry_fits] by (simp add: storable_def list_all_iff entry_fits_def)

lemma storable_upd:
  "storable r \<Longrightarrow> entry_fits n e \<Longrightarrow> storable (r\<lparr>Apps := fmupd n e (Apps r)\<rparr>)"
  by (simp add: storable_iff)

lemma storable_drop: "storable r \<Longrightarrow> storable (r\<lparr>Apps := fmdrop n (Apps r)\<rparr>)"
  by (simp add: storable_iff)

lemma store_goodE:
  assumes "store_good h path w"
  obtains r where "registry_path path" "reads_ok h" "store_load h path w = Inr r" "storable r"
  using assms by (auto simp: store_good_def split: sum.splits)

lemma upsert_app_cases:
  assumes "store_good h path w" "entry_fits n e" "upsert_app h path n e w = (res, w')"
  shows "case res of
      None \<Rightarrow> \<exists>r r'. store_load h path w = Inr r \<and> store_load h path w' = Inr r' \<and> storable r'
                \<and> Apps r' = fmupd n e (Apps r)
    | Some _ \<Rightarrow> store_load h path w' = store_load h path w"
proof -
  obtain r where r: "registry_path path" "reads_ok h" "store_load h path w = Inr r" "storable r"
    using assms(1) by (rule store_goodE)
  let ?r = "r\<lparr>Apps := fmupd n e (Apps r)\<rparr>"
  have s: "store_save h path ?r w = (res, w')" using assms(3) r(3) by (simp add: upsert_app_def)
  have st: "storable ?r" by (rule storable_upd [OF r(4) assms(2)])
  show ?thesis
    using store_save_load [OF r(1,2) st] store_save_fail [OF r(1,2)] s r(3) storable_saved_version [OF st]
    by (cases res) auto
qed

lemma delete_app_cases:
  assumes "store_good h path w" "delete_app h path n w = (res, w')"
  shows "case res of
      None \<Rightarrow> \<exists>r r'. store_load h path w = Inr r \<and> store_load h path w' = Inr r' \<and> storable r'
                \<and> Apps r' = fmdrop n (Apps r)
    | Some _ \<Rightarrow> store_load h path w' = store_load h path w"
proof -
  obtain r where r: "registry_path path" "reads_ok h" "store_load h path w = Inr r" "storable r"
    using assms(1) by (rule store_goodE)
  let ?r = "r\<lparr>Apps := fmdrop n (Apps r)\<rparr>"
  have st: "storable ?r" by (rule storable_drop [OF r(4)])
  show ?thesis
  proof (cases "fmlookup (Apps r) n")
    case None
    then have "fmdrop n (Apps r) = Apps r" by (intro fmap_ext) auto
    with None assms(2) r show ?thesis by (auto simp: delete_app_def)
  next
    case (Some e)
    with assms(2) r(3) have s: "store_save h path ?r w = (res, w')" by (simp add: delete_app_def)
    show ?thesis
      using store_save_load [OF r(1,2) st] store_save_fail [OF r(1,2)] s r(3) storable_saved_version [OF st]
      by (cases res) auto
  qed
qed

interpretation reg: registry_store "get_app h path" "upsert_app h path" "delete_app h path"
    "store_good h path" entry_fits
  for h path
proof unfold_locales
  show "\<exists>a. get_app h path n w = Inr a" if "store_good h path w" for w n
    using that by (auto simp: get_app_def elim!: store_goodE)
next
  fix w n e r w' assume a: "store_good h path w" "entry_fits n e" "upsert_app h path n e w = (r, w')"
  show "store_good h path w'"
    using upsert_app_cases [OF a] a(1) by (cases r) (auto simp: store_good_def)
next
  fix w n e w' m assume a: "store_good h path w" "entry_fits n e" "upsert_app h path n e w = (None, w')"
  show "get_app h path m w' = (if m = n
      then Inr (Some \<lparr>AppName = n, AppCreatedAt = CreatedAt e, Entry = e\<rparr>) else get_app h path m w)"
    using upsert_app_cases [OF a] by (auto simp: get_app_def find_app_def)
next
  fix w n e err w' m assume a: "store_good h path w" "upsert_app h path n e w = (Some err, w')"
  show "get_app h path m w' = get_app h path m w"
    using a by (auto simp: upsert_app_def get_app_def dest: store_save_fail elim!: store_goodE)
next
  fix w n r w' assume a: "store_good h path w" "delete_app h path n w = (r, w')"
  show "store_good h path w'"
    using delete_app_cases [OF a] a(1) by (cases r) (auto simp: store_good_def)
next
  fix w n w' m assume a: "store_good h path w" "delete_app h path n w = (None, w')"
  show "get_app h path m w' = (if m = n then Inr None else get_app h path m w)"
    using delete_app_cases [OF a] by (auto simp: get_app_def find_app_def)
next
  fix w n err w' m assume a: "store_good h path w" "delete_app h path n w = (Some err, w')"
  show "get_app h path m w' = get_app h path m w"
    using delete_app_cases [OF a] by (auto simp: get_app_def)
qed

end
