(* ===== verification/Demo.thy ===== *)
theory Demo
  imports World
begin

text \<open>
  A host and a world on which the properties are evaluated: an empty file system, no
  environment variables, no failing file operation, a clock at the epoch, and containers that
  are running and accept every command.
\<close>

definition demo_result :: "string \<Rightarrow> cmd_result" where
  "demo_result out = \<lparr>status = ExitOk, stdout = out, stderr = []\<rparr>"

definition demo_docker :: "unit \<Rightarrow> string list \<Rightarrow> string option \<Rightarrow> cmd_result \<times> unit" where
  "demo_docker d args input = (demo_result (if hd args = ''inspect'' then ''true'' else []), d)"

definition demo_host :: "unit host" where
  "demo_host =
     \<lparr>getenv = (\<lambda>_. []), getwd = Inr ''/srv'', clock = (\<lambda>_. 0), entropy = (\<lambda>_ _. CHR ''a''),
      fault = (\<lambda>_ _ _. None), json_float = Some, show_float = (\<lambda>s. s), docker_run = demo_docker\<rparr>"

definition demo_world :: "unit world" where
  "demo_world = \<lparr>files = fmempty, daemon = (), calls = [], report = [], tick = 0\<rparr>"

lemma demo_fault [simp]: "fault demo_host t p x = None"
  by (simp add: demo_host_def)

lemma demo_getenv [simp]: "getenv demo_host k = []"
  by (simp add: demo_host_def)

lemma demo_clock [simp]: "clock demo_host t = 0"
  by (simp add: demo_host_def)

end
