(* ===== verification/BackupFiles.thy ===== *)
theory BackupFiles
  imports RegistryStore Demo
begin

text \<open>
  \<open>internal/backup\<close>: the backup files under the backups directory, one directory per app and one
  file per service and run.  \<open>List\<close> scans them, \<open>Resolve\<close> turns the names of a request into a path,
  \<open>Prune\<close> applies a retention rule.

  A directory's own size and time are not modelled: \<open>Delete\<close> reports them as zero.  \<open>sort.Slice\<close>
  leaves equal elements in any order; here the sort is stable, which is what Go's insertion sort
  does on up to twelve elements.  \<open>Prune\<close> visits its groups in the order of a Go map, which is
  an argument of the definition.
\<close>

section \<open>Listing\<close>

record BFile =
  bfApp :: string
  bfService :: string
  bfName :: string
  bfPath :: string
  bfSize :: int
  bfModified :: int

record PruneOptions =
  prAppName :: string
  prAll :: bool
  prServices :: "string list"
  prKeepDays :: int
  prKeepCount :: int

definition DetectService :: "string \<Rightarrow> string" where
  "DetectService name =
     (if has_prefix name ''postgres_'' \<and> has_suffix name ''.sql'' then ''postgres''
      else if has_prefix name ''redis_'' \<and> has_suffix name ''.json'' then ''redis''
      else if has_prefix name ''rabbitmq_'' \<and> has_suffix name ''.json'' then ''rabbitmq''
      else if has_prefix name ''aistor_'' \<and> has_suffix name ''.tar'' then ''aistor''
      else if has_prefix name ''mongodb_'' \<and> has_suffix name ''.archive'' then ''mongodb''
      else [])"

definition node_size :: "fnode \<Rightarrow> int" where
  "node_size n = (case n of Dir \<Rightarrow> 0 | File c _ \<Rightarrow> int (length c))"

definition node_time :: "fnode \<Rightarrow> int" where
  "node_time n = (case n of Dir \<Rightarrow> 0 | File _ t \<Rightarrow> t)"

text \<open>One entry of an app's directory: skipped when it is a directory, when no service is recognised
  in its name, or when its metadata cannot be read.\<close>

definition scan_file :: "'d host \<Rightarrow> 'd world \<Rightarrow> string \<Rightarrow> string \<Rightarrow> string \<Rightarrow> BFile option" where
  "scan_file h w appDir app name =
     (let path = path_join [appDir, name]; service = DetectService name in
      if lookup_file w path = Some Dir then None
      else if service = [] then None
      else
        (case stat h w path of
           Inl _ \<Rightarrow> None
         | Inr info \<Rightarrow>
             Some \<lparr>bfApp = app, bfService = service, bfName = name, bfPath = path,
               bfSize = node_size info, bfModified = node_time info\<rparr>))"

definition scan_app :: "'d host \<Rightarrow> 'd world \<Rightarrow> string \<Rightarrow> string \<Rightarrow> BFile list" where
  "scan_app h w dir app =
     (if lookup_file w (path_join [dir, app]) \<noteq> Some Dir \<or> \<not> name_pattern app then []
      else
        (case read_dir h w (path_join [dir, app]) of
           Inl _ \<Rightarrow> []
         | Inr names \<Rightarrow> List.map_filter (scan_file h w (path_join [dir, app]) app) names))"

definition newest_first :: "BFile list \<Rightarrow> BFile list" where
  "newest_first fs = sort_key (\<lambda>f. - bfModified f) fs"

definition ListFiles :: "'d host \<Rightarrow> string \<Rightarrow> 'd world \<Rightarrow> BFile list result" where
  "ListFiles h dir w =
     (case read_dir h w dir of
        Inl e \<Rightarrow> if err_is e = Some ErrNotExist then Inr [] else Inl e
      | Inr names \<Rightarrow> Inr (newest_first (concat (map (scan_app h w dir) names))))"

definition TakeSnapshot :: "'d host \<Rightarrow> string \<Rightarrow> 'd world \<Rightarrow> (string, BFile) fmap result" where
  "TakeSnapshot h dir w =
     map_sum id (\<lambda>fs. fold (\<lambda>f m. fmupd (bfPath f) f m) fs fmempty) (ListFiles h dir w)"

definition Diff :: "(string, BFile) fmap \<Rightarrow> BFile list \<Rightarrow> BFile list" where
  "Diff before after = filter (\<lambda>f. fmlookup before (bfPath f) = None) after"

definition ListForApp :: "'d host \<Rightarrow> string \<Rightarrow> string \<Rightarrow> 'd world \<Rightarrow> BFile list result" where
  "ListForApp h dir app w = map_sum id (filter (\<lambda>f. bfApp f = app)) (ListFiles h dir w)"

fun FilterFiles :: "BFile list \<Rightarrow> string \<Rightarrow> string \<Rightarrow> BFile list" where
  "FilterFiles [] app service = []"
| "FilterFiles (f # fs) app service =
     (if app \<noteq> [] \<and> bfApp f \<noteq> app then FilterFiles fs app service
      else if service \<noteq> [] \<and> bfService f \<noteq> service then FilterFiles fs app service
      else f # FilterFiles fs app service)"

definition AppsOf :: "BFile list \<Rightarrow> string list" where
  "AppsOf fs = sort (dedup_from {} (map bfApp fs))"

definition ServicesOf :: "BFile list \<Rightarrow> string list" where
  "ServicesOf fs = sort (dedup_from {} (map bfService fs))"

section \<open>Retention\<close>

text \<open>\<open>time.Time{}\<close>, the first instant of year 1, and a day.\<close>

definition zero_time :: int where
  "zero_time = - 62135596800000000000"

definition day_ns :: int where
  "day_ns = 86400000000000"

definition group_key :: "BFile \<Rightarrow> string" where
  "group_key f = bfApp f @ ''/'' @ bfService f"

definition selected :: "PruneOptions \<Rightarrow> BFile \<Rightarrow> bool" where
  "selected opts f =
     (\<not> (\<not> prAll opts \<and> prAppName opts \<noteq> [] \<and> bfApp f \<noteq> prAppName opts)
      \<and> \<not> (prServices opts \<noteq> [] \<and> bfService f \<notin> set (prServices opts)))"

definition cutoff_time :: "'d host \<Rightarrow> PruneOptions \<Rightarrow> 'd world \<Rightarrow> int" where
  "cutoff_time h opts w =
     (if 0 < prKeepDays opts then time_now h w - prKeepDays opts * day_ns else zero_time)"

definition expired :: "PruneOptions \<Rightarrow> int \<Rightarrow> int \<Rightarrow> BFile \<Rightarrow> bool" where
  "expired opts cutoff index f =
     (cutoff \<noteq> zero_time \<and> bfModified f < cutoff \<or> 0 < prKeepCount opts \<and> prKeepCount opts \<le> index)"

fun prune_group ::
  "'d host \<Rightarrow> PruneOptions \<Rightarrow> int \<Rightarrow> int \<Rightarrow> BFile list \<Rightarrow> BFile list \<Rightarrow> 'd world
     \<Rightarrow> (BFile list \<times> error option) \<times> 'd world" where
  "prune_group h opts cutoff index [] deleted w = ((deleted, None), w)"
| "prune_group h opts cutoff index (f # fs) deleted w =
     (if \<not> expired opts cutoff index f then prune_group h opts cutoff (index + 1) fs deleted w
      else
        (case remove_file h (bfPath f) w of
           (Some e, w1) \<Rightarrow>
             (if err_is e = Some ErrNotExist then prune_group h opts cutoff (index + 1) fs (deleted @ [f]) w1
              else ((deleted, Some e), w1))
         | (None, w1) \<Rightarrow> prune_group h opts cutoff (index + 1) fs (deleted @ [f]) w1))"

fun prune_groups ::
  "'d host \<Rightarrow> PruneOptions \<Rightarrow> int \<Rightarrow> BFile list list \<Rightarrow> BFile list \<Rightarrow> 'd world
     \<Rightarrow> (BFile list \<times> error option) \<times> 'd world" where
  "prune_groups h opts cutoff [] deleted w = ((deleted, None), w)"
| "prune_groups h opts cutoff (g # gs) deleted w =
     (case prune_group h opts cutoff 0 (newest_first g) deleted w of
        ((deleted1, Some e), w1) \<Rightarrow> ((deleted1, Some e), w1)
      | ((deleted1, None), w1) \<Rightarrow> prune_groups h opts cutoff gs deleted1 w1)"

text \<open>The groups, in the order in which the runtime visits the keys of the map.\<close>

definition groups_of :: "(string list \<Rightarrow> string list) \<Rightarrow> BFile list \<Rightarrow> BFile list list" where
  "groups_of visit fs =
     map (\<lambda>k. filter (\<lambda>f. group_key f = k) fs) (visit (remdups (map group_key fs)))"

definition Prune ::
  "'d host \<Rightarrow> (string list \<Rightarrow> string list) \<Rightarrow> string \<Rightarrow> PruneOptions \<Rightarrow> 'd world
     \<Rightarrow> (BFile list \<times> error option) \<times> 'd world" where
  "Prune h visit dir opts w =
     (if prKeepDays opts \<le> 0 \<and> prKeepCount opts \<le> 0 then (([], None), w)
      else
        (case ListFiles h dir w of
           Inl e \<Rightarrow> (([], Some e), w)
         | Inr fs \<Rightarrow>
             prune_groups h opts (cutoff_time h opts w) (groups_of visit (filter (selected opts) fs)) [] w))"

section \<open>One file\<close>

definition Resolve :: "'d host \<Rightarrow> string \<Rightarrow> string \<Rightarrow> string \<Rightarrow> 'd world \<Rightarrow> string result" where
  "Resolve h dir app name w =
     (if \<not> name_pattern app then Inl (errorf (''invalid app '' @ quote app))
      else if path_base name \<noteq> name \<or> DetectService name = []
        then Inl (errorf (''invalid backup file '' @ quote name))
      else
        (case path_abs h dir of
           Inl e \<Rightarrow> Inl e
         | Inr root \<Rightarrow>
             (case path_abs h (path_join [root, app, name]) of
                Inl e \<Rightarrow> Inl e
              | Inr path \<Rightarrow>
                  (case path_rel root path of
                     Inl e \<Rightarrow> Inl e
                   | Inr rel \<Rightarrow>
                       (if has_prefix rel ''..'' \<or> rel = ''.'' then Inl (errorf ''backup path escapes root'')
                        else (case stat h w path of Inl e \<Rightarrow> Inl e | Inr _ \<Rightarrow> Inr path))))))"

definition DeleteFile ::
  "'d host \<Rightarrow> string \<Rightarrow> string \<Rightarrow> string \<Rightarrow> 'd world \<Rightarrow> BFile result \<times> 'd world" where
  "DeleteFile h dir app name w =
     (case Resolve h dir app name w of
        Inl e \<Rightarrow> (Inl e, w)
      | Inr path \<Rightarrow>
          (case stat h w path of
             Inl e \<Rightarrow> (Inl e, w)
           | Inr info \<Rightarrow>
               (case remove_file h path w of
                  (Some e, w1) \<Rightarrow> (Inl e, w1)
                | (None, w1) \<Rightarrow>
                    (Inr \<lparr>bfApp = app, bfService = DetectService name, bfName = name, bfPath = path,
                       bfSize = node_size info, bfModified = node_time info\<rparr>, w1))))"

section \<open>The entries of a directory\<close>

text \<open>Every file is kept under its cleaned path.\<close>

definition wf_files :: "'d world \<Rightarrow> bool" where
  "wf_files w = (\<forall>k v. fmlookup (files w) k = Some v \<longrightarrow> clean k = k)"

lemma lookup_clean: "clean p = p \<Longrightarrow> lookup_file w p = fmlookup (files w) p"
  by (simp add: lookup_file_def)

lemma clean_step_parts:
  "list_all (\<lambda>c. c \<noteq> [] \<and> slash \<notin> set c) st \<Longrightarrow> slash \<notin> set c \<Longrightarrow>
   list_all (\<lambda>c. c \<noteq> [] \<and> slash \<notin> set c) (clean_step r c st)"
  by (auto simp: clean_step_def slash_def split: list.split)

lemma clean_stack_parts: "list_all (\<lambda>c. c \<noteq> [] \<and> slash \<notin> set c) (clean_stack p)"
proof -
  have "list_all (\<lambda>c. c \<noteq> [] \<and> slash \<notin> set c) (fold (clean_step r) cs st)"
    if "list_all (\<lambda>c. c \<noteq> [] \<and> slash \<notin> set c) st" "\<forall>c \<in> set cs. slash \<notin> set c" for cs st r
    using that by (induction cs arbitrary: st) (simp_all add: clean_step_parts)
  then show ?thesis using split_on_parts by (auto simp: clean_stack_def)
qed

lemma is_abs_clean: "is_abs (clean p) = is_abs p"
proof (cases "is_abs p")
  case True
  then show ?thesis by (simp add: clean_def render_def is_abs_def)
next
  case False
  show ?thesis
  proof (cases "rev (clean_stack p)")
    case Nil
    with False show ?thesis by (simp add: clean_def render_def is_abs_def slash_def)
  next
    case (Cons c cs)
    then have "c \<in> set (clean_stack p)" by (metis list.set_intros(1) set_rev)
    with clean_stack_parts [of p] have "c \<noteq> []" "slash \<notin> set c" by (auto simp: list_all_iff)
    then have "hd c \<noteq> slash" "c \<noteq> []" by (cases c; auto)+
    then have "\<not> is_abs (join [slash] (c # cs))" by (cases cs) (auto simp: is_abs_def)
    then show ?thesis using False Cons by (simp add: clean_def render_def)
  qed
qed

lemma is_abs_dir: "is_abs (path_dir p) = is_abs p"
proof -
  define q where "q = rev (dropWhile (\<lambda>c. c \<noteq> slash) (rev p))"
  have "rev p = takeWhile (\<lambda>c. c \<noteq> slash) (rev p) @ rev q" by (simp add: q_def)
  then have p: "p = q @ rev (takeWhile (\<lambda>c. c \<noteq> slash) (rev p))"
    by (metis rev_append rev_rev_ident)
  have "q = [] \<Longrightarrow> slash \<notin> set p" by (auto simp: q_def dropWhile_eq_Nil_conv)
  then have "q = [] \<Longrightarrow> p = [] \<or> hd p \<noteq> slash" by (cases p) auto
  moreover have "q \<noteq> [] \<Longrightarrow> hd p = hd q" by (subst p) simp
  ultimately have "is_abs q = is_abs p"
    using p by (cases "q = []") (auto simp: is_abs_def)
  then show ?thesis by (simp add: path_dir_def is_abs_clean flip: q_def)
qed

text \<open>What lies directly below an absolute directory.\<close>

lemma child_of:
  assumes "list_all plain cs" "clean p = p" "path_dir p = rooted_path cs" "p \<noteq> rooted_path cs"
  shows "\<exists>n. plain n \<and> p = rooted_path (cs @ [n])"
proof -
  have "is_abs p" using assms(3) is_abs_dir [of p] by simp
  then obtain ps where ps: "list_all plain ps" "p = rooted_path ps"
    using clean_abs_obtain [of p] assms(2) by metis
  show ?thesis
  proof (cases ps rule: rev_cases)
    case Nil
    with ps assms show ?thesis by (simp add: path_dir_root)
  next
    case (snoc qs n)
    with ps have "path_dir p = rooted_path qs" "list_all plain qs" "plain n" by (auto simp: path_dir_rooted)
    with assms ps snoc show ?thesis by (auto simp: rooted_path_inj)
  qed
qed

lemma dir_names_rooted:
  assumes "wf_files w" "list_all plain cs"
  shows "set (dir_names w (rooted_path cs)) =
    {n. plain n \<and> lookup_file w (rooted_path (cs @ [n])) \<noteq> None}"
proof (intro set_eqI iffI)
  fix n assume "n \<in> set (dir_names w (rooted_path cs))"
  then obtain p where p: "n = path_base p" "p |\<in>| fmdom (files w)" "path_dir p = rooted_path cs"
      "p \<noteq> rooted_path cs"
    using assms(2) by (auto simp: dir_names_def)
  then have "clean p = p" using assms(1) by (auto simp: wf_files_def Prelude.fmlookup_dom_iff)
  with child_of [OF assms(2) this p(3,4)] p(1,2) assms(2)
  show "n \<in> {n. plain n \<and> lookup_file w (rooted_path (cs @ [n])) \<noteq> None}"
    by (auto simp: path_base_rooted lookup_clean Prelude.fmlookup_dom_iff)
next
  fix n assume "n \<in> {n. plain n \<and> lookup_file w (rooted_path (cs @ [n])) \<noteq> None}"
  then have n: "list_all plain (cs @ [n])" "lookup_file w (rooted_path (cs @ [n])) \<noteq> None" using assms(2) by auto
  then have "rooted_path (cs @ [n]) |\<in>| fmdom (files w)" by (simp add: lookup_clean Prelude.fmlookup_dom_iff)
  moreover have "rooted_path (cs @ [n]) \<noteq> rooted_path cs" using n(1) by (subst rooted_path_inj) auto
  ultimately show "n \<in> set (dir_names w (rooted_path cs))"
    using n(1) assms(2)
    by (auto simp: dir_names_def path_dir_rooted path_base_rooted
        intro!: image_eqI [of _ _ "rooted_path (cs @ [n])"])
qed

lemma name_plain: "name_pattern s \<Longrightarrow> plain s"
  using name_pattern_excludes [of s slash] name_pattern_excludes [of s "CHR ''.''"]
  by (auto simp: plain_def char_class_defs slash_def)

section \<open>What is listed\<close>

text \<open>The file \<open>f\<close> is a backup below the directory with components \<open>cs\<close>.\<close>

definition backup_at :: "'d world \<Rightarrow> string list \<Rightarrow> BFile \<Rightarrow> bool" where
  "backup_at w cs f =
     (name_pattern (bfApp f) \<and> plain (bfName f)
      \<and> bfService f = DetectService (bfName f) \<and> bfService f \<noteq> []
      \<and> bfPath f = rooted_path (cs @ [bfApp f, bfName f])
      \<and> lookup_file w (rooted_path (cs @ [bfApp f])) = Some Dir
      \<and> (\<exists>c. lookup_file w (bfPath f) = Some (File c (bfModified f)) \<and> bfSize f = int (length c)))"

lemma set_map_filter: "set (List.map_filter f xs) = {y. \<exists>x \<in> set xs. f x = Some y}"
  by (induction xs) (auto split: option.splits)

lemma scan_app_set:
  assumes "no_faults h" "wf_files w" "list_all plain cs" "plain app"
  shows "f \<in> set (scan_app h w (rooted_path cs) app) \<longleftrightarrow> bfApp f = app \<and> backup_at w cs f"
proof -
  let ?d = "rooted_path (cs @ [app])"
  have d: "path_join [rooted_path cs, app] = ?d" using assms(3,4) path_join_rooted [of cs "[app]"] by simp
  have j: "path_join [?d, n] = rooted_path (cs @ [app, n])" if "plain n" for n
    using that assms(3,4) path_join_rooted [of "cs @ [app]" "[n]"] by simp
  have sc: "scan_file h w ?d app n = Some f \<longleftrightarrow>
      bfApp f = app \<and> bfName f = n \<and> bfService f = DetectService n \<and> bfService f \<noteq> []
      \<and> bfPath f = rooted_path (cs @ [app, n])
      \<and> (\<exists>c. lookup_file w (bfPath f) = Some (File c (bfModified f)) \<and> bfSize f = int (length c))"
    if "plain n" for n
    using that assms(1)
    by (cases f) (auto simp: scan_file_def Let_def j stat_def fails_def no_faults_def node_size_def node_time_def
        split: option.splits fnode.splits)
  have names: "set (dir_names w ?d) = {n. plain n \<and> lookup_file w (rooted_path (cs @ [app, n])) \<noteq> None}"
    using dir_names_rooted [OF assms(2), of "cs @ [app]"] assms(3,4) by simp
  show ?thesis
  proof (cases "lookup_file w ?d = Some Dir \<and> name_pattern app")
    case True
    then have "set (scan_app h w (rooted_path cs) app) =
        {g. \<exists>n. plain n \<and> lookup_file w (rooted_path (cs @ [app, n])) \<noteq> None \<and> scan_file h w ?d app n = Some g}"
      using assms(1) names
      by (auto simp: scan_app_def d read_dir_def fails_def no_faults_def set_map_filter)
    then show ?thesis
      using True sc by (auto simp: backup_at_def)
  next
    case False
    then show ?thesis by (auto simp: scan_app_def d backup_at_def)
  qed
qed

lemma ListFiles_dir:
  assumes "no_faults h" "ListFiles h (rooted_path cs) w = Inr fs" "list_all plain cs" "wf_files w"
  shows "f \<in> set fs \<longleftrightarrow> backup_at w cs f \<and> lookup_file w (rooted_path cs) = Some Dir
      \<and> lookup_file w (rooted_path (cs @ [bfApp f])) \<noteq> None"
proof -
  have e: "fs = (if lookup_file w (rooted_path cs) = Some Dir
      then newest_first (concat (map (scan_app h w (rooted_path cs)) (dir_names w (rooted_path cs)))) else [])"
    using assms(1,2)
    by (auto simp: ListFiles_def read_dir_def fails_def no_faults_def not_exist_def
        split: option.splits fnode.splits)
  show ?thesis
    using dir_names_rooted [OF assms(4,3)] scan_app_set [OF assms(1,4,3)] name_plain
    by (auto simp: e newest_first_def backup_at_def)
qed

section \<open>Resolving names\<close>

lemma detect_nonempty:
  "DetectService name \<noteq> [] \<Longrightarrow> name \<noteq> [] \<and> hd name \<noteq> CHR ''.'' \<and> hd name \<noteq> slash"
  by (auto simp: DetectService_def has_prefix_iff slash_def split: if_splits)

lemma trim_right_set_absent: "cs \<inter> set s = {} \<Longrightarrow> trim_right_set cs s = s"
  by (cases "rev s") (auto simp: trim_right_set_def)

lemma path_base_plain: "plain n \<Longrightarrow> path_base n = n"
  by (subst path_base_def) (auto simp: plain_def trim_right_set_absent split_on_absent Let_def)

lemma path_base_slash_free:
  assumes "path_base n = n" "n \<noteq> [slash]"
  shows "slash \<notin> set n"
proof -
  have "n \<noteq> []" using assms(1) by (auto simp: path_base_def)
  with assms have "n = last (split_on slash (trim_right_set {slash} n))"
    unfolding path_base_def Let_def by (auto split: if_splits)
  then show ?thesis using split_on_parts [OF last_in_set [OF split_on_nonempty]] by metis
qed

lemma detect_plain:
  assumes "path_base n = n" "DetectService n \<noteq> []"
  shows "plain n"
proof -
  have "n \<noteq> []" "hd n \<noteq> CHR ''.''" "hd n \<noteq> slash" using detect_nonempty [OF assms(2)] by auto
  moreover from this have "slash \<notin> set n" using path_base_slash_free [OF assms(1)] by force
  ultimately show ?thesis by (auto simp: plain_def)
qed

lemma path_abs_rooted:
  assumes "path_abs h dir = Inr root" "is_abs dir \<or> (\<exists>d. getwd h = Inr d \<and> is_abs d)"
  shows "\<exists>cs. list_all plain cs \<and> root = rooted_path cs"
proof (cases "is_abs dir")
  case True
  with assms(1) clean_abs_obtain [OF True] show ?thesis by (auto simp: path_abs_def)
next
  case False
  with assms obtain d where d: "getwd h = Inr d" "is_abs d" by auto
  then have "root = clean (join [slash] [d, dir])"
    using assms(1) False by (auto simp: path_abs_def path_join_def is_abs_def)
  moreover have "is_abs (join [slash] [d, dir])" using d(2) by (cases d) (auto simp: is_abs_def)
  ultimately show ?thesis using clean_abs_obtain by metis
qed

lemma path_abs_id: "list_all plain cs \<Longrightarrow> path_abs h (rooted_path cs) = Inr (rooted_path cs)"
  by (simp add: path_abs_def)

lemma Resolve_rooted:
  assumes "list_all plain cs" "path_abs h dir = Inr (rooted_path cs)" "name_pattern app" "plain name"
    "DetectService name \<noteq> []"
  shows "Resolve h dir app name w =
    (case stat h w (rooted_path (cs @ [app, name])) of
       Inl e \<Rightarrow> Inl e | Inr _ \<Rightarrow> Inr (rooted_path (cs @ [app, name])))"
proof -
  have pl: "list_all plain [app, name]" "list_all plain (cs @ [app, name])"
    using assms name_plain by auto
  have "\<not> has_prefix (join [slash] [app, name]) ''..''" "join [slash] [app, name] \<noteq> ''.''"
    using assms(3) by (cases app; auto simp: has_prefix_iff char_class_defs slash_def)+
  then show ?thesis
    using assms path_join_rooted [OF assms(1) pl(1)] path_rel_below [OF assms(1) pl(1)] pl
    by (simp add: Resolve_def path_base_plain path_abs_id)
qed

lemma Resolve_Inr:
  assumes "Resolve h dir app name w = Inr p" "is_abs dir \<or> (\<exists>d. getwd h = Inr d \<and> is_abs d)"
  shows "\<exists>cs. list_all plain cs \<and> path_abs h dir = Inr (rooted_path cs) \<and> p = rooted_path (cs @ [app, name])
    \<and> name_pattern app \<and> plain name \<and> DetectService name \<noteq> [] \<and> lookup_file w p \<noteq> None"
proof -
  have n: "name_pattern app" "path_base name = name" "DetectService name \<noteq> []"
    using assms(1) by (auto simp: Resolve_def split: if_splits)
  obtain root where "path_abs h dir = Inr root"
    using assms(1) n by (cases "path_abs h dir") (auto simp: Resolve_def)
  with path_abs_rooted [OF this assms(2)] obtain cs
    where cs: "list_all plain cs" "path_abs h dir = Inr (rooted_path cs)" by auto
  have "plain name" using detect_plain n by simp
  with Resolve_rooted [OF cs n(1) this n(3), of w] assms(1) cs n show ?thesis
    by (auto simp: stat_def split: option.splits sum.splits)
qed

section \<open>What a retention rule deletes\<close>

fun expired_from :: "PruneOptions \<Rightarrow> int \<Rightarrow> int \<Rightarrow> BFile list \<Rightarrow> BFile list" where
  "expired_from opts cutoff i [] = []"
| "expired_from opts cutoff i (f # fs) =
     (if expired opts cutoff i f then f # expired_from opts cutoff (i + 1) fs
      else expired_from opts cutoff (i + 1) fs)"

lemma expired_from_subset: "set (expired_from opts cutoff i fs) \<subseteq> set fs"
  by (induction fs arbitrary: i) auto

text \<open>The world without the files at some paths.\<close>

definition without :: "string set \<Rightarrow> 'd world \<Rightarrow> 'd world \<Rightarrow> bool" where
  "without ps w w' =
     (\<forall>k. fmlookup (files w') k = (if k \<in> clean ` ps then None else fmlookup (files w) k))"

lemma without_lookup:
  "without ps w w' \<Longrightarrow> lookup_file w' q = (if clean q \<in> clean ` ps then None else lookup_file w q)"
  by (simp add: without_def lookup_file_def)

lemma without_wf: "without ps w w' \<Longrightarrow> wf_files w \<Longrightarrow> wf_files w'"
  by (auto simp: without_def wf_files_def split: if_splits)

lemma without_refl [simp]: "without {} w w"
  by (simp add: without_def)

lemma without_trans: "without ps w w' \<Longrightarrow> without qs w' w'' \<Longrightarrow> without (ps \<union> qs) w w''"
  by (auto simp: without_def)

lemma remove_file_without:
  assumes "no_faults h" "lookup_file w p \<noteq> Some Dir" "remove_file h p w = (r, w')"
  shows "without {p} w w' \<and> (r = None \<or> (\<exists>e. r = Some e \<and> err_is e = Some ErrNotExist))"
  using assms
  by (auto simp: remove_file_def fails_def no_faults_def without_def lookup_file_def not_exist_def
      split: option.splits fnode.splits)

lemma prune_group_all:
  assumes "no_faults h" "\<forall>f \<in> set fs. lookup_file w (bfPath f) \<noteq> Some Dir"
  shows "\<exists>w'. prune_group h opts cutoff i fs deleted w = ((deleted @ expired_from opts cutoff i fs, None), w')
    \<and> without (bfPath ` set (expired_from opts cutoff i fs)) w w'"
  using assms(2)
proof (induction fs arbitrary: i deleted w)
  case (Cons f fs)
  show ?case
  proof (cases "expired opts cutoff i f")
    case False
    with Cons.IH [of w] Cons.prems show ?thesis by auto
  next
    case True
    obtain r w1 where r: "remove_file h (bfPath f) w = (r, w1)" by fastforce
    with remove_file_without [OF assms(1) _ r] Cons.prems
    have 1: "without {bfPath f} w w1" "r = None \<or> (\<exists>e. r = Some e \<and> err_is e = Some ErrNotExist)" by auto
    then have "\<forall>g \<in> set fs. lookup_file w1 (bfPath g) \<noteq> Some Dir"
      using Cons.prems by (auto simp: without_lookup [OF 1(1)])
    from Cons.IH [OF this, of "i + 1" "deleted @ [f]"] obtain w' where
      "prune_group h opts cutoff (i + 1) fs (deleted @ [f]) w1
         = ((deleted @ [f] @ expired_from opts cutoff (i + 1) fs, None), w')"
      "without (bfPath ` set (expired_from opts cutoff (i + 1) fs)) w1 w'" by auto
    moreover from this have "without (bfPath ` set (expired_from opts cutoff i (f # fs))) w w'"
      using True without_trans [OF 1(1), of "bfPath ` set (expired_from opts cutoff (i + 1) fs)" w'] by simp
    ultimately show ?thesis using True r 1(2) by auto
  qed
qed simp

lemma set_newest_first [simp]: "set (newest_first fs) = set fs"
  by (simp add: newest_first_def)

definition doomed :: "PruneOptions \<Rightarrow> int \<Rightarrow> BFile list list \<Rightarrow> BFile list" where
  "doomed opts cutoff gs = concat (map (\<lambda>g. expired_from opts cutoff 0 (newest_first g)) gs)"

lemma prune_groups_all:
  assumes "no_faults h" "\<forall>g \<in> set gs. \<forall>f \<in> set g. lookup_file w (bfPath f) \<noteq> Some Dir"
  shows "\<exists>w'. prune_groups h opts cutoff gs deleted w = ((deleted @ doomed opts cutoff gs, None), w')
    \<and> without (bfPath ` set (doomed opts cutoff gs)) w w'"
  using assms(2)
proof (induction gs arbitrary: deleted w)
  case (Cons g gs)
  have "\<forall>f \<in> set (newest_first g). lookup_file w (bfPath f) \<noteq> Some Dir" using Cons.prems by simp
  from prune_group_all [OF assms(1) this, of opts cutoff 0 deleted] obtain w1 where 1:
    "prune_group h opts cutoff 0 (newest_first g) deleted w
       = ((deleted @ expired_from opts cutoff 0 (newest_first g), None), w1)"
    "without (bfPath ` set (expired_from opts cutoff 0 (newest_first g))) w w1" by auto
  then have "\<forall>g \<in> set gs. \<forall>f \<in> set g. lookup_file w1 (bfPath f) \<noteq> Some Dir"
    using Cons.prems by (auto simp: without_lookup [OF 1(2)])
  from Cons.IH [OF this, of "deleted @ expired_from opts cutoff 0 (newest_first g)"] obtain w' where
    "prune_groups h opts cutoff gs (deleted @ expired_from opts cutoff 0 (newest_first g)) w1
       = ((deleted @ expired_from opts cutoff 0 (newest_first g) @ doomed opts cutoff gs, None), w')"
    "without (bfPath ` set (doomed opts cutoff gs)) w1 w'" by auto
  moreover from this have "without (bfPath ` set (doomed opts cutoff (g # gs))) w w'"
    using without_trans [OF 1(2), of "bfPath ` set (doomed opts cutoff gs)" w'] by (simp add: doomed_def image_Un)
  ultimately show ?case using 1(1) by (simp add: doomed_def)
qed (simp add: doomed_def)

lemma newest_first_filter: "newest_first (filter P fs) = filter P (newest_first fs)"
  by (simp add: newest_first_def filter_sort)

lemma newest_first_idem [simp]: "newest_first (newest_first fs) = newest_first fs"
  by (simp add: newest_first_def sort_key_id_if_sorted)

text \<open>How many files of its group are listed before \<open>f\<close>.\<close>

definition rank :: "BFile list \<Rightarrow> BFile \<Rightarrow> int" where
  "rank fs f = int (length (takeWhile (\<lambda>g. g \<noteq> f) (filter (\<lambda>g. group_key g = group_key f) fs)))"

lemma expired_from_iff:
  "distinct fs \<Longrightarrow> f \<in> set (expired_from opts cutoff i fs) \<longleftrightarrow>
     f \<in> set fs \<and> expired opts cutoff (i + int (length (takeWhile (\<lambda>g. g \<noteq> f) fs))) f"
proof (induction fs arbitrary: i)
  case (Cons g fs)
  have "f \<in> set (expired_from opts cutoff (i + 1) fs) \<Longrightarrow> f \<in> set fs" using expired_from_subset by fastforce
  with Cons show ?case by (auto simp: add.assoc)
qed simp

section \<open>The listing has no duplicates\<close>

lemma distinct_dir_names:
  assumes "wf_files w" "list_all plain cs"
  shows "distinct (dir_names w (rooted_path cs))"
proof -
  have "inj_on path_base {p. p |\<in>| fmdom (files w) \<and> path_dir p = rooted_path cs \<and> p \<noteq> rooted_path cs}"
  proof (rule inj_onI)
    fix p q
    assume a: "p \<in> {p. p |\<in>| fmdom (files w) \<and> path_dir p = rooted_path cs \<and> p \<noteq> rooted_path cs}"
      "q \<in> {p. p |\<in>| fmdom (files w) \<and> path_dir p = rooted_path cs \<and> p \<noteq> rooted_path cs}"
      "path_base p = path_base q"
    then have "clean p = p" "clean q = q" using assms(1) by (auto simp: wf_files_def Prelude.fmlookup_dom_iff)
    with a child_of [OF assms(2)] obtain m n where "plain m" "plain n"
      "p = rooted_path (cs @ [m])" "q = rooted_path (cs @ [n])" by blast
    with a(3) assms(2) show "p = q" by (simp add: path_base_rooted)
  qed
  then show ?thesis
    using assms(2) by (auto simp: dir_names_def distinct_map intro: inj_on_subset)
qed

lemma distinct_map_filter:
  "distinct xs \<Longrightarrow> (\<And>x y z. f x = Some z \<Longrightarrow> f y = Some z \<Longrightarrow> x = y) \<Longrightarrow> distinct (List.map_filter f xs)"
  by (induction xs) (auto simp: set_map_filter split: option.splits)

lemma distinct_scan_app:
  assumes "no_faults h" "wf_files w" "list_all plain cs" "plain app"
  shows "distinct (scan_app h w (rooted_path cs) app)"
proof -
  have "path_join [rooted_path cs, app] = rooted_path (cs @ [app])"
    using assms(3,4) path_join_rooted [of cs "[app]"] by simp
  moreover have "distinct (List.map_filter (scan_file h w (rooted_path (cs @ [app])) app)
      (dir_names w (rooted_path (cs @ [app]))))"
    using assms(3,4)
    by (intro distinct_map_filter distinct_dir_names [OF assms(2)])
      (auto simp: scan_file_def Let_def split: if_splits sum.splits)
  ultimately show ?thesis
    by (auto simp: scan_app_def read_dir_def fails_def split: option.split fnode.split)
qed

lemma ListFiles_distinct:
  assumes "no_faults h" "ListFiles h (rooted_path cs) w = Inr fs" "list_all plain cs" "wf_files w"
  shows "distinct fs" "newest_first fs = fs"
proof -
  have "distinct (concat (map (scan_app h w (rooted_path cs)) ns))"
    if "distinct ns" "list_all plain ns" for ns
    using that
  proof (induction ns)
    case (Cons n ns)
    have "set (scan_app h w (rooted_path cs) n) \<inter> set (concat (map (scan_app h w (rooted_path cs)) ns)) = {}"
      using Cons.prems scan_app_set [OF assms(1,4,3)] by (auto simp: list_all_iff)
    with Cons distinct_scan_app [OF assms(1,4,3)] show ?case by auto
  qed simp
  from this [OF distinct_dir_names [OF assms(4,3)]] dir_names_rooted [OF assms(4,3)]
  have "distinct (concat (map (scan_app h w (rooted_path cs)) (dir_names w (rooted_path cs))))"
    by (auto simp: list_all_iff)
  then show "distinct fs" "newest_first fs = fs"
    using assms(1,2)
    by (auto simp: ListFiles_def read_dir_def fails_def no_faults_def newest_first_def distinct_sort sort_key_id_if_sorted
        split: option.splits fnode.splits if_splits)
qed

lemma backup_at_group:
  assumes "backup_at w cs f" "backup_at w cs g" "group_key g = group_key f"
  shows "bfApp g = bfApp f \<and> bfService g = bfService f"
proof -
  have "slash \<notin> set (bfApp f)" "slash \<notin> set (bfApp g)"
    using assms(1,2) name_plain by (auto simp: backup_at_def plain_def)
  then have "split_on slash (group_key f) = bfApp f # split_on slash (bfService f)"
    "split_on slash (group_key g) = bfApp g # split_on slash (bfService g)"
    using split_on_append [of slash "bfApp f" "bfService f"] split_on_append [of slash "bfApp g" "bfService g"]
    by (simp_all add: group_key_def slash_def)
  then have "bfApp g = bfApp f" using assms(3) by (metis list.inject)
  with assms(3) show ?thesis by (simp add: group_key_def)
qed

lemma rank_selected:
  assumes "\<forall>g \<in> set fs. backup_at w cs g" "f \<in> set fs" "selected opts f"
  shows "filter (\<lambda>g. group_key g = group_key f) (filter (selected opts) fs)
    = filter (\<lambda>g. group_key g = group_key f) fs"
proof -
  have "group_key g = group_key f \<Longrightarrow> g \<in> set fs \<Longrightarrow> selected opts g" for g
    using assms backup_at_group [of w cs f g] by (auto simp: selected_def)
  then show ?thesis by (auto simp: filter_filter intro!: filter_cong)
qed

lemma doomed_iff:
  assumes "distinct fs" "newest_first fs = fs" "\<forall>g \<in> set fs. backup_at w cs g" "\<And>ks. set (visit ks) = set ks"
  shows "f \<in> set (doomed opts cutoff (groups_of visit (filter (selected opts) fs))) \<longleftrightarrow>
    f \<in> set fs \<and> selected opts f \<and> expired opts cutoff (rank fs f) f"
proof -
  let ?sel = "filter (selected opts) fs"
  let ?grp = "\<lambda>k. filter (\<lambda>g. group_key g = k) ?sel"
  have nf: "newest_first (?grp k) = ?grp k" for k
    using assms(2) by (simp only: newest_first_filter)
  have e: "f \<in> set (expired_from opts cutoff 0 (?grp k)) \<longleftrightarrow>
      f \<in> set (?grp k) \<and> expired opts cutoff (int (length (takeWhile (\<lambda>g. g \<noteq> f) (?grp k)))) f" for k
    using expired_from_iff [of "?grp k" f opts cutoff 0] assms(1) by simp
  have "f \<in> set (doomed opts cutoff (groups_of visit ?sel)) \<longleftrightarrow>
      (\<exists>k \<in> group_key ` set ?sel. f \<in> set (expired_from opts cutoff 0 (?grp k)))"
    by (simp add: doomed_def groups_of_def nf assms(4) del: filter_filter)
  also have "\<dots> \<longleftrightarrow> f \<in> set ?sel \<and> f \<in> set (expired_from opts cutoff 0 (?grp (group_key f)))"
    unfolding e by auto
  also have "\<dots> \<longleftrightarrow> f \<in> set fs \<and> selected opts f \<and> expired opts cutoff (rank fs f) f"
    unfolding e rank_def using rank_selected [OF assms(3), of f opts] by auto
  finally show ?thesis .
qed

text \<open>
  A prune on a healthy disk, in one statement: what it deletes, and what the directory holds
  afterwards.
\<close>

text \<open>Removing backups leaves the directories and all other backups in place.\<close>

lemma without_keeps:
  assumes "without (bfPath ` set ds) w w'" "\<forall>f \<in> set ds. backup_at w cs f"
    "lookup_file w q = None \<or> lookup_file w q = Some Dir"
  shows "lookup_file w' q = lookup_file w q"
proof -
  have "clean q \<notin> clean ` bfPath ` set ds"
  proof
    assume "clean q \<in> clean ` bfPath ` set ds"
    then obtain f where f: "f \<in> set ds" "clean q = clean (bfPath f)" by auto
    then have "lookup_file w q = lookup_file w (bfPath f)" by (simp add: lookup_file_def)
    with f(1) assms(2,3) show False by (auto simp: backup_at_def)
  qed
  then show ?thesis by (simp add: without_lookup [OF assms(1)])
qed

lemma backup_at_same:
  assumes "backup_at w cs f" "backup_at w cs g" "list_all plain cs" "clean (bfPath f) = clean (bfPath g)"
  shows "f = g"
proof -
  have "clean (bfPath x) = bfPath x" if "backup_at w cs x" for x
    using that assms(3) name_plain by (simp add: backup_at_def)
  with assms have "bfPath f = bfPath g" by metis
  with assms(1-3) name_plain show ?thesis
    by (cases f; cases g) (auto simp: backup_at_def rooted_path_inj)
qed

lemma backup_at_without:
  assumes "without (bfPath ` set ds) w w'" "\<forall>f \<in> set ds. backup_at w cs f" "list_all plain cs"
  shows "backup_at w' cs f = (backup_at w cs f \<and> f \<notin> set ds)"
proof
  assume f: "backup_at w' cs f"
  then have "lookup_file w' (bfPath f) \<noteq> None" by (auto simp: backup_at_def)
  then have "clean (bfPath f) \<notin> clean ` bfPath ` set ds" by (auto simp: without_lookup [OF assms(1)])
  moreover have "backup_at w cs f"
    using f by (auto simp: backup_at_def without_lookup [OF assms(1)] split: if_splits)
  ultimately show "backup_at w cs f \<and> f \<notin> set ds" by blast
next
  assume f: "backup_at w cs f \<and> f \<notin> set ds"
  then have b: "backup_at w cs f" by simp
  have "clean (bfPath f) \<notin> clean ` bfPath ` set ds"
    using backup_at_same [OF b _ assms(3)] assms(2) f by auto
  then have l: "lookup_file w' (bfPath f) = lookup_file w (bfPath f)" by (simp add: without_lookup [OF assms(1)])
  have "lookup_file w (rooted_path (cs @ [bfApp f])) = Some Dir" using b by (simp add: backup_at_def)
  with without_keeps [OF assms(1,2)] have "lookup_file w' (rooted_path (cs @ [bfApp f])) = Some Dir" by simp
  with b show "backup_at w' cs f" unfolding backup_at_def l by blast
qed

lemma Prune_all:
  assumes "no_faults h" "wf_files w" "list_all plain cs" "\<And>ks. set (visit ks) = set ks"
    "0 < prKeepDays opts \<or> 0 < prKeepCount opts" "ListFiles h (rooted_path cs) w = Inr fs"
  shows "\<exists>deleted w' fs'. Prune h visit (rooted_path cs) opts w = ((deleted, None), w')
    \<and> set deleted = {f \<in> set fs. selected opts f \<and> expired opts (cutoff_time h opts w) (rank fs f) f}
    \<and> without (bfPath ` set deleted) w w'
    \<and> ListFiles h (rooted_path cs) w' = Inr fs' \<and> set fs' = set fs - set deleted"
proof -
  note at = ListFiles_dir [OF assms(1,6,3,2)]
  note dist = ListFiles_distinct [OF assms(1,6,3,2)]
  let ?gs = "groups_of visit (filter (selected opts) fs)"
  let ?del = "doomed opts (cutoff_time h opts w) ?gs"
  have "\<forall>g \<in> set ?gs. \<forall>f \<in> set g. lookup_file w (bfPath f) \<noteq> Some Dir"
    using at by (auto simp: groups_of_def assms(4) backup_at_def)
  from prune_groups_all [OF assms(1) this, of opts "cutoff_time h opts w" "[]"] obtain w' where
    p: "prune_groups h opts (cutoff_time h opts w) ?gs [] w = ((?del, None), w')"
      "without (bfPath ` set ?del) w w'" by auto
  have del: "set ?del = {f \<in> set fs. selected opts f \<and> expired opts (cutoff_time h opts w) (rank fs f) f}"
    using doomed_iff [OF dist, of w cs visit _ opts] at assms(4) by auto
  then have atd: "\<forall>f \<in> set ?del. backup_at w cs f" using at by auto
  note keep = without_keeps [OF p(2) atd]
  obtain fs' where l': "ListFiles h (rooted_path cs) w' = Inr fs'"
    using assms(1,6) keep [of "rooted_path cs"]
    by (cases "lookup_file w (rooted_path cs)")
      (auto simp: ListFiles_def read_dir_def fails_def no_faults_def not_exist_def split: fnode.splits)
  note at' = ListFiles_dir [OF assms(1) l' assms(3) without_wf [OF p(2) assms(2)]]
  have "lookup_file w' (rooted_path cs) = Some Dir \<Longrightarrow> lookup_file w (rooted_path cs) = Some Dir"
    by (simp add: without_lookup [OF p(2)] split: if_splits)
  then have root: "lookup_file w' (rooted_path cs) = Some Dir \<longleftrightarrow> lookup_file w (rooted_path cs) = Some Dir"
    using keep [of "rooted_path cs"] by metis
  have "backup_at w cs f \<Longrightarrow> lookup_file w (rooted_path (cs @ [bfApp f])) = Some Dir" for f
    by (simp add: backup_at_def)
  then have app: "backup_at w cs f \<Longrightarrow> lookup_file w (rooted_path (cs @ [bfApp f])) \<noteq> None
      \<and> lookup_file w' (rooted_path (cs @ [bfApp f])) \<noteq> None" for f
    using keep by (metis option.distinct(1))
  have "set fs' = set fs - set ?del"
    unfolding set_eq_iff Diff_iff at at' root backup_at_without [OF p(2) atd assms(3)] using app by blast
  with p l' del assms(5,6) show ?thesis
    by (auto simp: Prune_def)
qed

section \<open>Properties\<close>

text \<open>Two snapshots of one app.\<close>

definition demo_backups :: "unit world" where
  "demo_backups = demo_world\<lparr>files := fmap_of_list
     [(''/'', Dir), (''/b'', Dir), (''/b/shop'', Dir),
      (''/b/shop/redis_1.json'', File ''[]'' 1), (''/b/shop/redis_2.json'', File ''{}'' 2)]\<rparr>"

definition demo_bfile :: "string \<Rightarrow> int \<Rightarrow> BFile" where
  "demo_bfile name t = \<lparr>bfApp = ''shop'', bfService = ''redis'', bfName = name,
     bfPath = ''/b/shop/'' @ name, bfSize = 2, bfModified = t\<rparr>"

lemma demo_backups_lookup:
  "fmlookup (files demo_backups) k =
     (if k = ''/'' \<or> k = ''/b'' \<or> k = ''/b/shop'' then Some Dir
      else if k = ''/b/shop/redis_1.json'' then Some (File ''[]'' 1)
      else if k = ''/b/shop/redis_2.json'' then Some (File ''{}'' 2) else None)"
  by (simp add: demo_backups_def)

lemma demo_backups_clean:
  "clean ''/'' = ''/''" "clean ''/b'' = ''/b''" "clean ''/b/shop'' = ''/b/shop''"
  "clean ''/b/shop/redis_1.json'' = ''/b/shop/redis_1.json''"
  "clean ''/b/shop/redis_2.json'' = ''/b/shop/redis_2.json''"
  by code_simp+

lemma demo_backups_facts:
  "no_faults demo_host" "wf_files demo_backups" "''/b'' = rooted_path [''b'']" "list_all plain [''b'']"
  "\<exists>fs. ListFiles demo_host ''/b'' demo_backups = Inr fs"
proof -
  show "wf_files demo_backups"
    unfolding wf_files_def demo_backups_lookup using demo_backups_clean by (auto split: if_splits)
  show "\<exists>fs. ListFiles demo_host ''/b'' demo_backups = Inr fs"
    by (simp add: ListFiles_def read_dir_def fails_def lookup_file_def demo_backups_clean demo_backups_lookup)
qed (simp_all add: no_faults_def rooted_path_def plain_def slash_def)

lemma demo_backup_at:
  "backup_at demo_backups [''b''] (demo_bfile ''redis_1.json'' 1)"
  "backup_at demo_backups [''b''] (demo_bfile ''redis_2.json'' 2)"
proof -
  have d: "DetectService ''redis_1.json'' = ''redis''" "DetectService ''redis_2.json'' = ''redis''" by code_simp+
  show "backup_at demo_backups [''b''] (demo_bfile ''redis_1.json'' 1)"
    "backup_at demo_backups [''b''] (demo_bfile ''redis_2.json'' 2)"
    by (simp_all add: backup_at_def demo_bfile_def d lookup_file_def demo_backups_clean demo_backups_lookup
        rooted_path_def slash_def plain_def char_class_defs)
qed

lemma demo_listed:
  assumes "ListFiles demo_host ''/b'' demo_backups = Inr fs"
  shows "demo_bfile ''redis_1.json'' 1 \<in> set fs" "demo_bfile ''redis_2.json'' 2 \<in> set fs"
proof -
  have "lookup_file demo_backups (rooted_path [''b'']) = Some Dir"
    by (simp add: lookup_file_def demo_backups_clean demo_backups_lookup flip: demo_backups_facts(3))
  note l = ListFiles_dir [OF demo_backups_facts(1) assms [unfolded demo_backups_facts(3)] demo_backups_facts(4,2)] this
  show "demo_bfile ''redis_1.json'' 1 \<in> set fs" "demo_bfile ''redis_2.json'' 2 \<in> set fs"
    using demo_backup_at unfolding l(1) by (auto simp: l(2) backup_at_def)
qed

text \<open>C13: the listing holds exactly the backup files of the directory, each once, newest first: regular
  files one level below a directory with a valid app name, whose own name carries a service's prefix
  and extension.\<close>

theorem list_exactly_backups:
  assumes "no_faults h" "wf_files w" "list_all plain cs" "ListFiles h (rooted_path cs) w = Inr fs"
  shows "distinct fs \<and> sorted_wrt (\<ge>) (map bfModified fs)
    \<and> (\<forall>f. f \<in> set fs \<longleftrightarrow> backup_at w cs f \<and> lookup_file w (rooted_path cs) = Some Dir)"
proof (intro conjI allI)
  show "distinct fs" by (rule ListFiles_distinct(1) [OF assms(1,4,3,2)])
  have "sorted (map (\<lambda>f. - bfModified f) fs)"
    using ListFiles_distinct(2) [OF assms(1,4,3,2)] by (metis newest_first_def sorted_sort_key)
  then show "sorted_wrt (\<ge>) (map bfModified fs)" by (simp add: sorted_wrt_map sorted_map)
  show "f \<in> set fs \<longleftrightarrow> backup_at w cs f \<and> lookup_file w (rooted_path cs) = Some Dir"
    for f
    unfolding ListFiles_dir [OF assms(1,4,3,2)] by (auto simp: backup_at_def)
qed

theorem list_exactly_backups_witness:
  "\<exists>fs. ListFiles demo_host ''/b'' demo_backups = Inr fs \<and> distinct fs
     \<and> backup_at demo_backups [''b''] (demo_bfile ''redis_1.json'' 1)"
proof -
  obtain fs where fs: "ListFiles demo_host ''/b'' demo_backups = Inr fs" using demo_backups_facts(5) by auto
  note l = list_exactly_backups [OF demo_backups_facts(1,2,4), folded demo_backups_facts(3), OF fs]
  show ?thesis using fs l demo_listed(1) [OF fs] by auto
qed



lemma index_of_element:
  "g \<in> set xs \<Longrightarrow> length (takeWhile (\<lambda>x. x \<noteq> g) xs) < length xs \<and> xs ! length (takeWhile (\<lambda>x. x \<noteq> g) xs) = g"
  by (induction xs) auto

text \<open>C15: after a retention by count no app has more backups of a selected service than that count.\<close>

theorem prune_bound:
  assumes "no_faults h" "wf_files w" "list_all plain cs" "\<And>ks. set (visit ks) = set ks"
    "0 < prKeepCount opts" "ListFiles h (rooted_path cs) w = Inr fs"
    "Prune h visit (rooted_path cs) opts w = ((deleted, err), w')" "f \<in> set fs" "selected opts f"
  shows "err = None \<and> (\<exists>fs'. ListFiles h (rooted_path cs) w' = Inr fs'
    \<and> int (card {g \<in> set fs'. group_key g = group_key f}) \<le> prKeepCount opts)"
proof -
  note at = ListFiles_dir [OF assms(1,6,3,2)]
  obtain fs' where p: "err = None" "ListFiles h (rooted_path cs) w' = Inr fs'" "set fs' = set fs - set deleted"
    "set deleted = {f \<in> set fs. selected opts f \<and> expired opts (cutoff_time h opts w) (rank fs f) f}"
    using Prune_all [OF assms(1-4) _ assms(6), of opts] assms(5,7) by auto
  let ?k = "nat (prKeepCount opts)" and ?grp = "filter (\<lambda>g. group_key g = group_key f) fs"
  have "g \<in> set (take ?k ?grp)" if "g \<in> set fs'" "group_key g = group_key f" for g
  proof -
    have g: "g \<in> set fs" "g \<notin> set deleted" using that p by auto
    have "selected opts g"
      using backup_at_group [of w cs f g] at g(1) assms(8,9) that(2) by (auto simp: selected_def)
    with g p(4) have "rank fs g < prKeepCount opts"
      using assms(5) by (auto simp: expired_def)
    then have "length (takeWhile (\<lambda>x. x \<noteq> g) ?grp) < ?k" using that(2) by (simp add: rank_def)
    moreover have "g \<in> set ?grp" using g(1) that(2) by simp
    then have "length (takeWhile (\<lambda>x. x \<noteq> g) ?grp) < length ?grp"
      "?grp ! length (takeWhile (\<lambda>x. x \<noteq> g) ?grp) = g"
      using index_of_element [of g ?grp] by auto
    ultimately show ?thesis by (auto simp: in_set_conv_nth)
  qed
  then have "{g \<in> set fs'. group_key g = group_key f} \<subseteq> set (take ?k ?grp)" by auto
  then have "card {g \<in> set fs'. group_key g = group_key f} \<le> ?k"
    using card_mono [OF finite_set] card_length [of "take ?k ?grp"] by (metis (no_types, lifting) le_trans length_take min.cobounded2)
  with p(1,2) assms(5) show ?thesis by auto
qed

definition keep_one :: PruneOptions where
  "keep_one = \<lparr>prAppName = [], prAll = True, prServices = [], prKeepDays = 0, prKeepCount = 1\<rparr>"

theorem prune_bound_witness:
  "\<exists>deleted err w' fs'. Prune demo_host rev ''/b'' keep_one demo_backups = ((deleted, err), w')
     \<and> err = None \<and> ListFiles demo_host ''/b'' w' = Inr fs'
     \<and> card {g \<in> set fs'. group_key g = ''shop/redis''} \<le> 1"
proof -
  obtain fs where fs: "ListFiles demo_host ''/b'' demo_backups = Inr fs" using demo_backups_facts(5) by auto
  obtain deleted err w' where p: "Prune demo_host rev ''/b'' keep_one demo_backups = ((deleted, err), w')"
    by (metis prod.collapse)
  show ?thesis
    using p prune_bound [OF demo_backups_facts(1,2,4), folded demo_backups_facts(3), OF _ _ fs p demo_listed(1) [OF fs]]
    by (auto simp: keep_one_def selected_def group_key_def demo_bfile_def)
qed

text \<open>C16: the path of a request is always one existing entry exactly two levels below the backups
  directory, in the directory of a valid app name: no app or file name climbs out of it.\<close>

theorem resolve_inside:
  assumes "Resolve h dir app name w = Inr p" "is_abs dir \<or> (\<exists>d. getwd h = Inr d \<and> is_abs d)"
  shows "\<exists>cs. list_all plain cs \<and> path_abs h dir = Inr (rooted_path cs) \<and> p = rooted_path (cs @ [app, name])
    \<and> name_pattern app \<and> plain name \<and> DetectService name \<noteq> [] \<and> lookup_file w p \<noteq> None"
  by (rule Resolve_Inr [OF assms])

text \<open>Every listed file can be addressed by its app and its name.\<close>

theorem resolve_listed:
  assumes "no_faults h" "wf_files w" "list_all plain cs" "ListFiles h (rooted_path cs) w = Inr fs" "f \<in> set fs"
  shows "Resolve h (rooted_path cs) (bfApp f) (bfName f) w = Inr (bfPath f)"
proof -
  have f: "backup_at w cs f" using assms(5) ListFiles_dir [OF assms(1,4,3,2)] by simp
  then have n: "name_pattern (bfApp f)" "plain (bfName f)" "DetectService (bfName f) \<noteq> []"
    "rooted_path (cs @ [bfApp f, bfName f]) = bfPath f" by (auto simp: backup_at_def)
  note r = Resolve_rooted [OF assms(3) path_abs_id [OF assms(3)] n(1-3), of h w, unfolded n(4)]
  show ?thesis unfolding r using f assms(1) by (auto simp: backup_at_def stat_def fails_def no_faults_def)
qed

theorem resolve_listed_witness:
  "Resolve demo_host ''/b'' ''shop'' ''redis_1.json'' demo_backups = Inr ''/b/shop/redis_1.json''"
proof -
  obtain fs where fs: "ListFiles demo_host ''/b'' demo_backups = Inr fs" using demo_backups_facts(5) by auto
  show ?thesis
    using resolve_listed [OF demo_backups_facts(1,2,4), folded demo_backups_facts(3), OF fs demo_listed(1) [OF fs]]
    by (simp add: demo_bfile_def)
qed

theorem resolve_inside_witness:
  "\<exists>cs. list_all plain cs \<and> ''/b/shop/redis_1.json'' = rooted_path (cs @ [''shop'', ''redis_1.json''])"
proof -
  have j: "path_join [''/b'', ''shop'', ''redis_1.json''] = ''/b/shop/redis_1.json''"
    "path_rel ''/b'' ''/b/shop/redis_1.json'' = Inr ''shop/redis_1.json''"
    "path_base ''redis_1.json'' = ''redis_1.json''" "DetectService ''redis_1.json'' = ''redis''"
    "is_abs ''/b''" "is_abs ''/b/shop/redis_1.json''" "name_pattern ''shop''"
    "\<not> has_prefix ''shop/redis_1.json'' ''..''"
    by code_simp+
  have "Resolve demo_host ''/b'' ''shop'' ''redis_1.json'' demo_backups = Inr ''/b/shop/redis_1.json''"
    by (simp add: Resolve_def j path_abs_def stat_def fails_def lookup_file_def demo_backups_clean demo_backups_lookup
        char_class_defs)
  from resolve_inside [OF this] show ?thesis using j(5) by blast
qed

end
