(* ===== verification/GoTime.thy ===== *)
theory GoTime
  imports GoStrings
begin

text \<open>
  Times are nanoseconds since the Unix epoch, in UTC.  The civil date of a day number follows
  the proleptic Gregorian calendar, as \<open>time.Time\<close> computes it.
\<close>

definition ns_per_sec :: int where
  "ns_per_sec = 1000000000"

definition civil :: "int \<Rightarrow> int \<times> int \<times> int" where
  "civil days =
     (let z = days + 719468; era = z div 146097; doe = z mod 146097;
          yoe = (doe - doe div 1460 + doe div 36524 - doe div 146096) div 365;
          doy = doe - (365 * yoe + yoe div 4 - yoe div 100);
          mp = (5 * doy + 2) div 153;
          d = doy - (153 * mp + 2) div 5 + 1;
          m = (if mp < 10 then mp + 3 else mp - 9) in
      (yoe + era * 400 + (if m \<le> 2 then 1 else 0), m, d))"

text \<open>A decimal with leading zeros.\<close>

definition pad_dec :: "nat \<Rightarrow> int \<Rightarrow> string" where
  "pad_dec n i =
     (if i < 0 then CHR ''-'' # replicate (n - length (dec (nat (- i)))) (CHR ''0'') @ dec (nat (- i))
      else replicate (n - length (dec (nat i))) (CHR ''0'') @ dec (nat i))"

definition utc_fields :: "int \<Rightarrow> (int \<times> int \<times> int) \<times> (int \<times> int \<times> int)" where
  "utc_fields t =
     (let secs = t div ns_per_sec; sod = secs mod 86400 in
      (civil (secs div 86400), (sod div 3600, sod div 60 mod 60, sod mod 60)))"

text \<open>\<open>t.UTC().Format("2006-01-02T15:04:05.000Z")\<close>.\<close>

definition format_created :: "int \<Rightarrow> string" where
  "format_created t =
     (case utc_fields t of
        ((y, mo, d), (hh, mi, s)) \<Rightarrow>
          pad_dec 4 y @ ''-'' @ pad_dec 2 mo @ ''-'' @ pad_dec 2 d @ ''T'' @ pad_dec 2 hh @ '':''
          @ pad_dec 2 mi @ '':'' @ pad_dec 2 s @ ''.'' @ pad_dec 3 (t mod ns_per_sec div 1000000) @ ''Z'')"

text \<open>\<open>timestamp()\<close> of \<open>internal/shelfcore\<close>: \<open>20060102T150405\<close>.\<close>

definition format_timestamp :: "int \<Rightarrow> string" where
  "format_timestamp t =
     (case utc_fields t of
        ((y, mo, d), (hh, mi, s)) \<Rightarrow>
          pad_dec 4 y @ pad_dec 2 mo @ pad_dec 2 d @ ''T'' @ pad_dec 2 hh @ pad_dec 2 mi @ pad_dec 2 s)"

text \<open>\<open>t.UTC().Format(time.RFC3339)\<close>.\<close>

definition format_rfc3339 :: "int \<Rightarrow> string" where
  "format_rfc3339 t =
     (case utc_fields t of
        ((y, mo, d), (hh, mi, s)) \<Rightarrow>
          pad_dec 4 y @ ''-'' @ pad_dec 2 mo @ ''-'' @ pad_dec 2 d @ ''T'' @ pad_dec 2 hh @ '':''
          @ pad_dec 2 mi @ '':'' @ pad_dec 2 s @ ''Z'')"

text \<open>\<open>time.Parse(time.RFC3339, s)\<close>: a date and a time of day in range, an optional fraction and an
  offset.  The library's lenient second attempt, for texts that miss this form (one-digit hours, a comma
  before the fraction), is left out: no statement of the program writes such a text.\<close>

definition unix_days :: "int \<Rightarrow> int \<Rightarrow> int \<Rightarrow> int" where
  "unix_days y m d =
     (let y1 = (if m \<le> 2 then y - 1 else y); era = y1 div 400; yoe = y1 mod 400; mp = (m + 9) mod 12;
          doy = (153 * mp + 2) div 5 + d - 1; doe = yoe * 365 + yoe div 4 - yoe div 100 + doy in
      era * 146097 + doe - 719468)"

definition leap_year :: "int \<Rightarrow> bool" where
  "leap_year y = (y mod 4 = 0 \<and> (y mod 100 \<noteq> 0 \<or> y mod 400 = 0))"

definition days_in :: "int \<Rightarrow> int \<Rightarrow> int" where
  "days_in m y = (if m = 2 then (if leap_year y then 29 else 28) else if m \<in> {4, 6, 9, 11} then 30 else 31)"

definition uint_value :: "string \<Rightarrow> int" where
  "uint_value s = foldl (\<lambda>n c. 10 * n + (of_char c - 48)) 0 s"

definition parse_uint :: "string \<Rightarrow> int \<Rightarrow> int \<Rightarrow> int option" where
  "parse_uint s lo hi =
     (if list_all is_digit s \<and> lo \<le> uint_value s \<and> uint_value s \<le> hi then Some (uint_value s) else None)"

definition piece :: "string \<Rightarrow> nat \<Rightarrow> nat \<Rightarrow> string" where
  "piece s i n = take n (drop i s)"

definition parse_fraction :: "string \<Rightarrow> int \<times> string" where
  "parse_fraction s =
     (if 2 \<le> length s \<and> hd s = CHR ''.'' \<and> is_digit (s ! 1) then
        (let ds = takeWhile is_digit (tl s) in
         (uint_value (take 9 (ds @ replicate 9 (CHR ''0''))), dropWhile is_digit (tl s)))
      else (0, s))"

definition parse_offset :: "string \<Rightarrow> int option" where
  "parse_offset s =
     (if s = ''Z'' then Some 0
      else if length s \<noteq> 6 then None
      else
        (case (parse_uint (piece s 1 2) 0 23, parse_uint (piece s 4 2) 0 59) of
           (Some hh, Some mi) \<Rightarrow>
             (if (s ! 0 = CHR ''-'' \<or> s ! 0 = CHR ''+'') \<and> s ! 3 = CHR '':''
              then Some ((if s ! 0 = CHR ''-'' then - 1 else 1) * (hh * 3600 + mi * 60)) else None)
         | _ \<Rightarrow> None))"

definition parse_rfc3339 :: "string \<Rightarrow> int option" where
  "parse_rfc3339 s =
     (if length s < 19 then None
      else
        (case (parse_uint (piece s 0 4) 0 9999, parse_uint (piece s 5 2) 1 12, parse_uint (piece s 11 2) 0 23,
               parse_uint (piece s 14 2) 0 59, parse_uint (piece s 17 2) 0 59) of
           (Some y, Some mo, Some hh, Some mi, Some se) \<Rightarrow>
             (case parse_uint (piece s 8 2) 1 (days_in mo y) of
                None \<Rightarrow> None
              | Some d \<Rightarrow>
                  (if s ! 4 = CHR ''-'' \<and> s ! 7 = CHR ''-'' \<and> s ! 10 = CHR ''T'' \<and> s ! 13 = CHR '':'' \<and> s ! 16 = CHR '':''
                   then
                     (case parse_fraction (drop 19 s) of
                        (ns, zone) \<Rightarrow>
                          map_option (\<lambda>off.
                              (unix_days y mo d * 86400 + hh * 3600 + mi * 60 + se - off) * ns_per_sec + ns)
                            (parse_offset zone))
                   else None))
         | _ \<Rightarrow> None))"

lemma dec_ascii: "list_all (\<lambda>c. is_digit c) (dec n)"
proof (induction n rule: dec.induct)
  case (1 n)
  have d: "k < 10 \<Longrightarrow> is_digit (digit_char k)" for k
    by (simp add: digit_char_def is_digit_def less_eq_char_def)
  show ?case
    using 1 d [of n] d [of "n mod 10"] by (subst dec.simps) auto
qed

text \<open>The characters of a formatted time.\<close>

lemma pad_dec_chars: "list_all (\<lambda>c. is_digit c \<or> c = CHR ''-'') (pad_dec n i)"
  using dec_ascii [of "nat i"] dec_ascii [of "nat (- i)"]
  by (auto simp: pad_dec_def list_all_iff is_digit_def less_eq_char_def)

definition time_char :: "char \<Rightarrow> bool" where
  "time_char c = (is_digit c \<or> c \<in> set ''-:.TZ'')"

lemma pad_dec_time: "list_all time_char (pad_dec n i)"
  by (rule list_all_mono [OF pad_dec_chars]) (auto simp: time_char_def)

lemma format_created_chars: "list_all time_char (format_created t)"
  using pad_dec_time by (auto simp: format_created_def time_char_def split: prod.split)

lemma format_timestamp_chars: "list_all time_char (format_timestamp t)"
  using pad_dec_time by (auto simp: format_timestamp_def time_char_def split: prod.split)

lemma time_char_plain: "time_char c \<Longrightarrow> graphic c \<and> c \<noteq> CHR 0x2F \<and> c \<noteq> CHR ''_''"
  by (auto simp: time_char_def graphic_def is_digit_def less_eq_char_def)

end
