(* ===== verification/ScheduleStore.thy ===== *)
theory ScheduleStore
  imports BackupFiles GoTime "HOL-Library.Multiset"
begin

text \<open>
  The schedules and the history of their runs (\<open>internal/web/scheduler/store.go\<close>).

  The database is the content of the program's two tables: the rows as their columns hold them
  (texts, integers, NULL as \<open>None\<close>), in the order of their primary keys, and the counters
  \<open>AUTOINCREMENT\<close> keeps for them.  Each statement is one atomic step of \<open>sql_do\<close>: it may fail (a
  lock, a deadline, a full disk) and then changes nothing.  \<open>sql_env\<close> says which of the statements fail
  and what the clock shows when one is prepared.  What SQL does for the statements of the program is
  written out: \<open>WHERE id = ?\<close>, the sort orders, the foreign key with its \<open>ON DELETE SET NULL\<close>, and the
  order in which a query finds rows that its \<open>ORDER BY\<close> does not separate, which is an argument.
\<close>

section \<open>Rows and schedules\<close>

record sched_row =
  scID :: int
  scApp :: string
  scServices :: string
  scCron :: string
  scTimezone :: string
  scRetentionDays :: int
  scRetentionCount :: int
  scEnabled :: int
  scCreated :: string
  scUpdated :: string
  scLastRun :: "string option"
  scNextRun :: "string option"
  scLastStatus :: string
  scLastMessage :: string

record run_row =
  ruID :: int
  ruSchedule :: "int option"
  ruApp :: string
  ruServices :: string
  ruStatus :: string
  ruOutput :: string
  ruStarted :: string
  ruFinished :: "string option"

record db =
  dbColumns :: "string list"
  dbSchedules :: "sched_row list"
  dbRuns :: "run_row list"
  dbScheduleSeq :: int
  dbRunSeq :: int
  dbTick :: nat

record sql_env =
  sqFault :: "nat \<Rightarrow> error option"
  sqClock :: "nat \<Rightarrow> int"

record Schedule =
  shID :: int
  shAppName :: string
  shServices :: "string list"
  shCronExpr :: string
  shTimezone :: string
  shRetentionDays :: int
  shRetentionCount :: int
  shEnabled :: bool
  shCreatedAt :: int
  shUpdatedAt :: int
  shLastRunAt :: "int option"
  shNextRunAt :: "int option"
  shLastStatus :: string
  shLastMessage :: string

record ScheduleInput =
  siAppName :: string
  siServices :: "string list"
  siCronExpr :: string
  siTimezone :: string
  siRetentionDays :: int
  siRetentionCount :: int
  siEnabled :: bool

record Run =
  rnID :: int
  rnScheduleID :: "int option"
  rnAppName :: string
  rnServices :: "string list"
  rnStatus :: string
  rnOutput :: string
  rnStartedAt :: int
  rnFinishedAt :: "int option"

section \<open>Reading rows\<close>

definition joinServices :: "string list \<Rightarrow> string" where
  "joinServices ss = join '','' ss"

definition splitServices :: "string \<Rightarrow> string list" where
  "splitServices v = (if v = [] then [] else filter (\<lambda>p. p \<noteq> []) (map trim_space (split_on (CHR '','') v)))"

definition boolInt :: "bool \<Rightarrow> int" where
  "boolInt b = (if b then 1 else 0)"

definition parseTime :: "string \<Rightarrow> int" where
  "parseTime v = (case parse_rfc3339 v of None \<Rightarrow> zero_time | Some t \<Rightarrow> t)"

definition BriefOutput :: "string \<Rightarrow> string" where
  "BriefOutput out = (let t = trim_space out in if length t \<le> 300 then t else take 300 t @ ''...'')"

definition scanSchedule :: "sched_row \<Rightarrow> Schedule" where
  "scanSchedule r =
     \<lparr>shID = scID r, shAppName = scApp r, shServices = splitServices (scServices r), shCronExpr = scCron r,
      shTimezone = scTimezone r, shRetentionDays = scRetentionDays r, shRetentionCount = scRetentionCount r,
      shEnabled = (scEnabled r = 1), shCreatedAt = parseTime (scCreated r), shUpdatedAt = parseTime (scUpdated r),
      shLastRunAt = map_option parseTime (scLastRun r), shNextRunAt = map_option parseTime (scNextRun r),
      shLastStatus = scLastStatus r, shLastMessage = scLastMessage r\<rparr>"

definition scanRun :: "run_row \<Rightarrow> Run" where
  "scanRun r =
     \<lparr>rnID = ruID r, rnScheduleID = ruSchedule r, rnAppName = ruApp r, rnServices = splitServices (ruServices r),
      rnStatus = ruStatus r, rnOutput = ruOutput r, rnStartedAt = parseTime (ruStarted r),
      rnFinishedAt = map_option parseTime (ruFinished r)\<rparr>"

definition no_rows :: error where
  "no_rows = Error (Some ErrNoRows) ''sql: no rows in result set''"

definition requireAffected :: "nat \<Rightarrow> error option" where
  "requireAffected n = (if n = 0 then Some no_rows else None)"

definition IsNotFound :: "error \<Rightarrow> bool" where
  "IsNotFound e = (err_is e = Some ErrNoRows)"

section \<open>Statements\<close>

definition sql_do :: "sql_env \<Rightarrow> (db \<Rightarrow> 'a result \<times> db) \<Rightarrow> db \<Rightarrow> 'a result \<times> db" where
  "sql_do e stmt d =
     (let d1 = d\<lparr>dbTick := Suc (dbTick d)\<rparr> in
      case sqFault e (dbTick d) of Some er \<Rightarrow> (Inl er, d1) | None \<Rightarrow> stmt d1)"

definition sql_now :: "sql_env \<Rightarrow> db \<Rightarrow> string" where
  "sql_now e d = format_rfc3339 (sqClock e (dbTick d))"

definition max_rowid :: int where
  "max_rowid = 2 ^ 63 - 1"

definition sql_full :: error where
  "sql_full = errorf ''database or disk is full (13)''"

text \<open>\<open>UPDATE schedules SET ... WHERE id = ?\<close>: the number of rows it met.\<close>

definition update_schedules :: "(sched_row \<Rightarrow> sched_row) \<Rightarrow> int \<Rightarrow> db \<Rightarrow> nat result \<times> db" where
  "update_schedules f i d =
     (Inr (length (filter (\<lambda>r. scID r = i) (dbSchedules d))),
      d\<lparr>dbSchedules := map (\<lambda>r. if scID r = i then f r else r) (dbSchedules d)\<rparr>)"

definition update_runs :: "(run_row \<Rightarrow> run_row) \<Rightarrow> int \<Rightarrow> db \<Rightarrow> nat result \<times> db" where
  "update_runs f i d =
     (Inr (length (filter (\<lambda>r. ruID r = i) (dbRuns d))),
      d\<lparr>dbRuns := map (\<lambda>r. if ruID r = i then f r else r) (dbRuns d)\<rparr>)"

definition insert_schedule :: "(int \<Rightarrow> sched_row) \<Rightarrow> db \<Rightarrow> int result \<times> db" where
  "insert_schedule row d =
     (let i = dbScheduleSeq d + 1 in
      if max_rowid < i then (Inl sql_full, d)
      else (Inr i, d\<lparr>dbSchedules := dbSchedules d @ [row i], dbScheduleSeq := i\<rparr>))"

definition insert_run :: "(int \<Rightarrow> run_row) \<Rightarrow> db \<Rightarrow> int result \<times> db" where
  "insert_run row d =
     (let i = dbRunSeq d + 1 in
      if max_rowid < i then (Inl sql_full, d)
      else
        (case ruSchedule (row i) of
           Some s \<Rightarrow>
             (if s \<notin> scID ` set (dbSchedules d)
              then (Inl (errorf ''constraint failed: FOREIGN KEY constraint failed (787)''), d)
              else (Inr i, d\<lparr>dbRuns := dbRuns d @ [row i], dbRunSeq := i\<rparr>))
         | None \<Rightarrow> (Inr i, d\<lparr>dbRuns := dbRuns d @ [row i], dbRunSeq := i\<rparr>)))"

definition delete_schedules :: "int \<Rightarrow> db \<Rightarrow> nat result \<times> db" where
  "delete_schedules i d =
     (Inr (length (filter (\<lambda>r. scID r = i) (dbSchedules d))),
      d\<lparr>dbSchedules := filter (\<lambda>r. scID r \<noteq> i) (dbSchedules d),
        dbRuns := map (\<lambda>r. if ruSchedule r = Some i then r\<lparr>ruSchedule := None\<rparr> else r) (dbRuns d)\<rparr>)"

text \<open>The result of an \<open>Exec\<close> whose affected rows are checked, and of one whose are not.\<close>

definition exec_checked :: "nat result \<times> db \<Rightarrow> error option \<times> db" where
  "exec_checked x = (case x of (Inl e, d) \<Rightarrow> (Some e, d) | (Inr n, d) \<Rightarrow> (requireAffected n, d))"

definition exec_only :: "nat result \<times> db \<Rightarrow> error option \<times> db" where
  "exec_only x = (case x of (Inl e, d) \<Rightarrow> (Some e, d) | (Inr n, d) \<Rightarrow> (None, d))"

section \<open>Operations\<close>

definition GetSchedule :: "sql_env \<Rightarrow> int \<Rightarrow> db \<Rightarrow> Schedule result \<times> db" where
  "GetSchedule e i d =
     sql_do e (\<lambda>d. (case find (\<lambda>r. scID r = i) (dbSchedules d) of
                      None \<Rightarrow> Inl no_rows | Some r \<Rightarrow> Inr (scanSchedule r), d)) d"

definition new_schedule_row :: "ScheduleInput \<Rightarrow> string \<Rightarrow> int \<Rightarrow> sched_row" where
  "new_schedule_row input now i =
     \<lparr>scID = i, scApp = siAppName input, scServices = joinServices (siServices input), scCron = siCronExpr input,
      scTimezone = siTimezone input, scRetentionDays = siRetentionDays input,
      scRetentionCount = siRetentionCount input, scEnabled = boolInt (siEnabled input), scCreated = now,
      scUpdated = now, scLastRun = None, scNextRun = None, scLastStatus = [], scLastMessage = []\<rparr>"

definition CreateSchedule :: "sql_env \<Rightarrow> ScheduleInput \<Rightarrow> db \<Rightarrow> Schedule result \<times> db" where
  "CreateSchedule e input d =
     (case sql_do e (insert_schedule (new_schedule_row input (sql_now e d))) d of
        (Inl er, d1) \<Rightarrow> (Inl er, d1)
      | (Inr i, d1) \<Rightarrow> GetSchedule e i d1)"

definition ListSchedules :: "sql_env \<Rightarrow> db \<Rightarrow> Schedule list result \<times> db" where
  "ListSchedules e d =
     sql_do e (\<lambda>d. (Inr (map scanSchedule
       (sort_key (\<lambda>r. - scEnabled r) (sort_key (\<lambda>r. - scID r) (dbSchedules d)))), d)) d"

definition SetScheduleEnabled :: "sql_env \<Rightarrow> int \<Rightarrow> bool \<Rightarrow> db \<Rightarrow> error option \<times> db" where
  "SetScheduleEnabled e i enabled d =
     exec_checked (sql_do e (update_schedules
       (\<lambda>r. r\<lparr>scEnabled := boolInt enabled, scUpdated := sql_now e d\<rparr>) i) d)"

definition DeleteSchedule :: "sql_env \<Rightarrow> int \<Rightarrow> db \<Rightarrow> error option \<times> db" where
  "DeleteSchedule e i d = exec_checked (sql_do e (delete_schedules i) d)"

definition UpdateNextRun :: "sql_env \<Rightarrow> int \<Rightarrow> int \<Rightarrow> db \<Rightarrow> error option \<times> db" where
  "UpdateNextRun e i next_at d =
     exec_only (sql_do e (update_schedules
       (\<lambda>r. r\<lparr>scNextRun := Some (format_rfc3339 next_at), scUpdated := sql_now e d\<rparr>) i) d)"

definition MarkScheduleRun :: "sql_env \<Rightarrow> int \<Rightarrow> string \<Rightarrow> string \<Rightarrow> int \<Rightarrow> db \<Rightarrow> error option \<times> db" where
  "MarkScheduleRun e i st message ranAt d =
     exec_only (sql_do e (update_schedules
       (\<lambda>r. r\<lparr>scLastRun := Some (format_rfc3339 ranAt), scLastStatus := st, scLastMessage := message,
              scUpdated := sql_now e d\<rparr>) i) d)"

definition new_run_row :: "int option \<Rightarrow> string \<Rightarrow> string list \<Rightarrow> string \<Rightarrow> int \<Rightarrow> run_row" where
  "new_run_row schedule app services started i =
     \<lparr>ruID = i, ruSchedule = schedule, ruApp = app, ruServices = joinServices services, ruStatus = ''running'',
      ruOutput = [], ruStarted = started, ruFinished = None\<rparr>"

definition StartRun :: "sql_env \<Rightarrow> int option \<Rightarrow> string \<Rightarrow> string list \<Rightarrow> db \<Rightarrow> int result \<times> db" where
  "StartRun e schedule app services d =
     sql_do e (insert_run (new_run_row schedule app services (sql_now e d))) d"

definition FinishRun :: "sql_env \<Rightarrow> int \<Rightarrow> string \<Rightarrow> string \<Rightarrow> db \<Rightarrow> error option \<times> db" where
  "FinishRun e i st out d =
     exec_checked (sql_do e (update_runs
       (\<lambda>r. r\<lparr>ruStatus := st, ruOutput := out, ruFinished := Some (sql_now e d)\<rparr>) i) d)"

text \<open>\<open>ORDER BY started_at DESC\<close> compares texts; \<open>scan\<close> is the order in which the engine meets the rows.\<close>

definition newest_runs :: "run_row list \<Rightarrow> run_row list" where
  "newest_runs rs = rev (sort_key ruStarted (rev rs))"

definition run_limit :: "int \<Rightarrow> nat" where
  "run_limit limit = (if limit \<le> 0 \<or> 200 < limit then 50 else nat limit)"

definition ListRuns :: "sql_env \<Rightarrow> (run_row list \<Rightarrow> run_row list) \<Rightarrow> int \<Rightarrow> db \<Rightarrow> Run list result \<times> db" where
  "ListRuns e scan limit d =
     sql_do e (\<lambda>d. (Inr (map scanRun (take (run_limit limit) (newest_runs (scan (dbRuns d))))), d)) d"

section \<open>Opening the database\<close>

definition base_columns :: "string list" where
  "base_columns = [''id'', ''app_name'', ''services'', ''cron_expr'', ''timezone'', ''enabled'', ''created_at'',
     ''updated_at'', ''last_run_at'', ''next_run_at'', ''last_status'', ''last_message'']"

text \<open>A query of the table's columns, then, when the column is missing, the statement that adds it with its
  default in every row.\<close>

definition addScheduleColumn :: "sql_env \<Rightarrow> string \<Rightarrow> (sched_row \<Rightarrow> sched_row) \<Rightarrow> db \<Rightarrow> error option \<times> db" where
  "addScheduleColumn e name fill d =
     (case sql_do e (\<lambda>d. (Inr (dbColumns d), d)) d of
        (Inl er, d1) \<Rightarrow> (Some er, d1)
      | (Inr columns, d1) \<Rightarrow>
          (if name \<in> set columns then (None, d1)
           else
             (case sql_do e (\<lambda>d. (Inr (), d\<lparr>dbColumns := dbColumns d @ [name],
                                   dbSchedules := map fill (dbSchedules d)\<rparr>)) d1 of
                (Inl er, d2) \<Rightarrow> (Some er, d2)
              | (Inr _, d2) \<Rightarrow> (None, d2))))"

definition create_tables :: "db \<Rightarrow> unit result \<times> db" where
  "create_tables d = (Inr (), if dbColumns d = [] then d\<lparr>dbColumns := base_columns\<rparr> else d)"

definition migrate :: "sql_env \<Rightarrow> db \<Rightarrow> error option \<times> db" where
  "migrate e d =
     (case sql_do e create_tables d of
        (Inl er, d1) \<Rightarrow> (Some er, d1)
      | (Inr _, d1) \<Rightarrow>
          (case addScheduleColumn e ''retention_days'' (\<lambda>r. r\<lparr>scRetentionDays := 30\<rparr>) d1 of
             (Some er, d2) \<Rightarrow> (Some er, d2)
           | (None, d2) \<Rightarrow> addScheduleColumn e ''retention_count'' (\<lambda>r. r\<lparr>scRetentionCount := 0\<rparr>) d2))"

text \<open>\<open>OpenStore\<close>: the directory, then the tables.  \<open>sql.Open\<close> only reads the name.\<close>

definition OpenStore ::
  "'d host \<Rightarrow> sql_env \<Rightarrow> string \<Rightarrow> 'd world \<Rightarrow> db \<Rightarrow> error option \<times> 'd world \<times> db" where
  "OpenStore h e path w d =
     (case mkdir_all h (path_dir path) w of
        (Some er, w1) \<Rightarrow> (Some er, w1, d)
      | (None, w1) \<Rightarrow> (case migrate e d of (r, d1) \<Rightarrow> (r, w1, d1)))"

section \<open>The invariant of the tables\<close>

definition schedule_ids :: "db \<Rightarrow> int set" where
  "schedule_ids d = scID ` set (dbSchedules d)"

definition run_ids :: "db \<Rightarrow> int set" where
  "run_ids d = ruID ` set (dbRuns d)"

text \<open>Keys are unique and were handed out by the counters, a run refers to a schedule that exists or to
  none, and the flag is a flag.\<close>

definition db_ok :: "db \<Rightarrow> bool" where
  "db_ok d =
     (distinct (map scID (dbSchedules d)) \<and> schedule_ids d \<subseteq> {0<..dbScheduleSeq d}
      \<and> distinct (map ruID (dbRuns d)) \<and> run_ids d \<subseteq> {0<..dbRunSeq d}
      \<and> (\<forall>r \<in> set (dbRuns d). ruSchedule r = None \<or> (\<exists>i \<in> schedule_ids d. ruSchedule r = Some i))
      \<and> (\<forall>r \<in> set (dbSchedules d). scEnabled r \<in> {0, 1})
      \<and> 0 \<le> dbScheduleSeq d \<and> dbScheduleSeq d \<le> max_rowid \<and> 0 \<le> dbRunSeq d \<and> dbRunSeq d \<le> max_rowid)"

text \<open>A step hands out only keys that were never used, and loses no run.\<close>

definition grows :: "db \<Rightarrow> db \<Rightarrow> bool" where
  "grows d d' =
     (dbScheduleSeq d \<le> dbScheduleSeq d' \<and> schedule_ids d' \<subseteq> schedule_ids d \<union> {dbScheduleSeq d<..}
      \<and> run_ids d \<subseteq> run_ids d' \<and> dbRunSeq d \<le> dbRunSeq d' \<and> run_ids d' \<subseteq> run_ids d \<union> {dbRunSeq d<..})"

section \<open>The abstract book of schedules\<close>

text \<open>
  What the table of schedules is for: a book of plans under keys that are handed out once.  A plan is added under
  the next key, enabled or disabled, or struck out; nothing else ever happens to it.
\<close>

record book =
  bkNext :: int
  bkPlans :: "int \<rightharpoonup> ScheduleInput"

inductive book_step :: "book \<Rightarrow> book \<Rightarrow> bool" where
  add: "book_step b (b\<lparr>bkNext := bkNext b + 1, bkPlans := (bkPlans b)(bkNext b + 1 \<mapsto> p)\<rparr>)"
| enable: "bkPlans b i = Some p \<Longrightarrow> book_step b (b\<lparr>bkPlans := (bkPlans b)(i \<mapsto> p\<lparr>siEnabled := x\<rparr>)\<rparr>)"
| strike: "book_step b (b\<lparr>bkPlans := (bkPlans b)(i := None)\<rparr>)"

text \<open>Seen from any point: of the keys handed out so far none comes back with another plan.\<close>

definition same_plans :: "book \<Rightarrow> book \<Rightarrow> bool" where
  "same_plans b b' =
     (bkNext b \<le> bkNext b'
      \<and> (\<forall>i p. i \<le> bkNext b \<and> bkPlans b' i = Some p
           \<longrightarrow> (\<exists>x. map_option (\<lambda>q. q\<lparr>siEnabled := x\<rparr>) (bkPlans b i) = Some p)))"

lemma same_plans_refl [simp]: "same_plans b b"
proof -
  have "map_option (\<lambda>q. q\<lparr>siEnabled := siEnabled p\<rparr>) (Some p) = Some p" for p :: ScheduleInput by simp
  then show ?thesis unfolding same_plans_def by (metis order_refl)
qed

lemma same_plans_step: "book_step b' b'' \<Longrightarrow> same_plans b b' \<Longrightarrow> same_plans b b''"
  by (induction rule: book_step.induct) (fastforce simp: same_plans_def)+

definition plan_of :: "sched_row \<Rightarrow> ScheduleInput" where
  "plan_of r =
     \<lparr>siAppName = scApp r, siServices = splitServices (scServices r), siCronExpr = scCron r, siTimezone = scTimezone r,
      siRetentionDays = scRetentionDays r, siRetentionCount = scRetentionCount r, siEnabled = (scEnabled r = 1)\<rparr>"

definition plans :: "sched_row list \<Rightarrow> (int \<rightharpoonup> ScheduleInput)" where
  "plans rs = map_of (map (\<lambda>r. (scID r, plan_of r)) rs)"

definition book_of :: "db \<Rightarrow> book" where
  "book_of d = \<lparr>bkNext = dbScheduleSeq d, bkPlans = plans (dbSchedules d)\<rparr>"

lemma plans_update:
  assumes "\<And>r. scID (f r) = scID r" "\<And>r. plan_of (f r) = (plan_of r)\<lparr>siEnabled := g (siEnabled (plan_of r))\<rparr>"
  shows "plans (map (\<lambda>r. if scID r = i then f r else r) rs)
    = (case plans rs i of None \<Rightarrow> plans rs | Some p \<Rightarrow> (plans rs)(i \<mapsto> p\<lparr>siEnabled := g (siEnabled p)\<rparr>))"
  by (induction rs) (auto simp: plans_def assms fun_eq_iff split: option.splits)

lemma plans_remove: "plans (filter (\<lambda>r. scID r \<noteq> i) rs) = (plans rs)(i := None)"
  by (induction rs) (auto simp: plans_def fun_eq_iff)

lemma plans_snoc: "scID r \<notin> scID ` set rs \<Longrightarrow> plans (rs @ [r]) = (plans rs)(scID r \<mapsto> plan_of r)"
  by (induction rs) (auto simp: plans_def fun_eq_iff)

lemma book_of_same [simp]:
  "book_of (d\<lparr>dbTick := t\<rparr>) = book_of d" "book_of (d\<lparr>dbRuns := rs\<rparr>) = book_of d" "book_of (d\<lparr>dbRunSeq := n\<rparr>) = book_of d"
  by (simp_all add: book_of_def)

section \<open>What every statement keeps\<close>

definition sound :: "db \<Rightarrow> db \<Rightarrow> bool" where
  "sound d d' = ((db_ok d \<longrightarrow> db_ok d') \<and> grows d d')"

definition keeps :: "db \<Rightarrow> db \<Rightarrow> bool" where
  "keeps d d' = ((db_ok d \<longrightarrow> db_ok d' \<and> book_step\<^sup>*\<^sup>* (book_of d) (book_of d')) \<and> grows d d')"

lemma grows_trans: "grows d d' \<Longrightarrow> grows d' d'' \<Longrightarrow> grows d d''"
  unfolding grows_def by (elim conjE, intro conjI) (linarith | force)+

lemma keeps_refl [simp]: "keeps d d"
  by (simp add: keeps_def grows_def)

lemma keeps_trans [trans]: "keeps d d' \<Longrightarrow> keeps d' d'' \<Longrightarrow> keeps d d''"
  unfolding keeps_def using grows_trans by (metis rtranclp_trans)

lemma sound_trans [trans]: "sound d d' \<Longrightarrow> sound d' d'' \<Longrightarrow> sound d d''"
  unfolding sound_def using grows_trans by blast

lemma keeps_sound: "keeps d d' \<Longrightarrow> sound d d'"
  by (simp add: keeps_def sound_def)

lemma keeps_ok: "keeps d d' \<Longrightarrow> db_ok d \<Longrightarrow> db_ok d'"
  by (simp add: keeps_def)

lemma keepsI: "sound d d' \<Longrightarrow> (db_ok d \<Longrightarrow> book_step\<^sup>*\<^sup>* (book_of d) (book_of d')) \<Longrightarrow> keeps d d'"
  by (simp add: keeps_def sound_def)

lemma tick_sel [simp]:
  "schedule_ids (d\<lparr>dbTick := t\<rparr>) = schedule_ids d" "run_ids (d\<lparr>dbTick := t\<rparr>) = run_ids d"
  by (simp_all add: schedule_ids_def run_ids_def)

lemma db_ok_tick [simp]: "db_ok (d\<lparr>dbTick := t\<rparr>) = db_ok d"
  by (simp add: db_ok_def)

lemma keeps_tick [simp]: "keeps (d\<lparr>dbTick := t\<rparr>) d' = keeps d d'" "keeps d (d'\<lparr>dbTick := t\<rparr>) = keeps d d'"
  by (simp_all add: keeps_def grows_def)

lemma sql_do_keeps:
  assumes "sql_do e stmt d = (r, d')" "\<And>d r d'. stmt d = (r, d') \<Longrightarrow> keeps d d'"
  shows "keeps d d'"
  using assms(1) assms(2) [of "d\<lparr>dbTick := Suc (dbTick d)\<rparr>" r d']
  by (auto simp: sql_do_def Let_def split: option.splits)

lemma update_schedules_keeps:
  assumes "update_schedules f i d = (r, d')" "\<And>r. scID (f r) = scID r" "\<And>r. scEnabled r \<in> {0, 1} \<Longrightarrow> scEnabled (f r) \<in> {0, 1}"
    "\<And>r. plan_of (f r) = (plan_of r)\<lparr>siEnabled := g (siEnabled (plan_of r))\<rparr>"
  shows "keeps d d'"
proof -
  have d': "d' = d\<lparr>dbSchedules := map (\<lambda>r. if scID r = i then f r else r) (dbSchedules d)\<rparr>"
    using assms(1) by (auto simp: update_schedules_def)
  have m: "map scID (dbSchedules d') = map scID (dbSchedules d)" using assms(2) by (simp add: d')
  then have ids: "schedule_ids d' = schedule_ids d" unfolding schedule_ids_def by (metis set_map)
  have same: "dbRuns d' = dbRuns d" "dbRunSeq d' = dbRunSeq d" "dbScheduleSeq d' = dbScheduleSeq d"
    by (simp_all add: d')
  have flag: "\<forall>r \<in> set (dbSchedules d'). scEnabled r \<in> {0, 1}" if "\<forall>r \<in> set (dbSchedules d). scEnabled r \<in> {0, 1}"
    using that assms(3) unfolding d' by fastforce
  have "book_of d' = book_of d \<or> book_step (book_of d) (book_of d')"
    using plans_update [of f g i "dbSchedules d", OF assms(2,4)] book_step.enable [of "book_of d" i]
    by (auto simp: book_of_def d' split: option.splits)
  moreover have "sound d d'" using flag unfolding sound_def grows_def db_ok_def run_ids_def m ids same by auto
  ultimately show ?thesis by (auto intro!: keepsI)
qed

lemma update_runs_keeps:
  assumes "update_runs f i d = (r, d')" "\<And>r. ruID (f r) = ruID r" "\<And>r. ruSchedule (f r) = ruSchedule r"
  shows "keeps d d'"
proof -
  have d': "d' = d\<lparr>dbRuns := map (\<lambda>r. if ruID r = i then f r else r) (dbRuns d)\<rparr>"
    using assms(1) by (auto simp: update_runs_def)
  have m: "map ruID (dbRuns d') = map ruID (dbRuns d)" using assms(2) by (simp add: d')
  then have ids: "run_ids d' = run_ids d" unfolding run_ids_def by (metis set_map)
  have same: "dbSchedules d' = dbSchedules d" "dbRunSeq d' = dbRunSeq d" "dbScheduleSeq d' = dbScheduleSeq d"
    by (simp_all add: d')
  have "map ruSchedule (dbRuns d') = map ruSchedule (dbRuns d)" using assms(3) by (simp add: d')
  then have refs: "ruSchedule ` set (dbRuns d') = ruSchedule ` set (dbRuns d)" by (metis set_map)
  have eq: "(\<forall>r \<in> set (dbRuns d'). P (ruSchedule r)) = (\<forall>r \<in> set (dbRuns d). P (ruSchedule r))" for P
    using refs by (metis (mono_tags, lifting) image_iff)
  have ids2: "schedule_ids d' = schedule_ids d" by (simp add: schedule_ids_def same)
  have "sound d d'"
    unfolding sound_def grows_def db_ok_def m ids ids2 same
      eq [of "\<lambda>x. x = None \<or> (\<exists>i \<in> schedule_ids d. x = Some i)"] by simp
  then show ?thesis by (rule keepsI) (simp add: d')
qed

lemma insert_schedule_keeps:
  assumes "insert_schedule row d = (r, d')" "\<And>i. scID (row i) = i" "\<And>i. scEnabled (row i) \<in> {0, 1}"
  shows "keeps d d'"
proof (cases "max_rowid < dbScheduleSeq d + 1")
  case True
  with assms(1) show ?thesis by (simp add: insert_schedule_def Let_def)
next
  case False
  let ?i = "dbScheduleSeq d + 1"
  have d': "d' = d\<lparr>dbSchedules := dbSchedules d @ [row ?i], dbScheduleSeq := ?i\<rparr>"
    using assms(1) False by (auto simp: insert_schedule_def Let_def)
  have ids: "schedule_ids d' = insert ?i (schedule_ids d)" using assms(2) by (auto simp: schedule_ids_def d')
  have new: "?i \<notin> schedule_ids d" if "db_ok d" using that by (auto simp: db_ok_def)
  have "db_ok d \<Longrightarrow> db_ok d'"
    using False ids new assms(2,3) [of ?i]
    by (fastforce simp: db_ok_def d' schedule_ids_def run_ids_def)
  moreover have "grows d d'" using ids by (auto simp: grows_def d' run_ids_def)
  moreover have "book_step (book_of d) (book_of d')" if "db_ok d"
    using book_step.add [of "book_of d" "plan_of (row ?i)"] new [OF that] plans_snoc [of "row ?i" "dbSchedules d"]
    by (simp add: book_of_def d' assms(2) schedule_ids_def)
  ultimately show ?thesis by (auto simp: keeps_def)
qed

lemma insert_run_keeps:
  assumes "insert_run row d = (r, d')" "\<And>i. ruID (row i) = i"
  shows "keeps d d'"
proof (cases "d' = d")
  case False
  let ?i = "dbRunSeq d + 1"
  have d': "d' = d\<lparr>dbRuns := dbRuns d @ [row ?i], dbRunSeq := ?i\<rparr>" "?i \<le> max_rowid"
    "ruSchedule (row ?i) = None \<or> (\<exists>s \<in> schedule_ids d. ruSchedule (row ?i) = Some s)"
    using assms(1) False
    by (auto simp: insert_run_def Let_def schedule_ids_def split: option.splits if_splits)
  have ids: "run_ids d' = insert ?i (run_ids d)" using assms(2) by (auto simp: run_ids_def d'(1))
  have new: "?i \<notin> run_ids d" if "db_ok d" using that by (auto simp: db_ok_def)
  have "db_ok d \<Longrightarrow> db_ok d'"
    using ids new d'(2,3) assms(2) [of ?i]
    by (fastforce simp: db_ok_def d'(1) schedule_ids_def run_ids_def)
  moreover have "grows d d'" using ids by (auto simp: grows_def d'(1) schedule_ids_def)
  ultimately show ?thesis by (simp add: keeps_def d'(1))
qed simp

lemma delete_schedules_keeps:
  assumes "delete_schedules i d = (r, d')"
  shows "keeps d d'"
proof -
  have d': "d' = d\<lparr>dbSchedules := filter (\<lambda>r. scID r \<noteq> i) (dbSchedules d),
      dbRuns := map (\<lambda>r. if ruSchedule r = Some i then r\<lparr>ruSchedule := None\<rparr> else r) (dbRuns d)\<rparr>"
    using assms by (auto simp: delete_schedules_def)
  have m: "map ruID (dbRuns d') = map ruID (dbRuns d)" by (simp add: d')
  then have runs: "run_ids d' = run_ids d" unfolding run_ids_def by (metis set_map)
  have ids: "schedule_ids d' = schedule_ids d - {i}" by (auto simp: schedule_ids_def d')
  have same: "dbRunSeq d' = dbRunSeq d" "dbScheduleSeq d' = dbScheduleSeq d" by (simp_all add: d')
  have "db_ok d'" if ok: "db_ok d"
  proof -
    have "distinct (map scID (dbSchedules d'))"
      using ok by (auto simp: db_ok_def d' distinct_map inj_on_def)
    moreover have "\<forall>r \<in> set (dbRuns d'). ruSchedule r = None \<or> (\<exists>i \<in> schedule_ids d'. ruSchedule r = Some i)"
      using ok unfolding ids by (auto simp: db_ok_def d')
    moreover have "\<forall>r \<in> set (dbSchedules d'). scEnabled r \<in> {0, 1}" using ok by (auto simp: db_ok_def d')
    moreover have "schedule_ids d' \<subseteq> {0<..dbScheduleSeq d}" using ok ids by (auto simp: db_ok_def)
    ultimately show ?thesis using ok unfolding db_ok_def m runs same by blast
  qed
  moreover have "grows d d'" using ids runs same by (auto simp: grows_def)
  moreover have "book_step (book_of d) (book_of d')"
    using book_step.strike [of "book_of d" i] by (simp add: book_of_def d' plans_remove)
  ultimately show ?thesis by (auto simp: keeps_def)
qed

lemma exec_keeps:
  "exec_checked x = (r, d') \<Longrightarrow> \<exists>y. x = (y, d')" "exec_only x = (r, d') \<Longrightarrow> \<exists>y. x = (y, d')"
  by (auto simp: exec_checked_def exec_only_def split: prod.splits sum.splits)

lemma GetSchedule_keeps: "GetSchedule e i d = (r, d') \<Longrightarrow> keeps d d'"
  unfolding GetSchedule_def by (erule sql_do_keeps) auto

lemma CreateSchedule_keeps: "CreateSchedule e input d = (r, d') \<Longrightarrow> keeps d d'"
proof -
  assume a: "CreateSchedule e input d = (r, d')"
  obtain x d1 where 1: "sql_do e (insert_schedule (new_schedule_row input (sql_now e d))) d = (x, d1)" by fastforce
  have "keeps d d1"
    by (rule sql_do_keeps [OF 1], erule insert_schedule_keeps) (simp_all add: new_schedule_row_def boolInt_def)
  with a 1 show ?thesis
    by (auto simp: CreateSchedule_def split: sum.splits dest: GetSchedule_keeps intro: keeps_trans)
qed

lemma ListSchedules_keeps: "ListSchedules e d = (r, d') \<Longrightarrow> keeps d d'"
  unfolding ListSchedules_def by (erule sql_do_keeps) auto

lemma SetScheduleEnabled_keeps: "SetScheduleEnabled e i b d = (r, d') \<Longrightarrow> keeps d d'"
  unfolding SetScheduleEnabled_def
  by (drule exec_keeps(1), elim exE, erule sql_do_keeps, erule update_schedules_keeps [where g = "\<lambda>_. b"])
    (simp_all add: boolInt_def plan_of_def)

lemma DeleteSchedule_keeps: "DeleteSchedule e i d = (r, d') \<Longrightarrow> keeps d d'"
  unfolding DeleteSchedule_def
  by (drule exec_keeps(1), elim exE, erule sql_do_keeps, erule delete_schedules_keeps)

lemma UpdateNextRun_keeps: "UpdateNextRun e i t d = (r, d') \<Longrightarrow> keeps d d'"
  unfolding UpdateNextRun_def
  by (drule exec_keeps(2), elim exE, erule sql_do_keeps, erule update_schedules_keeps [where g = id])
    (simp_all add: plan_of_def)

lemma MarkScheduleRun_keeps: "MarkScheduleRun e i st m t d = (r, d') \<Longrightarrow> keeps d d'"
  unfolding MarkScheduleRun_def
  by (drule exec_keeps(2), elim exE, erule sql_do_keeps, erule update_schedules_keeps [where g = id])
    (simp_all add: plan_of_def)

lemma StartRun_keeps: "StartRun e s app svcs d = (r, d') \<Longrightarrow> keeps d d'"
  unfolding StartRun_def
  by (erule sql_do_keeps, erule insert_run_keeps) (simp add: new_run_row_def)

lemma FinishRun_keeps: "FinishRun e i st out d = (r, d') \<Longrightarrow> keeps d d'"
  unfolding FinishRun_def
  by (drule exec_keeps(1), elim exE, erule sql_do_keeps, erule update_runs_keeps) simp_all

lemma ListRuns_keeps: "ListRuns e scan limit d = (r, d') \<Longrightarrow> keeps d d'"
  unfolding ListRuns_def by (erule sql_do_keeps) auto

section \<open>Sequences of statements\<close>

text \<open>Anything the program does to the database after opening it.\<close>

inductive store_step :: "sql_env \<Rightarrow> db \<Rightarrow> db \<Rightarrow> bool" for e where
  get: "GetSchedule e i d = (r, d') \<Longrightarrow> store_step e d d'"
| create: "CreateSchedule e input d = (r, d') \<Longrightarrow> store_step e d d'"
| list_schedules: "ListSchedules e d = (rs, d') \<Longrightarrow> store_step e d d'"
| enable: "SetScheduleEnabled e i b d = (x, d') \<Longrightarrow> store_step e d d'"
| delete: "DeleteSchedule e i d = (x, d') \<Longrightarrow> store_step e d d'"
| next_run: "UpdateNextRun e i t d = (x, d') \<Longrightarrow> store_step e d d'"
| mark_run: "MarkScheduleRun e i st m t d = (x, d') \<Longrightarrow> store_step e d d'"
| start: "StartRun e s app svcs d = (n, d') \<Longrightarrow> store_step e d d'"
| finish: "FinishRun e i st out d = (x, d') \<Longrightarrow> store_step e d d'"
| list_runs: "ListRuns e scan limit d = (runs, d') \<Longrightarrow> store_step e d d'"

lemmas store_keeps =
  GetSchedule_keeps CreateSchedule_keeps ListSchedules_keeps SetScheduleEnabled_keeps DeleteSchedule_keeps
  UpdateNextRun_keeps MarkScheduleRun_keeps StartRun_keeps FinishRun_keeps ListRuns_keeps

lemma store_step_keeps: "store_step e d d' \<Longrightarrow> keeps d d'"
  by (induction rule: store_step.induct) (rule store_keeps, assumption)+

lemma row_of_plan: "plans rs i = Some p \<Longrightarrow> \<exists>r \<in> set rs. scID r = i \<and> plan_of r = p"
  by (auto simp: plans_def dest!: map_of_SomeD)

lemma plans_row: "db_ok d \<Longrightarrow> r \<in> set (dbSchedules d) \<Longrightarrow> plans (dbSchedules d) (scID r) = Some (plan_of r)"
  unfolding plans_def by (rule map_of_is_SomeI) (auto simp: db_ok_def comp_def)

text \<open>So the statements implement the book.\<close>

interpretation statements: simulation "store_step e" book_step book_of db_ok for e
  by unfold_locales (auto simp: keeps_def dest: store_step_keeps)

lemma store_steps_keep: "(store_step e)\<^sup>*\<^sup>* d d' \<Longrightarrow> keeps d d'"
  by (induction rule: rtranclp_induct) (auto intro: keeps_trans store_step_keeps)

text \<open>The database of a program started for the first time.\<close>

definition fresh_db :: db where
  "fresh_db = \<lparr>dbColumns = [], dbSchedules = [], dbRuns = [], dbScheduleSeq = 0, dbRunSeq = 0, dbTick = 0\<rparr>"

lemma fresh_ok [simp]: "db_ok fresh_db"
  by (simp add: db_ok_def fresh_db_def schedule_ids_def run_ids_def max_rowid_def)

section \<open>Services as a column\<close>

definition service_word :: "string \<Rightarrow> bool" where
  "service_word s = (s \<noteq> [] \<and> CHR '','' \<notin> set s \<and> trim_space s = s)"

lemma split_joinServices:
  assumes "list_all service_word ss"
  shows "splitServices (joinServices ss) = ss"
proof (cases "ss = []")
  case False
  then have "join '','' ss \<noteq> []"
    using assms by (cases ss; cases "tl ss") (auto simp: service_word_def join_Cons)
  moreover have "split_on (CHR '','') (join '','' ss) = ss"
    using assms False by (intro split_on_join) (auto simp: service_word_def list_all_iff)
  moreover have "map trim_space ss = ss" "filter (\<lambda>p. p \<noteq> []) ss = ss"
    using assms by (induction ss) (auto simp: service_word_def)
  ultimately show ?thesis by (simp add: splitServices_def joinServices_def)
qed (simp add: splitServices_def joinServices_def)

section \<open>Finding a row\<close>

lemma find_distinct:
  "distinct (map f xs) \<Longrightarrow> x \<in> set xs \<Longrightarrow> find (\<lambda>y. f y = f x) xs = Some x"
  by (induction xs) auto

lemma find_append_absent: "k \<notin> f ` set xs \<Longrightarrow> find (\<lambda>y. f y = k) (xs @ ys) = find (\<lambda>y. f y = k) ys"
  by (induction xs) auto

lemma filter_key_length: "distinct (map f xs) \<Longrightarrow> length (filter (\<lambda>y. f y = k) xs) = (if k \<in> f ` set xs then 1 else 0)"
proof (induction xs)
  case (Cons x xs)
  have "k \<notin> f ` set xs \<Longrightarrow> filter (\<lambda>y. f y = k) xs = []" by (auto simp: filter_empty_conv)
  with Cons show ?case by auto
qed simp

section \<open>Properties\<close>

text \<open>Whatever statements run, and whichever of them fail, the tables stay consistent: keys are unique and
  come from the counters, runs refer to schedules that exist, the key of a deleted schedule is never
  given out again, and no run is ever lost.\<close>

theorem store_invariant:
  assumes "(store_step e)\<^sup>*\<^sup>* d d'" "db_ok d"
  shows "db_ok d' \<and> grows d d'"
  using store_steps_keep [OF assms(1)] assms(2) by (simp add: keeps_def)

definition demo_env :: sql_env where
  "demo_env = \<lparr>sqFault = (\<lambda>_. None), sqClock = (\<lambda>_. 0)\<rparr>"

definition demo_input :: ScheduleInput where
  "demo_input = \<lparr>siAppName = ''shop'', siServices = [''postgres'', ''redis''], siCronExpr = ''@daily'',
     siTimezone = ''UTC'', siRetentionDays = 30, siRetentionCount = 5, siEnabled = True\<rparr>"

theorem store_invariant_witness:
  "db_ok (snd (DeleteSchedule demo_env 1 (snd (StartRun demo_env (Some 1) ''shop'' []
     (snd (CreateSchedule demo_env demo_input fresh_db))))))"
proof -
  obtain r1 d1 where 1: "CreateSchedule demo_env demo_input fresh_db = (r1, d1)" by fastforce
  obtain r2 d2 where 2: "StartRun demo_env (Some 1) ''shop'' [] d1 = (r2, d2)" by fastforce
  obtain r3 d3 where 3: "DeleteSchedule demo_env 1 d2 = (r3, d3)" by fastforce
  have "(store_step demo_env)\<^sup>*\<^sup>* fresh_db d3"
    by (rule rtranclp.rtrancl_into_rtrancl [OF rtranclp.rtrancl_into_rtrancl
        [OF r_into_rtranclp [of "store_step demo_env", OF store_step.create [OF 1]] store_step.start [OF 2]]
        store_step.delete [OF 3]])
  from store_invariant [OF this] 1 2 3 show ?thesis by simp
qed

lemma created_row:
  assumes "CreateSchedule e input d = (Inr s, d')" "db_ok d" "list_all service_word (siServices input)"
  shows "(\<exists>row. dbSchedules d' = dbSchedules d @ [row] \<and> scanSchedule row = s \<and> scID row \<notin> schedule_ids d)
    \<and> dbRuns d' = dbRuns d \<and> shID s = dbScheduleSeq d + 1 \<and> shAppName s = siAppName input
    \<and> shServices s = siServices input \<and> shCronExpr s = siCronExpr input \<and> shTimezone s = siTimezone input
    \<and> shRetentionDays s = siRetentionDays input \<and> shRetentionCount s = siRetentionCount input
    \<and> shEnabled s = siEnabled input \<and> shLastRunAt s = None \<and> shNextRunAt s = None"
proof -
  let ?i = "dbScheduleSeq d + 1" and ?row = "new_schedule_row input (sql_now e d) (dbScheduleSeq d + 1)"
  have new: "?i \<notin> schedule_ids d" using assms(2) by (auto simp: db_ok_def)
  then have f: "find (\<lambda>r. scID r = ?i) (dbSchedules d @ [?row]) = Some ?row"
    using find_append_absent [of ?i scID "dbSchedules d" "[?row]"]
    by (simp add: schedule_ids_def new_schedule_row_def)
  have s: "s = scanSchedule ?row" "dbSchedules d' = dbSchedules d @ [?row]" "dbRuns d' = dbRuns d"
    using assms(1) f
    by (auto simp: CreateSchedule_def GetSchedule_def sql_do_def insert_schedule_def Let_def
        split: option.splits if_splits)
  then show ?thesis
    using new split_joinServices [OF assms(3)]
    by (auto simp: scanSchedule_def new_schedule_row_def boolInt_def)
qed

text \<open>C21: a created schedule gets a key no schedule had, is stored as one more row, and comes back with the
  fields of its input, its services among them, enabled or not as asked and never run.\<close>

theorem create_then_get:
  assumes "CreateSchedule e input d = (Inr s, d')" "db_ok d" "list_all service_word (siServices input)"
  shows "(\<exists>row. dbSchedules d' = dbSchedules d @ [row] \<and> scanSchedule row = s \<and> scID row \<notin> schedule_ids d)
    \<and> dbRuns d' = dbRuns d \<and> shID s = dbScheduleSeq d + 1 \<and> shAppName s = siAppName input
    \<and> shServices s = siServices input \<and> shCronExpr s = siCronExpr input \<and> shTimezone s = siTimezone input
    \<and> shRetentionDays s = siRetentionDays input \<and> shRetentionCount s = siRetentionCount input
    \<and> shEnabled s = siEnabled input \<and> shLastRunAt s = None \<and> shNextRunAt s = None"
  by (rule created_row [OF assms])

theorem create_then_get_witness:
  "\<exists>s d'. CreateSchedule demo_env demo_input fresh_db = (Inr s, d') \<and> shID s = 1
     \<and> shServices s = [''postgres'', ''redis''] \<and> shEnabled s"
proof -
  obtain s d' where c: "CreateSchedule demo_env demo_input fresh_db = (Inr s, d')"
    by (simp add: CreateSchedule_def GetSchedule_def sql_do_def insert_schedule_def Let_def demo_env_def fresh_db_def
        max_rowid_def new_schedule_row_def)
  have "list_all service_word (siServices demo_input)"
    by (simp add: demo_input_def service_word_def trim_space_name char_class_defs)
  from create_then_get [OF c fresh_ok this] c show ?thesis by (simp add: demo_input_def fresh_db_def)
qed

text \<open>C22: deleting a schedule succeeds exactly when the statement runs and the schedule is there; then it is the
  only one that goes, and its runs stay in the history without a schedule.  Otherwise nothing changes,
  and a missing schedule is reported as not found.\<close>

theorem delete_schedule_spec:
  assumes "DeleteSchedule e i d = (r, d')" "db_ok d"
  shows "(r = None \<longleftrightarrow> sqFault e (dbTick d) = None \<and> i \<in> schedule_ids d)
    \<and> (r = None \<longrightarrow> dbSchedules d' = filter (\<lambda>s. scID s \<noteq> i) (dbSchedules d)
        \<and> map (\<lambda>x. x\<lparr>ruSchedule := None\<rparr>) (dbRuns d') = map (\<lambda>x. x\<lparr>ruSchedule := None\<rparr>) (dbRuns d)
        \<and> map ruSchedule (dbRuns d') = map (\<lambda>x. if x = Some i then None else x) (map ruSchedule (dbRuns d)))
    \<and> (r \<noteq> None \<longrightarrow> d' = d\<lparr>dbTick := Suc (dbTick d)\<rparr>)
    \<and> (sqFault e (dbTick d) = None \<and> i \<notin> schedule_ids d \<longrightarrow> (\<exists>er. r = Some er \<and> IsNotFound er))"
proof (cases "sqFault e (dbTick d)")
  case (Some er)
  then have "r = Some er" "d' = d\<lparr>dbTick := Suc (dbTick d)\<rparr>"
    using assms(1) by (simp_all add: DeleteSchedule_def sql_do_def exec_checked_def)
  with Some show ?thesis by simp
next
  case None
  have n: "length (filter (\<lambda>r. scID r = i) (dbSchedules d)) = (if i \<in> schedule_ids d then 1 else 0)"
    using assms(2) by (simp add: filter_key_length db_ok_def schedule_ids_def)
  show ?thesis
  proof (cases "i \<in> schedule_ids d")
    case True
    with None n assms(1) show ?thesis
      by (auto simp: DeleteSchedule_def sql_do_def exec_checked_def delete_schedules_def requireAffected_def)
  next
    case False
    then have "filter (\<lambda>r. scID r \<noteq> i) (dbSchedules d) = dbSchedules d"
      by (auto simp: schedule_ids_def filter_id_conv)
    moreover have "map (\<lambda>r. if ruSchedule r = Some i then r\<lparr>ruSchedule := None\<rparr> else r) (dbRuns d) = dbRuns d"
      using False assms(2) by (intro map_idI) (auto simp: db_ok_def)
    ultimately have "delete_schedules i (d\<lparr>dbTick := Suc (dbTick d)\<rparr>) = (Inr 0, d\<lparr>dbTick := Suc (dbTick d)\<rparr>)"
      using n False by (simp add: delete_schedules_def)
    with None False assms(1) show ?thesis
      by (auto simp: DeleteSchedule_def sql_do_def exec_checked_def requireAffected_def IsNotFound_def no_rows_def)
  qed
qed

theorem delete_schedule_spec_witness:
  "\<exists>er. fst (DeleteSchedule demo_env 7 fresh_db) = Some er \<and> IsNotFound er"
  using delete_schedule_spec [of demo_env 7 fresh_db, OF prod.collapse [symmetric] fresh_ok]
  by (simp add: demo_env_def fresh_db_def schedule_ids_def)

text \<open>C23: a page of the history has at most 200 runs, 50 when the limit makes no sense; it is sorted newest first
  and no run left out is newer than one shown, in whatever order the engine meets the rows.\<close>

theorem list_runs_page:
  assumes "ListRuns e scan limit d = (Inr page, d')" "\<And>rs. mset (scan rs) = mset rs"
  shows "\<exists>rows rest. page = map scanRun rows \<and> mset rows + mset rest = mset (dbRuns d)
    \<and> sorted_wrt (\<ge>) (map ruStarted rows) \<and> (\<forall>x \<in> set rows. \<forall>y \<in> set rest. ruStarted y \<le> ruStarted x)
    \<and> length page \<le> 200 \<and> length page = min (length (dbRuns d)) (if 0 < limit \<and> limit \<le> 200 then nat limit else 50)"
proof -
  let ?all = "newest_runs (scan (dbRuns d))" and ?n = "run_limit limit"
  have page: "page = map scanRun (take ?n ?all)"
    using assms(1) by (auto simp: ListRuns_def sql_do_def Let_def split: option.splits)
  have m: "mset ?all = mset (dbRuns d)" by (simp add: newest_runs_def assms(2))
  have s: "sorted_wrt (\<ge>) (map ruStarted ?all)"
  proof -
    have "map ruStarted ?all = rev (map ruStarted (sort_key ruStarted (rev (scan (dbRuns d)))))"
      by (simp add: newest_runs_def rev_map)
    moreover have "sorted_wrt (\<ge>) (rev (map ruStarted (sort_key ruStarted xs)))" for xs
      unfolding sorted_wrt_rev by (rule sorted_sort_key)
    ultimately show ?thesis by (simp only:)
  qed
  have "sorted_wrt (\<lambda>x y. ruStarted y \<le> ruStarted x) (take ?n ?all @ drop ?n ?all)"
    using s by (simp add: sorted_wrt_map)
  then have cross: "\<forall>x \<in> set (take ?n ?all). \<forall>y \<in> set (drop ?n ?all). ruStarted y \<le> ruStarted x"
    and front: "sorted_wrt (\<ge>) (map ruStarted (take ?n ?all))"
    unfolding sorted_wrt_append by (simp_all add: sorted_wrt_map)
  have len: "length ?all = length (dbRuns d)" using m by (rule mset_eq_length)
  have n: "?n = (if 0 < limit \<and> limit \<le> 200 then nat limit else 50)" by (auto simp: run_limit_def)
  have all: "mset (take ?n ?all) + mset (drop ?n ?all) = mset (dbRuns d)"
    unfolding m [symmetric] by (metis append_take_drop_id mset_append)
  have l: "length page = min (length (dbRuns d)) (if 0 < limit \<and> limit \<le> 200 then nat limit else 50)"
    unfolding n [symmetric] by (simp add: page len)
  have "?n \<le> 200" by (auto simp: run_limit_def)
  then have "length page \<le> 200" unfolding page by simp
  with page all front cross l show ?thesis by blast
qed

theorem list_runs_page_witness:
  "\<exists>page d'. ListRuns demo_env rev 1000 fresh_db = (Inr page, d') \<and> length page \<le> 200"
proof -
  obtain page d' where p: "ListRuns demo_env rev 1000 fresh_db = (Inr page, d')"
    by (simp add: ListRuns_def sql_do_def Let_def demo_env_def)
  from list_runs_page [OF p] p show ?thesis by auto
qed

lemma addScheduleColumn_cases:
  assumes "addScheduleColumn e name fill d = (r, d')"
  shows "(\<exists>t. d' = d\<lparr>dbTick := t\<rparr>) \<and> (r = None \<longrightarrow> name \<in> set (dbColumns d))
    \<or> name \<notin> set (dbColumns d) \<and> r = None
      \<and> (\<exists>t. d' = d\<lparr>dbTick := t, dbColumns := dbColumns d @ [name], dbSchedules := map fill (dbSchedules d)\<rparr>)"
  using assms
  by (auto simp: addScheduleColumn_def sql_do_def Let_def split: option.splits if_splits sum.splits)

lemma migrate_complete:
  assumes "migrate e d = (r, d')" "{''retention_days'', ''retention_count''} \<subseteq> set (dbColumns d)" "dbColumns d \<noteq> []"
  shows "\<exists>t. d' = d\<lparr>dbTick := t\<rparr>"
proof -
  obtain x d1 where 1: "sql_do e create_tables d = (x, d1)" by fastforce
  then obtain t1 where t1: "d1 = d\<lparr>dbTick := t1\<rparr>"
    using assms(3) by (auto simp: sql_do_def create_tables_def Let_def split: option.splits)
  obtain y d2 where 2: "addScheduleColumn e ''retention_days'' (\<lambda>r. r\<lparr>scRetentionDays := 30\<rparr>) d1 = (y, d2)" by fastforce
  from addScheduleColumn_cases [OF 2] obtain t2 where t2: "d2 = d\<lparr>dbTick := t2\<rparr>" using assms(2) t1 by auto
  obtain z d3 where 3: "addScheduleColumn e ''retention_count'' (\<lambda>r. r\<lparr>scRetentionCount := 0\<rparr>) d2 = (z, d3)" by fastforce
  from addScheduleColumn_cases [OF 3] obtain t3 where t3: "d3 = d\<lparr>dbTick := t3\<rparr>" using assms(2) t2 by auto
  have "d' \<in> {d1, d2, d3}" using assms(1) 1 2 3 by (auto simp: migrate_def split: sum.splits option.splits)
  with t1 t2 t3 show ?thesis by auto
qed

text \<open>C24: opening a database brings any earlier layout to the current one and keeps its rows: the missing columns
  are added, a row that had no retention gets 30 days and no count, the history is as it was, and
  opening the result again, whatever fails then, changes nothing.\<close>

theorem migrate_once:
  assumes "migrate e d = (None, d')"
  defines "cols \<equiv> if dbColumns d = [] then base_columns else dbColumns d"
  shows "dbColumns d' = cols @ filter (\<lambda>c. c \<notin> set cols) [''retention_days'', ''retention_count'']
    \<and> dbRuns d' = dbRuns d
    \<and> dbSchedules d' = map (\<lambda>r. r\<lparr>scRetentionDays := (if ''retention_days'' \<in> set cols then scRetentionDays r else 30),
         scRetentionCount := (if ''retention_count'' \<in> set cols then scRetentionCount r else 0)\<rparr>) (dbSchedules d)
    \<and> (\<forall>e2 r2 d2. migrate e2 d' = (r2, d2) \<longrightarrow> (\<exists>t. d2 = d'\<lparr>dbTick := t\<rparr>))"
proof -
  obtain x d1 where 1: "sql_do e create_tables d = (x, d1)" by fastforce
  with assms(1) have x: "x = Inr ()" by (cases x) (simp_all add: migrate_def)
  obtain y d2 where 2: "addScheduleColumn e ''retention_days'' (\<lambda>r. r\<lparr>scRetentionDays := 30\<rparr>) d1 = (y, d2)" by fastforce
  with assms(1) 1 x have y: "y = None" by (cases y) (simp_all add: migrate_def)
  have 3: "addScheduleColumn e ''retention_count'' (\<lambda>r. r\<lparr>scRetentionCount := 0\<rparr>) d2 = (None, d')"
    using assms(1) 1 2 x y by (simp add: migrate_def)
  have d1: "dbColumns d1 = cols" "dbSchedules d1 = dbSchedules d" "dbRuns d1 = dbRuns d"
    using 1 x by (auto simp: sql_do_def create_tables_def cols_def Let_def split: option.splits if_splits)
  have d2: "dbColumns d2 = cols @ filter (\<lambda>c. c \<notin> set cols) [''retention_days'']"
    "dbSchedules d2 = map (\<lambda>r. r\<lparr>scRetentionDays := (if ''retention_days'' \<in> set cols then scRetentionDays r else 30)\<rparr>)
       (dbSchedules d)" "dbRuns d2 = dbRuns d"
    using addScheduleColumn_cases [OF 2] y d1 by auto
  have d3: "dbColumns d' = cols @ filter (\<lambda>c. c \<notin> set cols) [''retention_days'', ''retention_count'']"
    "dbSchedules d' = map (\<lambda>r. r\<lparr>scRetentionDays := (if ''retention_days'' \<in> set cols then scRetentionDays r else 30),
       scRetentionCount := (if ''retention_count'' \<in> set cols then scRetentionCount r else 0)\<rparr>) (dbSchedules d)"
    "dbRuns d' = dbRuns d"
    using addScheduleColumn_cases [OF 3] d2 by auto
  have "{''retention_days'', ''retention_count''} \<subseteq> set (dbColumns d')" "dbColumns d' \<noteq> []"
    by (auto simp: d3(1) cols_def base_columns_def)
  with migrate_complete have "\<forall>e2 r2 d2. migrate e2 d' = (r2, d2) \<longrightarrow> (\<exists>t. d2 = d'\<lparr>dbTick := t\<rparr>)" by blast
  with d3 show ?thesis by simp
qed

theorem migrate_once_witness:
  "\<exists>d'. migrate demo_env fresh_db = (None, d') \<and> dbSchedules d' = []
     \<and> set (dbColumns d') = set base_columns \<union> {''retention_days'', ''retention_count''}"
proof -
  have "fst (migrate demo_env fresh_db) = None"
    by (simp add: migrate_def addScheduleColumn_def sql_do_def create_tables_def Let_def demo_env_def fresh_db_def)
  then obtain d' where m: "migrate demo_env fresh_db = (None, d')" by (metis prod.collapse)
  from migrate_once [OF m] m show ?thesis by (auto simp: fresh_db_def base_columns_def)
qed

end
