(* ===== verification/Docker.thy ===== *)
theory Docker
  imports Passwordgen Registry
begin

text \<open>
  \<open>internal/docker\<close>: running a command in a container and asking for a container's state, with
  the small vocabulary the service packages share (sequencing with early return, running a
  list of commands) and the facts about the recorded \<open>docker\<close> processes.
\<close>

section \<open>Sequencing\<close>

text \<open>\<open>if err != nil { return err }\<close> after a call with a value, and after one without.\<close>

definition bind_err :: "'a result \<times> 'w \<Rightarrow> ('a \<Rightarrow> 'w \<Rightarrow> 'b result \<times> 'w) \<Rightarrow> 'b result \<times> 'w" where
  "bind_err m f = (case m of (Inl e, w) \<Rightarrow> (Inl e, w) | (Inr a, w) \<Rightarrow> f a w)"

definition and_then :: "error option \<times> 'w \<Rightarrow> ('w \<Rightarrow> error option \<times> 'w) \<Rightarrow> error option \<times> 'w" where
  "and_then m f = (case m of (Some e, w) \<Rightarrow> (Some e, w) | (None, w) \<Rightarrow> f w)"

text \<open>\<open>_, err := f()\<close>.\<close>

definition discard :: "'a result \<times> 'w \<Rightarrow> error option \<times> 'w" where
  "discard m = (case m of (Inl e, w) \<Rightarrow> (Some e, w) | (Inr _, w) \<Rightarrow> (None, w))"

definition wrap_err :: "string \<Rightarrow> error option \<times> 'w \<Rightarrow> error option \<times> 'w" where
  "wrap_err pre m = (case m of (Some e, w) \<Rightarrow> (Some (wrapf pre e []), w) | (None, w) \<Rightarrow> (None, w))"

lemma bind_err_simps [simp]:
  "bind_err (Inl e, w) f = (Inl e, w)" "bind_err (Inr a, w) f = f a w"
  by (simp_all add: bind_err_def)

lemma and_then_simps [simp]:
  "and_then (Some e, w) f = (Some e, w)" "and_then (None, w) f = f w"
  by (simp_all add: and_then_def)

lemma discard_simps [simp]: "discard (Inl e, w) = (Some e, w)" "discard (Inr a, w) = (None, w)"
  by (simp_all add: discard_def)

lemma wrap_err_simps [simp]:
  "wrap_err p (Some e, w) = (Some (wrapf p e []), w)" "wrap_err p (None, w) = (None, w)"
  by (simp_all add: wrap_err_def)

lemma snd_combinators [simp]: "snd (discard m) = snd m" "snd (wrap_err p n) = snd n"
  by (cases m rule: prod.exhaust; cases "fst m"; simp) (cases n rule: prod.exhaust; cases "fst n"; simp)

section \<open>Running a command in a container\<close>

definition exit_code :: "exit_status \<Rightarrow> int" where
  "exit_code s = (case s of ExitOk \<Rightarrow> 0 | ExitCode n \<Rightarrow> n | NotStarted \<Rightarrow> - 1)"

text \<open>What \<open>exec.Cmd\<close> returns for a process that failed, or that could not be started.\<close>

definition exit_error :: "exit_status \<Rightarrow> error option" where
  "exit_error s =
     (case s of
        ExitOk \<Rightarrow> None
      | ExitCode n \<Rightarrow> Some (errorf (''exit status '' @ dec_int n))
      | NotStarted \<Rightarrow> Some (errorf (''exec: '' @ quote ''docker'' @ '': executable file not found in $PATH'')))"

text \<open>\<open>(*ExecError).Error()\<close>.\<close>

definition exec_error :: "string \<Rightarrow> int \<Rightarrow> string \<Rightarrow> error" where
  "exec_error container code err =
     errorf (''docker exec '' @ container @ '' failed (exit '' @ dec_int code @ '')''
       @ (if err \<noteq> [] then '': '' @ err else []))"

definition blanks :: "char set" where
  "blanks = {CHR 0x0D, CHR 0x0A, CHR 0x09, CHR '' ''}"

definition exec_args :: "string \<Rightarrow> string option \<Rightarrow> string list \<Rightarrow> string list" where
  "exec_args container input command =
     (case input of
        None \<Rightarrow> [''exec'', container]
      | Some _ \<Rightarrow> [''exec'', ''-i'', container]) @ command"

definition ExecWithStdin ::
  "'d host \<Rightarrow> string \<Rightarrow> string option \<Rightarrow> string list \<Rightarrow> 'd world \<Rightarrow> string result \<times> 'd world" where
  "ExecWithStdin h container input command w =
     (case run_docker h (exec_args container input command) input w of
        (r, w') \<Rightarrow>
          (if status r = ExitOk then (Inr (trim_right_set blanks (stdout r)), w')
           else (Inl (exec_error container (exit_code (status r)) (trim_space (stderr r))), w')))"

definition docker_exec ::
  "'d host \<Rightarrow> string \<Rightarrow> string list \<Rightarrow> 'd world \<Rightarrow> string result \<times> 'd world" where
  "docker_exec h container command w = ExecWithStdin h container None command w"

text \<open>A loop over commands that returns at the first error.\<close>

fun exec_all :: "'d host \<Rightarrow> string \<Rightarrow> string list list \<Rightarrow> 'd world \<Rightarrow> error option \<times> 'd world" where
  "exec_all h container [] w = (None, w)"
| "exec_all h container (c # cs) w =
     (case docker_exec h container c w of
        (Inl e, w') \<Rightarrow> (Some e, w')
      | (Inr _, w') \<Rightarrow> exec_all h container cs w')"

section \<open>Container state\<close>

definition IsContainerRunning :: "'d host \<Rightarrow> string \<Rightarrow> 'd world \<Rightarrow> bool \<times> 'd world" where
  "IsContainerRunning h container w =
     (case run_docker h [''inspect'', ''--format={{.State.Running}}'', container] None w of
        (r, w') \<Rightarrow> (status r = ExitOk \<and> trim_space (stdout r) = ''true'', w'))"

record Status =
  stService :: string
  stContainer :: string
  stState :: string
  stExists :: bool
  stRunning :: bool

definition containers :: "(string \<times> string) list" where
  "containers =
     [(''PostgreSQL'', ''infra-postgres''), (''Redis'', ''infra-redis''), (''RabbitMQ'', ''infra-rabbitmq''),
      (''AIStor'', ''infra-aistor''), (''MongoDB'', ''infra-mongodb''),
      (''SignOz'', ''infra-signoz-otel-collector'')]"

text \<open>
  \<open>CombinedOutput\<close> interleaves the two streams; on success \<open>docker inspect\<close> writes to standard
  output only, and its standard error is taken to follow.
\<close>

definition inspect_container :: "'d host \<Rightarrow> string \<times> string \<Rightarrow> 'd world \<Rightarrow> Status \<times> 'd world" where
  "inspect_container h item w =
     (case run_docker h [''inspect'', ''--format={{.State.Status}}'', snd item] None w of
        (r, w') \<Rightarrow>
          (if status r = ExitOk
           then (let state = trim_space (stdout r @ stderr r) in
             (\<lparr>stService = fst item, stContainer = snd item, stState = state, stExists = True,
                stRunning = (state = ''running'')\<rparr>, w'))
           else (\<lparr>stService = fst item, stContainer = snd item, stState = ''not created'',
                stExists = False, stRunning = False\<rparr>, w')))"

fun inspect_all :: "'d host \<Rightarrow> (string \<times> string) list \<Rightarrow> 'd world \<Rightarrow> Status list \<times> 'd world" where
  "inspect_all h [] w = ([], w)"
| "inspect_all h (i # is) w =
     (case inspect_container h i w of
        (s, w1) \<Rightarrow> (case inspect_all h is w1 of (ss, w2) \<Rightarrow> (s # ss, w2)))"

definition ListStatus :: "'d host \<Rightarrow> 'd world \<Rightarrow> Status list \<times> 'd world" where
  "ListStatus h w = inspect_all h containers w"

section \<open>The recorded processes\<close>

text \<open>The \<open>docker\<close> processes started between two worlds.\<close>

definition issued :: "'d world \<Rightarrow> 'd world \<Rightarrow> (string list \<times> string option) list" where
  "issued w w' = drop (length (calls w)) (calls w')"

text \<open>
  From \<open>w\<close> to \<open>w'\<close> only \<open>docker\<close> processes with property \<open>P\<close> were started; the files and the
  messages are as they were.
\<close>

definition ran :: "(string list \<times> string option \<Rightarrow> bool) \<Rightarrow> 'd world \<Rightarrow> 'd world \<Rightarrow> bool" where
  "ran P w w' =
     (calls w' = calls w @ issued w w' \<and> list_all P (issued w w') \<and> files w' = files w \<and> report w' = report w)"

lemma ranI:
  "calls w' = calls w @ cs \<Longrightarrow> list_all P cs \<Longrightarrow> files w' = files w \<Longrightarrow> report w' = report w \<Longrightarrow> ran P w w'"
  by (simp add: ran_def issued_def)

lemma issuedI: "calls w' = calls w @ cs \<Longrightarrow> issued w w' = cs"
  by (simp add: issued_def)

lemma issued_refl [simp]: "issued w w = []"
  by (simp add: issued_def)

lemma ran_refl [simp]: "ran P w w"
  by (simp add: ran_def)

lemma ran_trans [trans]: "ran P w w' \<Longrightarrow> ran P w' w'' \<Longrightarrow> ran P w w''"
proof -
  assume a: "ran P w w'" "ran P w' w''"
  then have "calls w'' = calls w @ issued w w' @ issued w' w''" by (simp add: ran_def)
  with a show ?thesis by (intro ranI) (auto simp: ran_def)
qed

lemma ran_mono: "ran P w w' \<Longrightarrow> (\<And>c. P c \<Longrightarrow> Q c) \<Longrightarrow> ran Q w w'"
  by (auto simp: ran_def list_all_iff)

lemma ran_files: "ran P w w' \<Longrightarrow> files w' = files w \<and> report w' = report w"
  by (simp add: ran_def)

lemma ran_tick [simp]: "ran P w (w\<lparr>tick := t\<rparr>)"
  by (rule ranI [of _ _ "[]"]) simp_all

lemma ran_generate: "generate h len w = (p, w') \<Longrightarrow> ran P w w'"
  using generate_world [of h len w] by simp

lemma issued_trans:
  "ran P w w' \<Longrightarrow> ran Q w' w'' \<Longrightarrow> issued w w'' = issued w w' @ issued w' w''"
  by (rule issuedI) (simp add: ran_def)

lemma run_docker_issued:
  "run_docker h args input w = (r, w') \<Longrightarrow> calls w' = calls w @ [(args, input)]"
  by (simp add: run_docker_frame)

lemma ran_run_docker:
  "run_docker h args input w = (r, w') \<Longrightarrow> P (args, input) \<Longrightarrow> ran P w w'"
  by (rule ranI [of _ _ "[(args, input)]"]) (simp_all add: run_docker_frame)

lemma ran_ExecWithStdin:
  "ExecWithStdin h c i cmd w = (r, w') \<Longrightarrow> P (exec_args c i cmd, i) \<Longrightarrow> ran P w w'"
  by (auto simp: ExecWithStdin_def split: prod.splits if_splits intro: ran_run_docker)

lemma ExecWithStdin_calls:
  "ExecWithStdin h c i cmd w = (r, w') \<Longrightarrow>
     calls w' = calls w @ [(exec_args c i cmd, i)] \<and> files w' = files w \<and> report w' = report w"
  by (auto simp: ExecWithStdin_def run_docker_frame split: prod.splits if_splits)

lemma docker_exec_calls:
  "docker_exec h c cmd w = (r, w') \<Longrightarrow>
     calls w' = calls w @ [(''exec'' # c # cmd, None)] \<and> files w' = files w \<and> report w' = report w"
  using ExecWithStdin_calls [of h c None cmd w r w'] by (simp add: docker_exec_def exec_args_def)

lemma ran_docker_exec:
  "docker_exec h c cmd w = (r, w') \<Longrightarrow> P (''exec'' # c # cmd, None) \<Longrightarrow> ran P w w'"
  by (rule ranI [of _ _ "[(''exec'' # c # cmd, None)]"]) (simp_all add: docker_exec_calls)

text \<open>A loop of commands issues a prefix of them, all of them when it succeeds.\<close>

definition exec_calls :: "string \<Rightarrow> string list list \<Rightarrow> (string list \<times> string option) list" where
  "exec_calls container cmds = map (\<lambda>c. (''exec'' # container # c, None)) cmds"

lemma exec_calls_simps [simp]:
  "exec_calls c [] = []" "exec_calls c (x # xs) = (''exec'' # c # x, None) # exec_calls c xs"
  "exec_calls c (xs @ ys) = exec_calls c xs @ exec_calls c ys"
  by (simp_all add: exec_calls_def)

lemma exec_all_calls:
  "exec_all h c cmds w = (r, w') \<Longrightarrow>
     \<exists>k \<le> length cmds. calls w' = calls w @ exec_calls c (take k cmds) \<and> files w' = files w
       \<and> report w' = report w \<and> (r = None \<longrightarrow> k = length cmds)"
proof (induction cmds arbitrary: w)
  case (Cons x xs)
  obtain r1 w1 where 1: "docker_exec h c x w = (r1, w1)" by fastforce
  note c1 = docker_exec_calls [OF 1]
  show ?case
  proof (cases r1)
    case (Inl e)
    with Cons.prems 1 c1 show ?thesis by (intro exI [of _ 1]) auto
  next
    case (Inr a)
    with Cons.prems 1 have "exec_all h c xs w1 = (r, w')" by simp
    then obtain k where "k \<le> length xs" "calls w' = calls w1 @ exec_calls c (take k xs)"
      "files w' = files w1" "report w' = report w1" "r = None \<longrightarrow> k = length xs"
      using Cons.IH by blast
    with c1 show ?thesis by (intro exI [of _ "Suc k"]) auto
  qed
qed auto

lemma exec_all_append:
  "exec_all h c (xs @ ys) w = and_then (exec_all h c xs w) (exec_all h c ys)"
  by (induction xs arbitrary: w) (auto split: prod.split sum.split)

lemma IsContainerRunning_calls:
  "IsContainerRunning h c w = (b, w') \<Longrightarrow>
     calls w' = calls w @ [([''inspect'', ''--format={{.State.Running}}'', c], None)]
     \<and> files w' = files w \<and> report w' = report w"
  by (auto simp: IsContainerRunning_def run_docker_frame split: prod.splits)

end
