(* ===== verification/ServiceEnv.thy ===== *)
theory ServiceEnv
  imports Docker RegistryStore
begin

text \<open>
  What the service packages share: where they look for the containers' administrator
  credentials (\<open>envFileCandidates\<close>, \<open>getRootCreds\<close>, \<open>adminPassword\<close>), the shell and URL quoting,
  and the writing of a stream to a file.  The source repeats these functions per package.
\<close>

definition envFileCandidates :: "'d host \<Rightarrow> string list" where
  "envFileCandidates h =
     (let root = trim_space (getenv h ''INFRA_SHELF_ROOT'') in
      (if root \<noteq> [] then [path_join [root, ''.env'']] else [])
      @ (case getwd h of Inr cwd \<Rightarrow> [path_join [cwd, ''.env'']] | Inl _ \<Rightarrow> []))"

definition readDotenvKey :: "'d host \<Rightarrow> 'd world \<Rightarrow> string \<Rightarrow> string \<Rightarrow> string" where
  "readDotenvKey h w path key =
     (case read_file h w path of Inl _ \<Rightarrow> [] | Inr content \<Rightarrow> read_key content key)"

text \<open>\<open>adminPassword\<close> of \<open>services/redis\<close>: the environment first, then the files.\<close>

definition adminPassword :: "'d host \<Rightarrow> 'd world \<Rightarrow> string" where
  "adminPassword h w =
     (let v = trim_space (getenv h ''REDIS_PASSWORD'') in
      if v \<noteq> [] then v
      else (case first_some (\<lambda>c. let v = readDotenvKey h w c ''REDIS_PASSWORD'' in
                     if v = [] then None else Some v) (envFileCandidates h) of
          Some v \<Rightarrow> v
        | None \<Rightarrow> []))"

text \<open>
  \<open>getRootCreds\<close> of \<open>services/aistor\<close> and \<open>services/mongodb\<close>: the files first, then the environment.
\<close>

definition creds_in :: "'d host \<Rightarrow> 'd world \<Rightarrow> string \<Rightarrow> string \<Rightarrow> string \<Rightarrow> (string \<times> string) option" where
  "creds_in h w user_key pass_key candidate =
     (case read_file h w candidate of
        Inl _ \<Rightarrow> None
      | Inr content \<Rightarrow>
          (let user = read_key content user_key; pass = read_key content pass_key in
           if user \<noteq> [] \<and> pass \<noteq> [] then Some (user, pass) else None))"

definition getRootCreds ::
  "'d host \<Rightarrow> 'd world \<Rightarrow> string \<Rightarrow> string \<Rightarrow> string \<Rightarrow> (string \<times> string) result" where
  "getRootCreds h w user_key pass_key msg =
     (case first_some (creds_in h w user_key pass_key) (envFileCandidates h) of
        Some c \<Rightarrow> Inr c
      | None \<Rightarrow>
          (let user = trim_space (getenv h user_key); pass = trim_space (getenv h pass_key) in
           if user \<noteq> [] \<and> pass \<noteq> [] then Inr (user, pass) else Inl (errorf msg)))"

text \<open>\<open>url.QueryEscape\<close>.\<close>

definition query_char :: "char \<Rightarrow> string" where
  "query_char c =
     (if is_lower c \<or> is_digit c \<or> (CHR ''A'' \<le> c \<and> c \<le> CHR ''Z'') \<or> c \<in> set ''-_.~'' then [c]
      else if c = CHR '' '' then ''+'' else percent c)"

definition query_escape :: "string \<Rightarrow> string" where
  "query_escape s = concat (map query_char s)"

text \<open>
  A command whose standard output goes to a file that was created before it started: the file
  ends up with what the command wrote, whether or not it succeeds; a write error makes the
  command fail.
\<close>

definition run_docker_to ::
  "'d host \<Rightarrow> string list \<Rightarrow> string option \<Rightarrow> string option \<Rightarrow> 'd world \<Rightarrow> (bool \<times> string) \<times> 'd world" where
  "run_docker_to h args input dest w =
     (case run_docker h args input w of
        (r, w1) \<Rightarrow>
          (case dest of
             None \<Rightarrow> ((status r = ExitOk, stderr r), w1)
           | Some path \<Rightarrow>
               (case write_file h path (stdout r) w1 of
                  (e, w2) \<Rightarrow> ((status r = ExitOk \<and> e = None, stderr r), w2))))"

text \<open>\<open>sh -c\<close> in a container with variables passed by \<open>-e\<close>, as both packages build it.\<close>

definition shell_args :: "string list \<Rightarrow> string \<Rightarrow> string option \<Rightarrow> string \<Rightarrow> string list" where
  "shell_args vars container input script =
     [''exec''] @ (if input \<noteq> None then [''-i''] else []) @ concat (map (\<lambda>v. [''-e'', v]) vars)
     @ [container, ''sh'', ''-c'', script]"

definition shell ::
  "string \<Rightarrow> 'd host \<Rightarrow> string list \<Rightarrow> string \<Rightarrow> string option \<Rightarrow> string option \<Rightarrow> string \<Rightarrow> 'd world
     \<Rightarrow> error option \<times> 'd world" where
  "shell what h vars container input dest script w =
     (case run_docker_to h (shell_args vars container input script) input dest w of
        ((ok, err), w') \<Rightarrow> (if ok then None else Some (errorf (what @ trim_space err)), w'))"

text \<open>A file that is not the JSON it should be; the decoder's wording is not modelled.\<close>

definition json_syntax :: error where
  "json_syntax = errorf ''json: cannot unmarshal''"

lemma getRootCreds_nonempty:
  "getRootCreds h w u p m = Inr (user, pass) \<Longrightarrow> user \<noteq> [] \<and> pass \<noteq> []"
  by (auto simp: getRootCreds_def creds_in_def Let_def split: option.splits if_splits sum.splits
      dest!: first_some_SomeD)

lemma write_file_calls: "write_file h p c w = (r, w') \<Longrightarrow> calls w' = calls w \<and> report w' = report w"
  by (simp add: write_file_frame)

lemma run_docker_to_calls:
  "run_docker_to h args i dest w = (x, w') \<Longrightarrow>
     calls w' = calls w @ [(args, i)] \<and> report w' = report w \<and> (dest = None \<longrightarrow> files w' = files w)"
  by (auto simp: run_docker_to_def split: prod.splits option.splits
      dest!: run_docker_frame write_file_calls)

lemma shell_calls:
  "shell what h vars c i dest script w = (r, w') \<Longrightarrow>
     calls w' = calls w @ [(shell_args vars c i script, i)] \<and> report w' = report w
     \<and> (dest = None \<longrightarrow> files w' = files w)"
  by (auto simp: shell_def split: prod.splits dest!: run_docker_to_calls)

text \<open>The file a stream was written to: all of the output when the command succeeded.\<close>

lemma shell_writes:
  assumes "shell what h vars c i (Some dest) script w = (None, w')"
  shows "lookup_file w' dest = Some (File
      (stdout (fst (run_docker h (shell_args vars c i script) i w)))
      (time_now h (snd (run_docker h (shell_args vars c i script) i w))))"
  using assms
  by (auto simp: shell_def run_docker_to_def split: prod.splits if_splits intro: write_file_ok)

lemma run_docker_to_other:
  "run_docker_to h args i (Some dest) w = (x, w') \<Longrightarrow> clean q \<noteq> clean dest \<Longrightarrow>
   lookup_file w' q = lookup_file w q"
  by (auto simp: run_docker_to_def lookup_file_def split: prod.splits
      dest!: run_docker_frame dest: write_file_other [unfolded lookup_file_def])

lemma shell_other:
  "shell what h vars c i (Some dest) script w = (r, w') \<Longrightarrow> clean q \<noteq> clean dest \<Longrightarrow>
   lookup_file w' q = lookup_file w q"
  by (auto simp: shell_def split: prod.splits dest: run_docker_to_other)

end
