(* ===== verification/PostgresSvc.thy ===== *)
theory PostgresSvc
  imports ServiceEnv
begin

text \<open>\<open>internal/services/postgres\<close>: the SQL it sends to \<open>infra-postgres\<close> and in what order.\<close>

definition pg_container :: string where
  "pg_container = ''infra-postgres''"

definition psql_command :: "string \<Rightarrow> string \<Rightarrow> string list" where
  "psql_command database sql =
     [''psql'', ''-U'', ''postgres''] @ (if database \<noteq> [] then [''-d'', database] else []) @ [''-c'', sql]"

definition grantsTemplate :: string where
  "grantsTemplate = join newline
     ['''',
      ''DO $$ DECLARE r record;'',
      ''BEGIN'',
      ''  FOR r IN SELECT nspname FROM pg_namespace WHERE nspname NOT LIKE 'pg_%' AND nspname != 'information_schema'' @ [CHR 0x27],
      ''  LOOP'',
      ''    EXECUTE format('ALTER SCHEMA %I OWNER TO %I', r.nspname, '__APP__');'',
      ''    EXECUTE format('GRANT ALL ON ALL TABLES IN SCHEMA %I TO %I', r.nspname, '__APP__');'',
      ''    EXECUTE format('GRANT ALL ON ALL SEQUENCES IN SCHEMA %I TO %I', r.nspname, '__APP__');'',
      ''    EXECUTE format('ALTER DEFAULT PRIVILEGES IN SCHEMA %I GRANT ALL ON TABLES TO %I', r.nspname, '__APP__');'',
      ''    EXECUTE format('ALTER DEFAULT PRIVILEGES IN SCHEMA %I GRANT ALL ON SEQUENCES TO %I', r.nspname, '__APP__');'',
      ''  END LOOP;'',
      ''  FOR r IN SELECT schemaname, tablename FROM pg_tables WHERE schemaname NOT LIKE 'pg_%' AND schemaname != 'information_schema'' @ [CHR 0x27],
      ''  LOOP'',
      ''    EXECUTE format('ALTER TABLE %I.%I OWNER TO %I', r.schemaname, r.tablename, '__APP__');'',
      ''  END LOOP;'',
      ''  FOR r IN SELECT sequence_schema, sequence_name FROM information_schema.sequences WHERE sequence_schema NOT LIKE 'pg_%' AND sequence_schema != 'information_schema'' @ [CHR 0x27],
      ''  LOOP'',
      ''    EXECUTE format('ALTER SEQUENCE %I.%I OWNER TO %I', r.sequence_schema, r.sequence_name, '__APP__');'',
      ''  END LOOP;'',
      ''END $$;'',
      '''']"

definition psql :: "'d host \<Rightarrow> string \<Rightarrow> string \<Rightarrow> 'd world \<Rightarrow> string result \<times> 'd world" where
  "psql h database sql w = docker_exec h pg_container (psql_command database sql) w"

definition grants_sql :: "string \<Rightarrow> string" where
  "grants_sql app = replace_all grantsTemplate ''__APP__'' app"

definition grantPermissions :: "'d host \<Rightarrow> string \<Rightarrow> 'd world \<Rightarrow> error option \<times> 'd world" where
  "grantPermissions h app w = discard (psql h app (grants_sql app) w)"

definition provision_sql :: "string \<Rightarrow> string \<Rightarrow> string list" where
  "provision_sql app password =
     [''CREATE DATABASE \"'' @ app @ ''\";'',
      ''CREATE USER \"'' @ app @ ''\" WITH PASSWORD '' @ [CHR 0x27] @ password @ [CHR 0x27] @ '';'',
      ''GRANT ALL PRIVILEGES ON DATABASE \"'' @ app @ ''\" TO \"'' @ app @ ''\";'']"

definition postgres_provision :: "'d host \<Rightarrow> string \<Rightarrow> 'd world \<Rightarrow> PostgresConfig result \<times> 'd world" where
  "postgres_provision h app w =
     (case validate_app_name app of
        Some e \<Rightarrow> (Inl e, w)
      | None \<Rightarrow>
          (case generate h 24 w of
             (password, w1) \<Rightarrow>
               (case exec_all h pg_container (map (psql_command []) (provision_sql app password)) w1 of
                  (Some e, w2) \<Rightarrow> (Inl e, w2)
                | (None, w2) \<Rightarrow>
                    (case grantPermissions h app w2 of
                       (Some e, w3) \<Rightarrow> (Inl e, w3)
                     | (None, w3) \<Rightarrow>
                         (Inr \<lparr>pg_Database = app, pg_Username = app, pg_Password = password\<rparr>, w3)))))"

definition postgres_backup :: "'d host \<Rightarrow> string \<Rightarrow> string \<Rightarrow> 'd world \<Rightarrow> error option \<times> 'd world" where
  "postgres_backup h app dest w =
     (case validate_app_name app of
        Some e \<Rightarrow> (Some e, w)
      | None \<Rightarrow>
          (case docker_exec h pg_container
                  [''pg_dump'', ''-U'', ''postgres'', ''--clean'', ''--if-exists'', app] w of
             (Inl e, w1) \<Rightarrow> (Some e, w1)
           | (Inr sql, w1) \<Rightarrow> write_file h dest sql w1))"

text \<open>A source that is a directory is refused when it is opened, not when it is read.\<close>

definition postgres_restore :: "'d host \<Rightarrow> string \<Rightarrow> string \<Rightarrow> 'd world \<Rightarrow> error option \<times> 'd world" where
  "postgres_restore h app src w =
     (case validate_app_name app of
        Some e \<Rightarrow> (Some e, w)
      | None \<Rightarrow>
          (case read_file h w src of
             Inl e \<Rightarrow> (Some e, w)
           | Inr content \<Rightarrow>
               (case ExecWithStdin h pg_container (Some content) [''psql'', ''-U'', ''postgres'', ''-d'', app] w of
                  (Inl e, w1) \<Rightarrow> (Some (wrapf ''psql restore failed: '' e []), w1)
                | (Inr _, w1) \<Rightarrow> grantPermissions h app w1)))"

definition teardown_sql :: "string \<Rightarrow> string list" where
  "teardown_sql app =
     [''SELECT pg_terminate_backend(pid) FROM pg_stat_activity WHERE datname = ''
        @ [CHR 0x27] @ app @ [CHR 0x27] @ '';'',
      ''DROP DATABASE IF EXISTS \"'' @ app @ ''\";'',
      ''DROP USER IF EXISTS \"'' @ app @ ''\";'']"

definition postgres_teardown :: "'d host \<Rightarrow> string \<Rightarrow> 'd world \<Rightarrow> error option \<times> 'd world" where
  "postgres_teardown h app w =
     (case validate_app_name app of
        Some e \<Rightarrow> (Some e, w)
      | None \<Rightarrow> exec_all h pg_container (map (psql_command []) (teardown_sql app)) w)"

section \<open>What is issued\<close>

text \<open>The commands of a provisioning, in order.\<close>

definition pg_provision_script :: "string \<Rightarrow> string \<Rightarrow> string list list" where
  "pg_provision_script app password =
     map (psql_command []) (provision_sql app password) @ [psql_command app (grants_sql app)]"

lemma psql_calls:
  "psql h db sql w = (r, w') \<Longrightarrow>
     calls w' = calls w @ exec_calls pg_container [psql_command db sql] \<and> files w' = files w \<and> report w' = report w"
  by (simp add: psql_def docker_exec_calls)

lemma grantPermissions_exec_all:
  "grantPermissions h app w = exec_all h pg_container [psql_command app (grants_sql app)] w"
  by (simp add: grantPermissions_def psql_def split: prod.split sum.split)

lemma postgres_provision_alt:
  "postgres_provision h app w =
     (case validate_app_name app of
        Some e \<Rightarrow> (Inl e, w)
      | None \<Rightarrow>
          (case generate h 24 w of
             (password, w1) \<Rightarrow>
               (case exec_all h pg_container (pg_provision_script app password) w1 of
                  (Some e, w2) \<Rightarrow> (Inl e, w2)
                | (None, w2) \<Rightarrow>
                    (Inr \<lparr>pg_Database = app, pg_Username = app, pg_Password = password\<rparr>, w2))))"
  unfolding postgres_provision_def pg_provision_script_def exec_all_append grantPermissions_exec_all
  by (auto simp del: exec_all.simps split: option.split prod.split)

end
