(* ===== verification/RedisSvc.thy ===== *)
theory RedisSvc
  imports ServiceEnv
begin

text \<open>
  \<open>internal/services/redis\<close>: ACL users with a key prefix, the snapshot script, and the replay of
  a snapshot key by key.  A snapshot is JSON that \<open>cjson\<close> wrote: triples of key, type and value.
\<close>

definition redis_container :: string where
  "redis_container = ''infra-redis''"

definition adminCli :: "'d host \<Rightarrow> string list \<Rightarrow> 'd world \<Rightarrow> string result \<times> 'd world" where
  "adminCli h args w =
     (let pass = trim_space (adminPassword h w) in
      docker_exec h redis_container
        ([''redis-cli''] @ (if pass \<noteq> [] then [''-a'', pass] else []) @ args) w)"

section \<open>Provision, backup, teardown\<close>

definition redis_provision ::
  "'d host \<Rightarrow> string \<Rightarrow> bool \<Rightarrow> 'd world \<Rightarrow> RedisConfig result \<times> 'd world" where
  "redis_provision h app fullAccess w =
     (case validate_app_name app of
        Some e \<Rightarrow> (Inl e, w)
      | None \<Rightarrow>
          (case generate h 24 w of
             (password, w1) \<Rightarrow>
               (let prefix = (if fullAccess then [] else app @ '':'');
                    keyPattern = (if fullAccess then ''~*'' else ''~'' @ app @ '':*'') in
                case adminCli h [''ACL'', ''SETUSER'', app, ''on'', ''>'' @ password, keyPattern, ''+@all''] w1 of
                  (Inl e, w2) \<Rightarrow> (Inl e, w2)
                | (Inr _, w2) \<Rightarrow>
                    (case adminCli h [''ACL'', ''SAVE''] w2 of
                       (Inl e, w3) \<Rightarrow> (Inl e, w3)
                     | (Inr _, w3) \<Rightarrow>
                         (Inr \<lparr>redis_Username = app, redis_Password = password, redis_Prefix = prefix\<rparr>, w3)))))"

definition backupScript :: string where
  "backupScript = join newline
     [''local keys = redis.call('KEYS', ARGV[1])'',
      ''local result = {}'',
      ''for i, key in ipairs(keys) do'',
      ''  local t = redis.call('TYPE', key)['ok']'',
      ''  local val'',
      ''  if t == 'string' then val = redis.call('GET', key)'',
      ''  elseif t == 'hash' then val = redis.call('HGETALL', key)'',
      ''  elseif t == 'list' then val = redis.call('LRANGE', key, 0, -1)'',
      ''  elseif t == 'set' then val = redis.call('SMEMBERS', key)'',
      ''  elseif t == 'zset' then val = redis.call('ZRANGE', key, 0, -1, 'WITHSCORES')'',
      ''  end'',
      ''  result[#result+1] = {key, t, val}'',
      ''end'',
      ''return cjson.encode(result)'']"

definition redis_backup :: "'d host \<Rightarrow> string \<Rightarrow> string \<Rightarrow> 'd world \<Rightarrow> error option \<times> 'd world" where
  "redis_backup h app dest w =
     (case validate_app_name app of
        Some e \<Rightarrow> (Some e, w)
      | None \<Rightarrow>
          (case adminCli h [''EVAL'', backupScript, ''0'', app @ '':*''] w of
             (Inl e, w1) \<Rightarrow> (Some e, w1)
           | (Inr out, w1) \<Rightarrow> write_file h dest out w1))"

definition deleteScript :: string where
  "deleteScript =
     ''local keys = redis.call('keys', ARGV[1]) for i=1,#keys do redis.call('del', keys[i]) end return #keys''"

definition redis_teardown :: "'d host \<Rightarrow> string \<Rightarrow> 'd world \<Rightarrow> error option \<times> 'd world" where
  "redis_teardown h app w =
     (case validate_app_name app of
        Some e \<Rightarrow> (Some e, w)
      | None \<Rightarrow>
          and_then (discard (adminCli h [''EVAL'', deleteScript, ''0'', app @ '':*''] w))
            (\<lambda>w1. and_then (discard (adminCli h [''ACL'', ''DELUSER'', app] w1))
              (\<lambda>w2. discard (adminCli h [''ACL'', ''SAVE''] w2))))"

section \<open>Restore\<close>

record backupEntry =
  beKey :: string
  beType :: string
  beValue :: json

text \<open>The \<open>%T\<close> verb on a decoded value.\<close>

fun go_type :: "json \<Rightarrow> string" where
  "go_type JNull = ''<nil>''"
| "go_type (JBool _) = ''bool''"
| "go_type (JNum _) = ''float64''"
| "go_type (JStr _) = ''string''"
| "go_type (JArr _) = ''[]interface {}''"
| "go_type (JObj _) = ''map[string]interface {}''"

definition nth_json :: "json list \<Rightarrow> nat \<Rightarrow> json" where
  "nth_json xs i = (if i < length xs then xs ! i else JNull)"

text \<open>
  \<open>UnmarshalJSON\<close>: a three-element array, shorter ones padded with nil and longer ones cut.
  A number that overflows makes the decoding fail.
\<close>

definition raw_elems :: "'d host \<Rightarrow> json \<Rightarrow> json list result" where
  "raw_elems h v =
     (case v of
        JNull \<Rightarrow> Inr []
      | JArr xs \<Rightarrow> (if list_all (\<lambda>x. any_json h x \<noteq> None) (take 3 xs) then Inr xs else Inl json_syntax)
      | _ \<Rightarrow> Inl json_syntax)"

definition read_entry_triple :: "'d host \<Rightarrow> json \<Rightarrow> backupEntry result" where
  "read_entry_triple h v =
     (case raw_elems h v of
        Inl e \<Rightarrow> Inl e
      | Inr xs \<Rightarrow>
          (case nth_json xs 0 of
             JStr key \<Rightarrow>
               (case nth_json xs 1 of
                  JStr typ \<Rightarrow> Inr \<lparr>beKey = key, beType = typ, beValue = nth_json xs 2\<rparr>
                | t \<Rightarrow> Inl (errorf (''redis backup: expected string type, got '' @ go_type t)))
           | k \<Rightarrow> Inl (errorf (''redis backup: expected string key, got '' @ go_type k))))"

fun read_triples :: "'d host \<Rightarrow> json list \<Rightarrow> backupEntry list result" where
  "read_triples h [] = Inr []"
| "read_triples h (v # vs) =
     (case read_entry_triple h v of
        Inl e \<Rightarrow> Inl e
      | Inr b \<Rightarrow> map_sum id ((#) b) (read_triples h vs))"

definition read_backup :: "'d host \<Rightarrow> string \<Rightarrow> backupEntry list result" where
  "read_backup h text =
     (case parse_json text of
        None \<Rightarrow> Inl json_syntax
      | Some JNull \<Rightarrow> Inr []
      | Some (JArr vs) \<Rightarrow> read_triples h vs
      | Some _ \<Rightarrow> Inl json_syntax)"

definition stringSlice :: "'d host \<Rightarrow> json \<Rightarrow> string list" where
  "stringSlice h v = (case v of JArr xs \<Rightarrow> map (show_any h) xs | _ \<Rightarrow> [])"

text \<open>\<open>ZRANGE\<close> gives member, score; \<open>ZADD\<close> takes score, member; an odd one is dropped.\<close>

fun swap_pairs :: "string list \<Rightarrow> string list" where
  "swap_pairs (m # s # r) = s # m # swap_pairs r"
| "swap_pairs _ = []"

text \<open>The command that restores an entry, where there is one.\<close>

definition restore_command :: "'d host \<Rightarrow> backupEntry \<Rightarrow> string list option" where
  "restore_command h e =
     (if beType e = ''string''
      then Some [''SET'', beKey e, case beValue e of JStr s \<Rightarrow> s | _ \<Rightarrow> []]
      else if beType e = ''hash'' then Some ([''HSET'', beKey e] @ stringSlice h (beValue e))
      else if beType e = ''list''
        then (let items = stringSlice h (beValue e) in
              if items = [] then None else Some ([''RPUSH'', beKey e] @ items))
      else if beType e = ''set''
        then (let items = stringSlice h (beValue e) in
              if items = [] then None else Some ([''SADD'', beKey e] @ items))
      else if beType e = ''zset''
        then (let items = swap_pairs (stringSlice h (beValue e)) in
              if items = [] then None else Some ([''ZADD'', beKey e] @ items))
      else None)"

definition restoreEntry :: "'d host \<Rightarrow> backupEntry \<Rightarrow> 'd world \<Rightarrow> error option \<times> 'd world" where
  "restoreEntry h e w =
     (case restore_command h e of
        None \<Rightarrow> (None, w)
      | Some args \<Rightarrow> discard (adminCli h args w))"

fun restore_entries :: "'d host \<Rightarrow> backupEntry list \<Rightarrow> 'd world \<Rightarrow> error option \<times> 'd world" where
  "restore_entries h [] w = (None, w)"
| "restore_entries h (e # es) w = and_then (restoreEntry h e w) (restore_entries h es)"

definition redis_restore :: "'d host \<Rightarrow> string \<Rightarrow> 'd world \<Rightarrow> error option \<times> 'd world" where
  "redis_restore h src w =
     (case read_file h w src of
        Inl e \<Rightarrow> (Some e, w)
      | Inr raw \<Rightarrow>
          (let text = trim_space raw in
           if text = [] \<or> text = ''{}'' \<or> text = ''[]'' then (None, w)
           else (case read_backup h text of
               Inl e \<Rightarrow> (Some (wrapf (''redis restore: parse '' @ path_base src @ '': '') e []), w)
             | Inr entries \<Rightarrow> restore_entries h entries w)))"

section \<open>What is issued\<close>

text \<open>The administrator's password does not change while \<open>docker\<close> runs.\<close>

definition redis_cli :: "string \<Rightarrow> string list \<Rightarrow> string list" where
  "redis_cli pass args = [''redis-cli''] @ (if pass \<noteq> [] then [''-a'', pass] else []) @ args"

definition admin_pass :: "'d host \<Rightarrow> 'd world \<Rightarrow> string" where
  "admin_pass h w = trim_space (adminPassword h w)"

lemma adminCli_exec: "adminCli h args w = docker_exec h redis_container (redis_cli (admin_pass h w) args) w"
  by (simp add: adminCli_def redis_cli_def admin_pass_def Let_def)

lemma admin_pass_same:
  assumes "files w' = files w" "reads_ok h"
  shows "admin_pass h w' = admin_pass h w"
proof -
  have "read_file h w' p = read_file h w p" for p
    using assms by (simp add: read_file_def fails_def lookup_file_def reads_ok_def)
  then have "readDotenvKey h w' = readDotenvKey h w"
    by (intro ext) (simp add: readDotenvKey_def)
  then have "adminPassword h w' = adminPassword h w"
    unfolding adminPassword_def by (rule arg_cong)
  then show ?thesis by (simp add: admin_pass_def)
qed

lemma admin_all:
  assumes "reads_ok h" "files w = files w0"
  shows "and_then (discard (adminCli h args w)) (exec_all h redis_container cs)
    = exec_all h redis_container (redis_cli (admin_pass h w0) args # cs) w"
  using admin_pass_same [OF assms(2,1)]
  by (simp add: adminCli_exec split: prod.split sum.split)

text \<open>Provisioning: the two \<open>ACL\<close> commands, a prefix of them when one fails.\<close>

definition redis_provision_script :: "string \<Rightarrow> string \<Rightarrow> string \<Rightarrow> bool \<Rightarrow> string list list" where
  "redis_provision_script pass app password fullAccess =
     [redis_cli pass [''ACL'', ''SETUSER'', app, ''on'', ''>'' @ password,
        if fullAccess then ''~*'' else ''~'' @ app @ '':*'', ''+@all''],
      redis_cli pass [''ACL'', ''SAVE'']]"

lemma redis_provision_alt:
  assumes "reads_ok h"
  shows "redis_provision h app fullAccess w =
     (case validate_app_name app of
        Some e \<Rightarrow> (Inl e, w)
      | None \<Rightarrow>
          (case generate h 24 w of
             (password, w1) \<Rightarrow>
               (case exec_all h redis_container
                       (redis_provision_script (admin_pass h w) app password fullAccess) w1 of
                  (Some e, w2) \<Rightarrow> (Inl e, w2)
                | (None, w2) \<Rightarrow>
                    (Inr \<lparr>redis_Username = app, redis_Password = password,
                       redis_Prefix = (if fullAccess then [] else app @ '':'')\<rparr>, w2))))"
proof (cases "validate_app_name app")
  case None
  obtain password w1 where g: "generate h 24 w = (password, w1)" by fastforce
  then have p1: "admin_pass h w1 = admin_pass h w"
    using assms by (intro admin_pass_same) (simp_all add: generate_frame)
  have p2: "admin_pass h w2 = admin_pass h w" if "docker_exec h c cmd w1 = (r, w2)" for c cmd r w2
    using docker_exec_calls [OF that] generate_frame [OF g] assms by (intro admin_pass_same) simp_all
  show ?thesis
    unfolding redis_provision_def redis_provision_script_def None g adminCli_exec Let_def
    by (auto simp: p1 dest: p2 split: prod.split sum.split if_split)
qed (simp add: redis_provision_def)

end
