(* ===== verification/RabbitmqSvc.thy ===== *)
theory RabbitmqSvc
  imports ServiceEnv
begin

text \<open>
  \<open>internal/services/rabbitmq\<close>: one vhost and user per app, the definitions export filtered by
  vhost, and \<open>Ensure\<close>, which re-applies a registered configuration.
\<close>

definition rmq_container :: string where
  "rmq_container = ''infra-rabbitmq''"

definition ctl :: "string list \<Rightarrow> string list" where
  "ctl args = ''rabbitmqctl'' # args"

definition rabbitmq_provision_script :: "string \<Rightarrow> string \<Rightarrow> string list list" where
  "rabbitmq_provision_script app password =
     [ctl [''add_vhost'', app],
      ctl [''add_user'', app, password],
      ctl [''set_permissions'', ''-p'', app, app, ''.*'', ''.*'', ''.*''],
      ctl [''set_user_tags'', app, ''management'']]"

definition rabbitmq_provision :: "'d host \<Rightarrow> string \<Rightarrow> 'd world \<Rightarrow> RabbitMQConfig result \<times> 'd world" where
  "rabbitmq_provision h app w =
     (case validate_app_name app of
        Some e \<Rightarrow> (Inl e, w)
      | None \<Rightarrow>
          (case generate h 24 w of
             (password, w1) \<Rightarrow>
               (case exec_all h rmq_container (rabbitmq_provision_script app password) w1 of
                  (Some e, w2) \<Rightarrow> (Inl e, w2)
                | (None, w2) \<Rightarrow>
                    (Inr \<lparr>rmq_Vhost = app, rmq_Username = app, rmq_Password = password\<rparr>, w2))))"

section \<open>Backup and restore\<close>

text \<open>The objects of a list whose member \<open>key\<close> is the string \<open>value\<close>.\<close>

definition string_member :: "string \<Rightarrow> (string \<times> json) list \<Rightarrow> string" where
  "string_member key ms = (case member key ms of JStr s \<Rightarrow> s | _ \<Rightarrow> [])"

definition filterByKey :: "json \<Rightarrow> string \<Rightarrow> string \<Rightarrow> json list" where
  "filterByKey raw key value =
     (case raw of
        JArr items \<Rightarrow>
          filter (\<lambda>it. case it of JObj ms \<Rightarrow> string_member key ms = value | _ \<Rightarrow> False) items
      | _ \<Rightarrow> [])"

definition export_definitions :: "(string \<times> json) list \<Rightarrow> string \<Rightarrow> json" where
  "export_definitions full app =
     JObj ((if member ''rabbit_version'' full = JNull then [] else [(''rabbit_version'', member ''rabbit_version'' full)])
       @ map (\<lambda>(section_name, key). (section_name, JArr (filterByKey (member section_name full) key app)))
           [(''vhosts'', ''name''), (''users'', ''name''), (''permissions'', ''vhost''), (''queues'', ''vhost''),
            (''exchanges'', ''vhost''), (''bindings'', ''vhost''), (''policies'', ''vhost'')])"

text \<open>\<open>json.Unmarshal\<close> into a \<open>map[string]any\<close>.\<close>

definition read_any_map :: "'d host \<Rightarrow> string \<Rightarrow> (string \<times> json) list option" where
  "read_any_map h text =
     (case parse_json text of
        None \<Rightarrow> None
      | Some v \<Rightarrow>
          (case any_json h v of
             Some JNull \<Rightarrow> Some []
           | Some (JObj ms) \<Rightarrow> Some ms
           | _ \<Rightarrow> None))"

definition rabbitmq_backup :: "'d host \<Rightarrow> string \<Rightarrow> string \<Rightarrow> 'd world \<Rightarrow> error option \<times> 'd world" where
  "rabbitmq_backup h app dest w =
     (case validate_app_name app of
        Some e \<Rightarrow> (Some e, w)
      | None \<Rightarrow>
          (case docker_exec h rmq_container (ctl [''export_definitions'', ''-'']) w of
             (Inl e, w1) \<Rightarrow> (Some e, w1)
           | (Inr raw, w1) \<Rightarrow>
               (case read_any_map h raw of
                  None \<Rightarrow> (Some (wrapf ''rabbitmq backup: parse definitions: '' json_syntax []), w1)
                | Some full \<Rightarrow> write_file h dest (marshal_indent (export_definitions full app)) w1)))"

definition rabbitmq_restore :: "'d host \<Rightarrow> string \<Rightarrow> 'd world \<Rightarrow> error option \<times> 'd world" where
  "rabbitmq_restore h src w =
     (case read_file h w src of
        Inl e \<Rightarrow> (Some e, w)
      | Inr payload \<Rightarrow>
          wrap_err ''rabbitmqctl import failed: ''
            (discard (ExecWithStdin h rmq_container (Some payload)
               (ctl [''import_definitions'', ''/dev/stdin'']) w)))"

section \<open>Ensure and teardown\<close>

definition containsLine :: "string \<Rightarrow> string \<Rightarrow> bool" where
  "containsLine out target = list_ex (\<lambda>l. trim_space l = target) (split_on (CHR 0x0A) out)"

definition containsUser :: "string \<Rightarrow> string \<Rightarrow> bool" where
  "containsUser out target =
     list_ex (\<lambda>l. trim_space (hd (split_on (CHR 0x09) l)) = target) (split_on (CHR 0x0A) out)"

definition ensure_step ::
  "'d host \<Rightarrow> string \<Rightarrow> string list \<Rightarrow> 'd world \<Rightarrow> error option \<times> 'd world" where
  "ensure_step h what args w =
     wrap_err (''rabbitmq ensure: '' @ what @ '': '') (discard (docker_exec h rmq_container (ctl args) w))"

definition rabbitmq_ensure :: "'d host \<Rightarrow> RabbitMQConfig \<Rightarrow> 'd world \<Rightarrow> error option \<times> 'd world" where
  "rabbitmq_ensure h cfg w =
     (if rmq_Vhost cfg = [] \<or> rmq_Username cfg = [] \<or> rmq_Password cfg = []
      then (Some (errorf (''rabbitmq ensure: incomplete config (vhost='' @ quote (rmq_Vhost cfg)
              @ '' user='' @ quote (rmq_Username cfg) @ '')'')), w)
      else
        (case docker_exec h rmq_container (ctl [''list_vhosts'', ''--no-table-headers'']) w of
           (Inl e, w1) \<Rightarrow> (Some (wrapf ''rabbitmq ensure: list_vhosts: '' e []), w1)
         | (Inr vhosts, w1) \<Rightarrow>
             and_then
               (if containsLine vhosts (rmq_Vhost cfg) then (None, w1)
                else ensure_step h (''add_vhost '' @ quote (rmq_Vhost cfg)) [''add_vhost'', rmq_Vhost cfg] w1)
             (\<lambda>w2.
               case docker_exec h rmq_container (ctl [''list_users'', ''--no-table-headers'']) w2 of
                 (Inl e, w3) \<Rightarrow> (Some (wrapf ''rabbitmq ensure: list_users: '' e []), w3)
               | (Inr users, w3) \<Rightarrow>
                   and_then
                     (if \<not> containsUser users (rmq_Username cfg)
                      then ensure_step h (''add_user '' @ quote (rmq_Username cfg))
                             [''add_user'', rmq_Username cfg, rmq_Password cfg] w3
                      else ensure_step h (''change_password '' @ quote (rmq_Username cfg))
                             [''change_password'', rmq_Username cfg, rmq_Password cfg] w3)
                   (\<lambda>w4. and_then
                     (ensure_step h ''set_permissions''
                        [''set_permissions'', ''-p'', rmq_Vhost cfg, rmq_Username cfg, ''.*'', ''.*'', ''.*''] w4)
                     (ensure_step h ''set_user_tags'' [''set_user_tags'', rmq_Username cfg, ''management''])))))"

definition rabbitmq_teardown :: "'d host \<Rightarrow> string \<Rightarrow> 'd world \<Rightarrow> error option \<times> 'd world" where
  "rabbitmq_teardown h app w =
     (case validate_app_name app of
        Some e \<Rightarrow> (Some e, w)
      | None \<Rightarrow>
          (case docker_exec h rmq_container (ctl [''delete_user'', app]) w of
             (_, w1) \<Rightarrow> discard (docker_exec h rmq_container (ctl [''delete_vhost'', app]) w1)))"

section \<open>What is kept and what is issued\<close>

lemma filterByKey_mem:
  "JObj ms \<in> set (filterByKey raw key value) \<Longrightarrow> string_member key ms = value"
  by (auto simp: filterByKey_def split: json.splits)

lemma filterByKey_objects: "it \<in> set (filterByKey raw key value) \<Longrightarrow> \<exists>ms. it = JObj ms"
  by (auto simp: filterByKey_def split: json.splits)

lemma ensure_step_calls:
  "ensure_step h what args w = (r, w') \<Longrightarrow>
     calls w' = calls w @ [(''exec'' # rmq_container # ctl args, None)] \<and> files w' = files w \<and> report w' = report w"
proof -
  assume a: "ensure_step h what args w = (r, w')"
  obtain r1 w1 where 1: "docker_exec h rmq_container (ctl args) w = (r1, w1)" by fastforce
  have "w' = w1"
    using a 1 unfolding ensure_step_def by (metis snd_combinators snd_conv)
  with docker_exec_calls [OF 1] show ?thesis by simp
qed

lemma rabbitmq_ensure_ran:
  assumes "rabbitmq_ensure h cfg w = (r, w')"
    and P: "\<And>args. P (''exec'' # rmq_container # ctl args, None)"
  shows "ran P w w'"
proof -
  have d: "ran P u v" if "docker_exec h rmq_container (ctl args) u = (x, v)" for args u x v
    using that P by (rule ran_docker_exec [where P = P])
  have e: "ran P u v" if "ensure_step h what args u = (x, v)" for what args u x v
    using ensure_step_calls [OF that] P by (intro ranI [of _ _ "[_]"]) auto
  show ?thesis
    using assms(1)
    by (auto simp: rabbitmq_ensure_def and_then_def split: if_splits prod.splits sum.splits option.splits
        dest!: d e) (meson ran_trans)+
qed

lemma rabbitmq_teardown_calls:
  assumes "rabbitmq_teardown h app w = (r, w')" "name_pattern app"
  shows "calls w' = calls w @ exec_calls rmq_container [ctl [''delete_user'', app], ctl [''delete_vhost'', app]]"
    and "files w' = files w"
  using assms
  by (auto simp: rabbitmq_teardown_def validate_app_name_def app_name_pattern_def discard_def
      split: prod.splits sum.splits dest!: docker_exec_calls)

end
