(* ===== verification/MongodbSvc.thy ===== *)
theory MongodbSvc
  imports ServiceEnv
begin

text \<open>
  \<open>internal/services/mongodb\<close> and \<open>internal/services/signoz\<close>.  MongoDB is driven by scripts that
  name the root credentials by variable, so the secret is passed by \<open>-e\<close> and is in no script.
\<close>

definition mongo_container :: string where
  "mongo_container = ''infra-mongodb''"

definition mongo_creds :: "'d host \<Rightarrow> 'd world \<Rightarrow> (string \<times> string) result" where
  "mongo_creds h w =
     getRootCreds h w ''MONGO_INITDB_ROOT_USERNAME'' ''MONGO_INITDB_ROOT_PASSWORD''
       ''MongoDB: MONGO_INITDB_ROOT_USERNAME and MONGO_INITDB_ROOT_PASSWORD must be set in .env or env''"

definition mongo_vars :: "string \<times> string \<Rightarrow> string list" where
  "mongo_vars creds = [''MONGO_ROOT_USER='' @ fst creds, ''MONGO_ROOT_PASS='' @ snd creds]"

definition mongoShell ::
  "'d host \<Rightarrow> string \<Rightarrow> string option \<Rightarrow> string option \<Rightarrow> 'd world \<Rightarrow> error option \<times> 'd world" where
  "mongoShell h script input dest w =
     (case mongo_creds h w of
        Inl e \<Rightarrow> (Some e, w)
      | Inr creds \<Rightarrow>
          shell ''mongodb shell failed: '' h (mongo_vars creds) mongo_container input dest script w)"

definition mongo_login :: string where
  "mongo_login = ''-u \"$MONGO_ROOT_USER\" -p \"$MONGO_ROOT_PASS\" --authenticationDatabase admin''"

definition eval_script :: "string \<Rightarrow> string" where
  "eval_script js = ''mongosh --quiet '' @ mongo_login @ '' --eval '' @ [CHR 0x27] @ js @ [CHR 0x27]"

definition mongoEval :: "'d host \<Rightarrow> string \<Rightarrow> 'd world \<Rightarrow> error option \<times> 'd world" where
  "mongoEval h js w = mongoShell h (eval_script js) None None w"

definition mongo_roles :: "string \<Rightarrow> string" where
  "mongo_roles db = ''[{role:\"readWrite\",db:\"'' @ db @ ''\"},{role:\"dbAdmin\",db:\"'' @ db @ ''\"}]''"

definition create_user_js :: "string \<Rightarrow> string \<Rightarrow> string" where
  "create_user_js app password =
     ''db.getSiblingDB(\"'' @ app @ ''\").createUser({user:\"'' @ app @ ''\",pwd:\"'' @ password
     @ ''\",roles:'' @ mongo_roles app @ ''})''"

definition mongodb_provision :: "'d host \<Rightarrow> string \<Rightarrow> 'd world \<Rightarrow> MongoDBConfig result \<times> 'd world" where
  "mongodb_provision h app w =
     (case validate_app_name app of
        Some e \<Rightarrow> (Inl e, w)
      | None \<Rightarrow>
          (case generate h 24 w of
             (password, w1) \<Rightarrow>
               (case mongoEval h (create_user_js app password) w1 of
                  (Some e, w2) \<Rightarrow> (Inl e, w2)
                | (None, w2) \<Rightarrow>
                    (Inr \<lparr>mongo_Database = app, mongo_Username = app, mongo_Password = password\<rparr>, w2))))"

definition dump_script :: "string \<Rightarrow> string" where
  "dump_script app = ''mongodump --quiet '' @ mongo_login @ '' --db \"'' @ app @ ''\" --archive --gzip''"

definition mongodb_backup :: "'d host \<Rightarrow> string \<Rightarrow> string \<Rightarrow> 'd world \<Rightarrow> error option \<times> 'd world" where
  "mongodb_backup h app dest w =
     (case validate_app_name app of
        Some e \<Rightarrow> (Some e, w)
      | None \<Rightarrow>
          and_then (write_file h dest [] w) (mongoShell h (dump_script app) None (Some dest)))"

definition mongo_restore_script :: "string \<Rightarrow> string" where
  "mongo_restore_script app =
     ''mongorestore --quiet '' @ mongo_login @ '' --archive --gzip --drop --nsInclude \"'' @ app @ ''.*\"''"

definition mongodb_restore :: "'d host \<Rightarrow> string \<Rightarrow> string \<Rightarrow> 'd world \<Rightarrow> error option \<times> 'd world" where
  "mongodb_restore h app src w =
     (case validate_app_name app of
        Some e \<Rightarrow> (Some e, w)
      | None \<Rightarrow>
          (case read_file h w src of
             Inl e \<Rightarrow> (Some e, w)
           | Inr content \<Rightarrow> mongoShell h (mongo_restore_script app) (Some content) None w))"

definition ensure_js :: "MongoDBConfig \<Rightarrow> string" where
  "ensure_js cfg =
     (let db = mongo_Database cfg; user = mongo_Username cfg; pwd = mongo_Password cfg in
      ''const d=db.getSiblingDB(\"'' @ db @ ''\");const r='' @ mongo_roles db
      @ '';if(d.getUser(\"'' @ user @ ''\")===null){d.createUser({user:\"'' @ user @ ''\",pwd:\"'' @ pwd
      @ ''\",roles:r});}else{d.updateUser(\"'' @ user @ ''\",{pwd:\"'' @ pwd @ ''\",roles:r});}'')"

definition mongodb_ensure :: "'d host \<Rightarrow> MongoDBConfig \<Rightarrow> 'd world \<Rightarrow> error option \<times> 'd world" where
  "mongodb_ensure h cfg w =
     (if mongo_Database cfg = [] \<or> mongo_Username cfg = [] \<or> mongo_Password cfg = []
      then (Some (errorf (''mongodb ensure: incomplete config (db='' @ quote (mongo_Database cfg)
              @ '' user='' @ quote (mongo_Username cfg) @ '')'')), w)
      else mongoEval h (ensure_js cfg) w)"

definition drop_js :: "string \<Rightarrow> string" where
  "drop_js app =
     ''const d=db.getSiblingDB(\"'' @ app @ ''\");try{d.dropUser(\"'' @ app
     @ ''\");}catch(e){}d.dropDatabase();''"

definition mongodb_teardown :: "'d host \<Rightarrow> string \<Rightarrow> 'd world \<Rightarrow> error option \<times> 'd world" where
  "mongodb_teardown h app w =
     (case validate_app_name app of
        Some e \<Rightarrow> (Some e, w)
      | None \<Rightarrow> mongoEval h (drop_js app) w)"

section \<open>SignOz\<close>

definition signoz_provision :: "'d host \<Rightarrow> string \<Rightarrow> string \<Rightarrow> string \<Rightarrow> SignozConfig" where
  "signoz_provision h app service_name env =
     (let env0 = trim_space (getenv h ''SIGNOZ_DEFAULT_ENV'') in
      \<lparr>otel_ServiceName = (if service_name = [] then app else service_name),
       otel_Environment = (if env \<noteq> [] then env else if env0 \<noteq> [] then env0 else ''dev'')\<rparr>)"

definition signoz_teardown :: "string \<Rightarrow> error option" where
  "signoz_teardown app = None"

section \<open>What is issued\<close>

lemma mongoShell_cases:
  "mongoShell h script input dest w = (r, w') \<Longrightarrow>
     (\<exists>e. r = Some e \<and> w' = w) \<or>
     (\<exists>creds. mongo_creds h w = Inr creds
        \<and> calls w' = calls w @ [(shell_args (mongo_vars creds) mongo_container input script, input)]
        \<and> report w' = report w \<and> (dest = None \<longrightarrow> files w' = files w))"
  by (auto simp: mongoShell_def split: sum.splits dest!: shell_calls)

text \<open>A script never contains the credentials: it is the same whatever they are.\<close>

lemma mongoEval_quote_free:
  "CHR 0x27 \<notin> set js \<Longrightarrow> split_on (CHR 0x27) (eval_script js) = [''mongosh --quiet '' @ mongo_login @ '' --eval '', js, []]"
proof -
  assume js: "CHR 0x27 \<notin> set js"
  have l: "CHR 0x27 \<notin> set (''mongosh --quiet '' @ mongo_login @ '' --eval '')"
    by (simp add: mongo_login_def)
  have "eval_script js = (''mongosh --quiet '' @ mongo_login @ '' --eval '') @ CHR 0x27 # (js @ CHR 0x27 # [])"
    by (simp add: eval_script_def)
  then show ?thesis
    by (simp only: split_on_append [OF l] split_on_append [OF js] split_on.simps)
qed

lemma password_quote_free: "list_all is_password_char p \<Longrightarrow> CHR 0x27 \<notin> set p \<and> CHR 0x22 \<notin> set p"
  by (auto simp: list_all_iff is_password_char_def char_class_defs)

lemma name_quote_free: "name_pattern p \<Longrightarrow> CHR 0x27 \<notin> set p \<and> CHR 0x22 \<notin> set p"
  using name_pattern_excludes [of p "CHR 0x27"] name_pattern_excludes [of p "CHR 0x22"]
  by (simp add: char_class_defs)

end
