(* ===== verification/AistorSvc.thy ===== *)
theory AistorSvc
  imports ServiceEnv
begin

text \<open>
  \<open>internal/services/aistor\<close>: a bucket, a user and a policy per app, through the \<open>mc\<close> client in
  the container.
\<close>

definition aistor_container :: string where
  "aistor_container = ''infra-aistor''"

definition mcHostEnv :: "'d host \<Rightarrow> 'd world \<Rightarrow> string result" where
  "mcHostEnv h w =
     map_sum id (\<lambda>(user, pass).
         ''MC_HOST_local=http://'' @ query_escape user @ '':'' @ query_escape pass @ ''@localhost:9000'')
       (getRootCreds h w ''AISTOR_ROOT_USER'' ''AISTOR_ROOT_PASSWORD''
          ''AIStor: AISTOR_ROOT_USER and AISTOR_ROOT_PASSWORD must be set in .env or env'')"

definition mc_args :: "string \<Rightarrow> string list \<Rightarrow> string list" where
  "mc_args hostEnv args = [''exec'', ''-e'', hostEnv, aistor_container, ''mc''] @ args"

definition mc :: "'d host \<Rightarrow> string list \<Rightarrow> 'd world \<Rightarrow> string result \<times> 'd world" where
  "mc h args w =
     (case mcHostEnv h w of
        Inl e \<Rightarrow> (Inl e, w)
      | Inr hostEnv \<Rightarrow>
          (case run_docker h (mc_args hostEnv args) None w of
             (r, w') \<Rightarrow>
               (if status r = ExitOk then (Inr (trim_space (stdout r)), w')
                else (let e = trim_space (stderr r); msg = (if e = [] then trim_space (stdout r) else e) in
                  (Inl (errorf (''mc '' @ join '' '' args @ '' failed: '' @ msg)), w')))))"

definition mcShell ::
  "'d host \<Rightarrow> string \<Rightarrow> string option \<Rightarrow> string option \<Rightarrow> 'd world \<Rightarrow> error option \<times> 'd world" where
  "mcShell h script input dest w =
     (case mcHostEnv h w of
        Inl e \<Rightarrow> (Some e, w)
      | Inr hostEnv \<Rightarrow> shell ''mc shell failed: '' h [hostEnv] aistor_container input dest script w)"

definition policyName :: "string \<Rightarrow> string" where
  "policyName app = app @ ''-rw''"

definition bucketPolicy :: "string \<Rightarrow> string" where
  "bucketPolicy app = marshal (JObj
     [(''Statement'', JArr [JObj
         [(''Action'', JArr [JStr ''s3:*'']), (''Effect'', JStr ''Allow''),
          (''Resource'', JArr [JStr (''arn:aws:s3:::'' @ app), JStr (''arn:aws:s3:::'' @ app @ ''/*'')])]]),
      (''Version'', JStr ''2012-10-17'')])"

definition shell_quote :: "string \<Rightarrow> string" where
  "shell_quote s =
     [CHR 0x27] @ replace_all s [CHR 0x27] [CHR 0x27, CHR 0x5C, CHR 0x27, CHR 0x27] @ [CHR 0x27]"

definition policy_script :: "string \<Rightarrow> string" where
  "policy_script app =
     ''printf '%s' '' @ shell_quote (bucketPolicy app) @ '' > /tmp/aistor-policy-'' @ app
     @ ''.json && mc admin policy create local '' @ policyName app @ '' /tmp/aistor-policy-'' @ app
     @ ''.json && rm -f /tmp/aistor-policy-'' @ app @ ''.json''"

definition aistor_provision :: "'d host \<Rightarrow> string \<Rightarrow> 'd world \<Rightarrow> AIStorConfig result \<times> 'd world" where
  "aistor_provision h app w =
     (case validate_app_name app of
        Some e \<Rightarrow> (Inl e, w)
      | None \<Rightarrow>
          (case generate h 24 w of
             (secretKey, w1) \<Rightarrow>
               bind_err (mc h [''mb'', ''--ignore-existing'', ''local/'' @ app] w1) (\<lambda>_ w2.
               bind_err (mc h [''admin'', ''user'', ''add'', ''local'', app, secretKey] w2) (\<lambda>_ w3.
               case mcShell h (policy_script app) None None w3 of
                 (Some e, w4) \<Rightarrow> (Inl e, w4)
               | (None, w4) \<Rightarrow>
                   bind_err (mc h [''admin'', ''policy'', ''attach'', ''local'', policyName app, ''--user'', app] w4)
                     (\<lambda>_ w5. (Inr \<lparr>s3_Bucket = app, s3_AccessKey = app, s3_SecretKey = secretKey,
                        s3_Endpoint = ''http://aistor:9000''\<rparr>, w5))))))"

definition aistor_backup_script :: "string \<Rightarrow> string" where
  "aistor_backup_script app =
     ''set -e; rm -rf /tmp/aistor-bk && mkdir -p /tmp/aistor-bk && mc mirror --quiet --overwrite local/'' @ app
     @ '' /tmp/aistor-bk/'' @ app @ ''/ >/dev/null && tar -cf - -C /tmp/aistor-bk '' @ app
     @ ''; rc=$?; rm -rf /tmp/aistor-bk; exit $rc''"

definition aistor_backup :: "'d host \<Rightarrow> string \<Rightarrow> string \<Rightarrow> 'd world \<Rightarrow> error option \<times> 'd world" where
  "aistor_backup h app dest w =
     (case validate_app_name app of
        Some e \<Rightarrow> (Some e, w)
      | None \<Rightarrow>
          and_then (write_file h dest [] w) (mcShell h (aistor_backup_script app) None (Some dest)))"

definition aistor_restore_script :: "string \<Rightarrow> string" where
  "aistor_restore_script app =
     ''set -e; rm -rf /tmp/aistor-rs && mkdir -p /tmp/aistor-rs && tar -xf - -C /tmp/aistor-rs && mc mb --ignore-existing local/''
     @ app @ '' >/dev/null && mc mirror --quiet --overwrite --remove /tmp/aistor-rs/'' @ app @ ''/ local/'' @ app
     @ '' >/dev/null; rc=$?; rm -rf /tmp/aistor-rs; exit $rc''"

definition aistor_restore :: "'d host \<Rightarrow> string \<Rightarrow> string \<Rightarrow> 'd world \<Rightarrow> error option \<times> 'd world" where
  "aistor_restore h app src w =
     (case validate_app_name app of
        Some e \<Rightarrow> (Some e, w)
      | None \<Rightarrow>
          (case read_file h w src of
             Inl e \<Rightarrow> (Some e, w)
           | Inr content \<Rightarrow> mcShell h (aistor_restore_script app) (Some content) None w))"

text \<open>Every step of the teardown is tried, and none of them fails it.\<close>

definition aistor_teardown_steps :: "string \<Rightarrow> string list list" where
  "aistor_teardown_steps app =
     [[''rb'', ''--force'', ''--dangerous'', ''local/'' @ app],
      [''admin'', ''policy'', ''detach'', ''local'', policyName app, ''--user'', app],
      [''admin'', ''policy'', ''rm'', ''local'', policyName app],
      [''admin'', ''user'', ''remove'', ''local'', app]]"

definition aistor_teardown :: "'d host \<Rightarrow> string \<Rightarrow> 'd world \<Rightarrow> error option \<times> 'd world" where
  "aistor_teardown h app w =
     (case validate_app_name app of
        Some e \<Rightarrow> (Some e, w)
      | None \<Rightarrow> (None, fold (\<lambda>args w. snd (mc h args w)) (aistor_teardown_steps app) w))"

section \<open>What is issued\<close>

lemma mc_cases:
  "mc h args w = (r, w') \<Longrightarrow>
     (\<exists>e. r = Inl e \<and> w' = w) \<or>
     (\<exists>v. mcHostEnv h w = Inr v \<and> calls w' = calls w @ [(mc_args v args, None)]
        \<and> files w' = files w \<and> report w' = report w)"
  by (cases "mcHostEnv h w")
    (auto simp: mc_def Let_def run_docker_frame intro: sym split: prod.splits if_splits)

lemma mcShell_cases:
  "mcShell h script input dest w = (r, w') \<Longrightarrow>
     (\<exists>e. r = Some e \<and> w' = w) \<or>
     (\<exists>v. mcHostEnv h w = Inr v
        \<and> calls w' = calls w @ [(shell_args [v] aistor_container input script, input)]
        \<and> report w' = report w \<and> (dest = None \<longrightarrow> files w' = files w))"
  by (cases "mcHostEnv h w") (auto simp: mcShell_def dest!: shell_calls)

lemma query_escape_chars: "CHR 0x40 \<notin> set (query_escape s) \<and> CHR '':'' \<notin> set (query_escape s) \<and> slash \<notin> set (query_escape s)"
proof (induction s)
  case (Cons c s)
  have h: "upper_hex d \<notin> {CHR 0x40, CHR '':'', slash}" if "d < 16" for d
    using that by (auto simp: upper_hex_def slash_def char_eq_iff_nat)
  have "(of_char c :: nat) div 16 < 16" by (simp add: less_mult_imp_div_less)
  then have "{CHR 0x40, CHR '':'', slash} \<inter> set (query_char c) = {}"
    using h [of "of_char c div 16"] h [of "of_char c mod 16"]
    by (auto simp: query_char_def percent_def Let_def char_class_defs slash_def)
  with Cons show ?case by (auto simp: query_escape_def)
qed (simp add: query_escape_def)

end
