(* ===== verification/ServiceOps.thy ===== *)
theory ServiceOps
  imports PostgresSvc RedisSvc RabbitmqSvc MongodbSvc AistorSvc
begin

text \<open>
  \<open>internal/shelfcore/services.go\<close>: the dispatch from a service name to its package, the tables of
  containers and hints, and the service slots of an app entry.  A configuration of any service
  (\<open>any\<close> in the source) is a \<open>service_config\<close>.
\<close>

section \<open>Sentinel errors\<close>

fun sentinel_text :: "sentinel \<Rightarrow> string" where
  "sentinel_text ErrAppNotFound = ''app not found''"
| "sentinel_text ErrAppAlreadyExists = ''app already exists''"
| "sentinel_text ErrNoServices = ''at least one service is required''"
| "sentinel_text ErrServiceNotAttached = ''service is not attached to this app''"
| "sentinel_text ErrNotDetachable = ''service is not detachable''"
| "sentinel_text ErrContainerNotRunning = ''container is not running''"
| "sentinel_text ErrNonBackupable = ''service has no backup support''"
| "sentinel_text ErrBackupNotFound = ''no backup found''"
| "sentinel_text ErrNotExist = ''file does not exist''"
| "sentinel_text ErrNoRows = ''sql: no rows in result set''"

text \<open>\<open>fmt.Errorf("%w<post>", sentinel)\<close>.\<close>

definition tagged :: "sentinel \<Rightarrow> string \<Rightarrow> error" where
  "tagged s post = Error (Some s) (sentinel_text s @ post)"

lemma err_is_tagged [simp]: "err_is (tagged s p) = Some s"
  by (simp add: tagged_def)

section \<open>Tables\<close>

definition serviceContainer :: "string \<Rightarrow> string" where
  "serviceContainer svc =
     (if svc = Postgres then pg_container else if svc = Redis then redis_container
      else if svc = RabbitMQ then rmq_container else if svc = AIStor then aistor_container
      else if svc = MongoDB then mongo_container
      else if svc = Signoz then ''infra-signoz-otel-collector'' else [])"

definition startHint :: "string \<Rightarrow> string" where
  "startHint svc =
     (if svc = Signoz then ''make signoz-up'' else if svc = AIStor then ''make s3-up'' else [])"

definition nonBackupable :: "string \<Rightarrow> bool" where
  "nonBackupable svc = (svc = Signoz)"

definition detachable :: "string \<Rightarrow> bool" where
  "detachable svc = (svc = Signoz)"

definition orderedServices :: "string list" where
  "orderedServices = [Postgres, Redis, RabbitMQ, AIStor, MongoDB, Signoz]"

fun containerCheck :: "'d host \<Rightarrow> string list \<Rightarrow> 'd world \<Rightarrow> error option \<times> 'd world" where
  "containerCheck h [] w = (None, w)"
| "containerCheck h (svc # svcs) w =
     (case IsContainerRunning h (serviceContainer svc) w of
        (running, w1) \<Rightarrow>
          (if \<not> running
           then (Some (tagged ErrContainerNotRunning ('': container '' @ quote (serviceContainer svc) @ '' for ''
                   @ svc @ '' (start with: '' @ (if startHint svc = [] then ''make up'' else startHint svc)
                   @ '')'')), w1)
           else containerCheck h svcs w1))"

section \<open>Service slots\<close>

datatype service_config =
    CfgPostgres PostgresConfig
  | CfgRedis RedisConfig
  | CfgRabbitMQ RabbitMQConfig
  | CfgAIStor AIStorConfig
  | CfgMongoDB MongoDBConfig
  | CfgSignoz SignozConfig

fun config_service :: "service_config \<Rightarrow> string" where
  "config_service (CfgPostgres _) = Postgres"
| "config_service (CfgRedis _) = Redis"
| "config_service (CfgRabbitMQ _) = RabbitMQ"
| "config_service (CfgAIStor _) = AIStor"
| "config_service (CfgMongoDB _) = MongoDB"
| "config_service (CfgSignoz _) = Signoz"

text \<open>
  The type assertions of the source panic on a configuration of another service; here such a
  pair leaves the entry alone, and \<open>provisionService_config\<close> shows that it does not arise.
\<close>

fun set_slot :: "service_config \<Rightarrow> Services \<Rightarrow> Services" where
  "set_slot (CfgPostgres c) s = s\<lparr>svcPostgres := Some c\<rparr>"
| "set_slot (CfgRedis c) s = s\<lparr>svcRedis := Some c\<rparr>"
| "set_slot (CfgRabbitMQ c) s = s\<lparr>svcRabbitMQ := Some c\<rparr>"
| "set_slot (CfgAIStor c) s = s\<lparr>svcAIStor := Some c\<rparr>"
| "set_slot (CfgMongoDB c) s = s\<lparr>svcMongoDB := Some c\<rparr>"
| "set_slot (CfgSignoz c) s = s\<lparr>svcSignoz := Some c\<rparr>"

definition setServiceConfig :: "AppEntry \<Rightarrow> string \<Rightarrow> service_config \<Rightarrow> AppEntry" where
  "setServiceConfig entry svc cfg =
     (if config_service cfg = svc then entry\<lparr>Svcs := set_slot cfg (Svcs entry)\<rparr> else entry)"

definition clearServiceConfig :: "AppEntry \<Rightarrow> string \<Rightarrow> AppEntry" where
  "clearServiceConfig entry svc =
     entry\<lparr>Svcs :=
       (if svc = Postgres then (Svcs entry)\<lparr>svcPostgres := None\<rparr>
        else if svc = Redis then (Svcs entry)\<lparr>svcRedis := None\<rparr>
        else if svc = RabbitMQ then (Svcs entry)\<lparr>svcRabbitMQ := None\<rparr>
        else if svc = AIStor then (Svcs entry)\<lparr>svcAIStor := None\<rparr>
        else if svc = MongoDB then (Svcs entry)\<lparr>svcMongoDB := None\<rparr>
        else if svc = Signoz then (Svcs entry)\<lparr>svcSignoz := None\<rparr>
        else Svcs entry)\<rparr>"

definition hasService :: "AppEntry \<Rightarrow> string \<Rightarrow> bool" where
  "hasService entry svc =
     (if svc = Postgres then svcPostgres (Svcs entry) \<noteq> None
      else if svc = Redis then svcRedis (Svcs entry) \<noteq> None
      else if svc = RabbitMQ then svcRabbitMQ (Svcs entry) \<noteq> None
      else if svc = AIStor then svcAIStor (Svcs entry) \<noteq> None
      else if svc = MongoDB then svcMongoDB (Svcs entry) \<noteq> None
      else if svc = Signoz then svcSignoz (Svcs entry) \<noteq> None
      else False)"

section \<open>Dispatch\<close>

record provisionOptions =
  poFullAccess :: bool
  poSignozServiceName :: string
  poSignozEnvironment :: string

definition teardownService :: "'d host \<Rightarrow> string \<Rightarrow> string \<Rightarrow> 'd world \<Rightarrow> error option \<times> 'd world" where
  "teardownService h svc app w =
     (if svc = Postgres then postgres_teardown h app w
      else if svc = Redis then redis_teardown h app w
      else if svc = RabbitMQ then rabbitmq_teardown h app w
      else if svc = AIStor then aistor_teardown h app w
      else if svc = MongoDB then mongodb_teardown h app w
      else if svc = Signoz then (None, w)
      else (Some (errorf (''unknown service: '' @ svc)), w))"

definition lift_config :: "('c \<Rightarrow> service_config) \<Rightarrow> 'c result \<times> 'w \<Rightarrow> service_config result \<times> 'w" where
  "lift_config f m = (map_sum id f (fst m), snd m)"

definition provisionService ::
  "'d host \<Rightarrow> string \<Rightarrow> string \<Rightarrow> provisionOptions \<Rightarrow> 'd world \<Rightarrow> service_config result \<times> 'd world" where
  "provisionService h svc app opts w =
     (if svc = Postgres then lift_config CfgPostgres (postgres_provision h app w)
      else if svc = Redis then lift_config CfgRedis (redis_provision h app (poFullAccess opts) w)
      else if svc = RabbitMQ then lift_config CfgRabbitMQ (rabbitmq_provision h app w)
      else if svc = AIStor then lift_config CfgAIStor (aistor_provision h app w)
      else if svc = MongoDB then lift_config CfgMongoDB (mongodb_provision h app w)
      else if svc = Signoz
        then (Inr (CfgSignoz (signoz_provision h app (poSignozServiceName opts) (poSignozEnvironment opts))), w)
      else (Inl (errorf (''unknown service: '' @ svc)), w))"

section \<open>The slots behave like a map\<close>

lemma hasService_app_has_service: "hasService e svc = app_has_service e svc"
  by (simp add: hasService_def app_has_service_def)

lemma hasService_set:
  "hasService (setServiceConfig e svc cfg) s =
     (if config_service cfg = svc \<and> s = svc then True else hasService e s)"
  by (cases cfg) (auto simp: setServiceConfig_def hasService_def)

lemma hasService_clear: "hasService (clearServiceConfig e svc) s = (hasService e s \<and> s \<noteq> svc)"
  by (simp add: clearServiceConfig_def hasService_def)

lemma setServiceConfig_other_fields [simp]:
  "CreatedAt (setServiceConfig e svc cfg) = CreatedAt e"
  "Environment (setServiceConfig e svc cfg) = Environment e"
  "SignozServiceName (setServiceConfig e svc cfg) = SignozServiceName e"
  by (simp_all add: setServiceConfig_def)

lemma clearServiceConfig_other_fields [simp]:
  "CreatedAt (clearServiceConfig e svc) = CreatedAt e"
  "Environment (clearServiceConfig e svc) = Environment e"
  "SignozServiceName (clearServiceConfig e svc) = SignozServiceName e"
  by (simp_all add: clearServiceConfig_def)

lemma provisionService_config:
  "provisionService h svc app opts w = (Inr cfg, w') \<Longrightarrow> config_service cfg = svc"
proof -
  have l: "lift_config f m = (Inr cfg, w') \<Longrightarrow> \<exists>c. cfg = f c" for f :: "'c \<Rightarrow> service_config" and m
    by (cases "fst m") (auto simp: lift_config_def)
  then show "provisionService h svc app opts w = (Inr cfg, w') \<Longrightarrow> config_service cfg = svc"
    by (auto simp: provisionService_def split: if_splits dest!: l)
qed

section \<open>Effects\<close>

text \<open>
  From \<open>w\<close> to \<open>w'\<close> only \<open>docker\<close> processes with property \<open>P\<close> were started and messages sent; the
  files are as they were.
\<close>

definition acts :: "(string list \<times> string option \<Rightarrow> bool) \<Rightarrow> 'd world \<Rightarrow> 'd world \<Rightarrow> bool" where
  "acts P w w' =
     (calls w' = calls w @ issued w w' \<and> list_all P (issued w w') \<and> files w' = files w)"

lemma actsI: "calls w' = calls w @ cs \<Longrightarrow> list_all P cs \<Longrightarrow> files w' = files w \<Longrightarrow> acts P w w'"
  by (simp add: acts_def issued_def)

lemma acts_refl [simp]: "acts P w w"
  by (simp add: acts_def)

lemma acts_emit [simp]: "acts P w (emit l m w)" "acts P w (emit l m w') = acts P w w'"
  by (simp_all add: acts_def issued_def)

lemma acts_trans [trans]:
  assumes "acts P w w'" "acts P w' w''"
  shows "acts P w w''"
proof -
  have "calls w'' = calls w @ issued w w' @ issued w' w''" using assms by (simp add: acts_def)
  with assms show ?thesis by (intro actsI) (auto simp: acts_def)
qed

lemma ran_acts: "ran P w w' \<Longrightarrow> acts P w w'"
  by (simp add: ran_def acts_def)

lemma acts_mono: "acts P w w' \<Longrightarrow> (\<And>c. P c \<Longrightarrow> Q c) \<Longrightarrow> acts Q w w'"
  by (auto simp: acts_def list_all_iff)

lemma acts_files: "acts P w w' \<Longrightarrow> files w' = files w"
  by (simp add: acts_def)

text \<open>A process that runs a command inside the container of a service.\<close>

definition in_container :: "string \<Rightarrow> string list \<times> string option \<Rightarrow> bool" where
  "in_container container c = (hd (fst c) = ''exec'' \<and> container \<in> set (fst c))"

lemma ran_exec_all:
  assumes "exec_all h c cmds w = (r, w')"
  shows "ran (in_container c) w w'"
proof -
  obtain k where "calls w' = calls w @ exec_calls c (take k cmds)" "files w' = files w" "report w' = report w"
    using exec_all_calls [OF assms] by blast
  then show ?thesis by (intro ranI) (auto simp: exec_calls_def list_all_iff in_container_def)
qed

lemma ran_in_exec: "docker_exec h c cmd w = (r, w') \<Longrightarrow> ran (in_container c) w w'"
  by (erule ran_docker_exec) (simp add: in_container_def)

lemma ran_adminCli: "adminCli h args w = (r, w') \<Longrightarrow> ran (in_container redis_container) w w'"
  by (simp add: adminCli_exec ran_in_exec)

lemma ran_mc: "mc h args w = (r, w') \<Longrightarrow> ran (in_container aistor_container) w w'"
  by (drule mc_cases) (auto intro: ranI simp: in_container_def mc_args_def)

lemma ran_mcShell: "mcShell h script i None w = (r, w') \<Longrightarrow> ran (in_container aistor_container) w w'"
  by (drule mcShell_cases) (auto intro: ranI simp: in_container_def shell_args_def)

lemma ran_mongoShell: "mongoShell h script i None w = (r, w') \<Longrightarrow> ran (in_container mongo_container) w w'"
  by (drule mongoShell_cases) (auto intro: ranI simp: in_container_def shell_args_def)

lemmas ran_ops = ran_exec_all ran_in_exec ran_adminCli ran_mc ran_mcShell ran_mongoShell

lemma postgres_provision_ran:
  "postgres_provision h app w = (r, w') \<Longrightarrow> ran (in_container pg_container) w w'"
  by (auto simp: postgres_provision_alt split: option.splits prod.splits
      dest!: ran_generate [where P = "in_container pg_container"] ran_exec_all intro: ran_trans)

lemma redis_provision_ran:
  "redis_provision h app b w = (r, w') \<Longrightarrow> ran (in_container redis_container) w w'"
  by (auto simp: redis_provision_def Let_def split: option.splits prod.splits sum.splits if_splits
      dest!: ran_generate [where P = "in_container redis_container"] ran_adminCli)
    (meson ran_trans)+

lemma rabbitmq_provision_ran:
  "rabbitmq_provision h app w = (r, w') \<Longrightarrow> ran (in_container rmq_container) w w'"
  by (auto simp: rabbitmq_provision_def split: option.splits prod.splits
      dest!: ran_generate [where P = "in_container rmq_container"] ran_exec_all intro: ran_trans)

lemma mongodb_provision_ran:
  "mongodb_provision h app w = (r, w') \<Longrightarrow> ran (in_container mongo_container) w w'"
  by (auto simp: mongodb_provision_def mongoEval_def split: option.splits prod.splits
      dest!: ran_generate [where P = "in_container mongo_container"] ran_mongoShell intro: ran_trans)

lemma aistor_provision_ran:
  "aistor_provision h app w = (r, w') \<Longrightarrow> ran (in_container aistor_container) w w'"
  by (auto simp: aistor_provision_def bind_err_def split: option.splits prod.splits sum.splits
      dest!: ran_generate [where P = "in_container aistor_container"] ran_mc ran_mcShell)
    (meson ran_trans)+

lemma lift_config_snd: "lift_config f m = (r, w') \<Longrightarrow> \<exists>r'. m = (r', w')"
  by (cases m) (auto simp: lift_config_def)

lemma snd_discard_ran: "discard m = (r, w') \<Longrightarrow> \<exists>x. m = (x, w')"
  by (metis prod.collapse snd_combinators(1) snd_conv)

lemma postgres_teardown_ran:
  "postgres_teardown h app w = (r, w') \<Longrightarrow> ran (in_container pg_container) w w'"
  by (auto simp: postgres_teardown_def split: option.splits intro: ran_exec_all)

lemma redis_teardown_ran:
  "redis_teardown h app w = (r, w') \<Longrightarrow> ran (in_container redis_container) w w'"
  by (auto simp: redis_teardown_def and_then_def split: option.splits prod.splits
      dest!: snd_discard_ran ran_adminCli) (meson ran_trans)+

lemma rabbitmq_teardown_ran:
  "rabbitmq_teardown h app w = (r, w') \<Longrightarrow> ran (in_container rmq_container) w w'"
  by (auto simp: rabbitmq_teardown_def split: option.splits prod.splits
      dest!: snd_discard_ran ran_in_exec intro: ran_trans)

lemma ran_fold_mc: "ran (in_container aistor_container) w (fold (\<lambda>args w. snd (mc h args w)) steps w)"
proof (induction steps arbitrary: w)
  case (Cons a steps)
  have "ran (in_container aistor_container) w (snd (mc h a w))"
    by (rule ran_mc) (rule prod.collapse [symmetric])
  from ran_trans [OF this Cons.IH] show ?case by simp
qed simp

lemma aistor_teardown_ran:
  "aistor_teardown h app w = (r, w') \<Longrightarrow> ran (in_container aistor_container) w w'"
  using ran_fold_mc by (auto simp: aistor_teardown_def split: option.splits)

lemma mongodb_teardown_ran:
  "mongodb_teardown h app w = (r, w') \<Longrightarrow> ran (in_container mongo_container) w w'"
  by (auto simp: mongodb_teardown_def mongoEval_def split: option.splits intro: ran_mongoShell)

section \<open>What a container's service promises\<close>

text \<open>
  The contract the dispatch relies on: whatever the name and the options, both operations run commands in the
  container of the service only, and a name that is not valid is refused before anything runs.
\<close>

locale container_service =
  fixes box :: string
    and provision :: "string \<Rightarrow> 'd world \<Rightarrow> 'c result \<times> 'd world"
    and teardown :: "string \<Rightarrow> 'd world \<Rightarrow> error option \<times> 'd world"
  assumes provision_ran: "provision app w = (r, w') \<Longrightarrow> ran (in_container box) w w'"
    and teardown_ran: "teardown app w = (x, w') \<Longrightarrow> ran (in_container box) w w'"
    and provision_refuses: "validate_app_name app = Some e \<Longrightarrow> provision app w = (Inl e, w)"
    and teardown_refuses: "validate_app_name app = Some e \<Longrightarrow> teardown app w = (Some e, w)"
begin

lemma dispatched: "lift_config f (provision app w) = (r, w') \<Longrightarrow> ran (in_container box) w w'"
  by (drule lift_config_snd) (auto intro: provision_ran)

lemma dispatch_refuses: "validate_app_name app = Some e \<Longrightarrow> lift_config f (provision app w) = (Inl e, w)"
  by (simp add: provision_refuses lift_config_def)

text \<open>An app that is provisioned and torn down again has touched its container only.\<close>

lemma come_and_gone:
  "provision app w = (r, w1) \<Longrightarrow> teardown app w1 = (x, w2) \<Longrightarrow> ran (in_container box) w w2"
  by (blast intro: ran_trans provision_ran teardown_ran)

end

interpretation postgres: container_service pg_container "postgres_provision h" "postgres_teardown h" for h :: "'d host"
  by unfold_locales
    (auto intro: postgres_provision_ran postgres_teardown_ran simp: postgres_provision_def postgres_teardown_def)

interpretation redis: container_service redis_container "\<lambda>app. redis_provision h app full" "redis_teardown h"
  for h :: "'d host" and full
  by unfold_locales
    (auto intro: redis_provision_ran redis_teardown_ran simp: redis_provision_def redis_teardown_def)

interpretation rabbitmq: container_service rmq_container "rabbitmq_provision h" "rabbitmq_teardown h" for h :: "'d host"
  by unfold_locales
    (auto intro: rabbitmq_provision_ran rabbitmq_teardown_ran simp: rabbitmq_provision_def rabbitmq_teardown_def)

interpretation aistor: container_service aistor_container "aistor_provision h" "aistor_teardown h" for h :: "'d host"
  by unfold_locales
    (auto intro: aistor_provision_ran aistor_teardown_ran simp: aistor_provision_def aistor_teardown_def)

interpretation mongodb: container_service mongo_container "mongodb_provision h" "mongodb_teardown h" for h :: "'d host"
  by unfold_locales
    (auto intro: mongodb_provision_ran mongodb_teardown_ran simp: mongodb_provision_def mongodb_teardown_def)

text \<open>Provisioning a service, or tearing it down, runs commands in that service's container only.\<close>

lemma provisionService_ran:
  "provisionService h svc app opts w = (r, w') \<Longrightarrow> ran (in_container (serviceContainer svc)) w w'"
  by (auto simp: provisionService_def serviceContainer_def split: if_splits
      intro: postgres.dispatched redis.dispatched rabbitmq.dispatched aistor.dispatched mongodb.dispatched)

lemma teardownService_ran:
  "teardownService h svc app w = (r, w') \<Longrightarrow> ran (in_container (serviceContainer svc)) w w'"
  by (auto simp: teardownService_def serviceContainer_def split: if_splits
      intro: postgres.teardown_ran redis.teardown_ran rabbitmq.teardown_ran aistor.teardown_ran mongodb.teardown_ran)

text \<open>Whatever the service, a name that is not valid is refused before anything runs; SignOz has nothing to run.\<close>

lemma provisionService_refuses:
  assumes "validate_app_name app = Some e" "svc \<in> {Postgres, Redis, RabbitMQ, AIStor, MongoDB}"
  shows "provisionService h svc app opts w = (Inl e, w)"
  using assms
  by (auto simp: provisionService_def postgres.dispatch_refuses redis.dispatch_refuses rabbitmq.dispatch_refuses
      aistor.dispatch_refuses mongodb.dispatch_refuses)

text \<open>The container check only inspects, and when it passes every container was running.\<close>

definition is_inspect :: "string list \<times> string option \<Rightarrow> bool" where
  "is_inspect c = (take 2 (fst c) = [''inspect'', ''--format={{.State.Running}}''] \<and> snd c = None)"

lemma containerCheck_ran:
  "containerCheck h svcs w = (r, w') \<Longrightarrow> ran is_inspect w w'"
proof (induction svcs arbitrary: w)
  case (Cons s svcs)
  obtain b w1 where 1: "IsContainerRunning h (serviceContainer s) w = (b, w1)" by fastforce
  then have "ran is_inspect w w1"
    by (intro ranI [of _ _ "[_]"]) (auto dest: IsContainerRunning_calls simp: is_inspect_def)
  with Cons 1 show ?case by (auto split: if_splits intro: ran_trans)
qed simp

lemma containerCheck_tag:
  "containerCheck h svcs w = (Some e, w') \<Longrightarrow> err_is e = Some ErrContainerNotRunning"
  by (induction svcs arbitrary: w) (auto split: prod.splits if_splits)

end
