(* ===== verification/Envspec.thy ===== *)
theory Envspec
  imports Registry
begin

text \<open>
  \<open>internal/envspec\<close>: the \<open>--env\<close> and \<open>--envs\<close> flags, and the apps a \<open>setup\<close> or an \<open>add\<close> touches.
\<close>

definition env_name_pattern :: "string \<Rightarrow> bool" where
  "env_name_pattern s = name_pattern s"

definition invalid_env :: "string \<Rightarrow> error" where
  "invalid_env env = errorf (''invalid env name '' @ quote env @ ''. Use lowercase letters, numbers, and hyphens'')"

fun check_envs :: "string list \<Rightarrow> string set \<Rightarrow> string list \<Rightarrow> error option" where
  "check_envs parts seen [] = None"
| "check_envs parts seen (env # envs) =
     (if \<not> env_name_pattern env then Some (invalid_env env)
      else if env \<in> seen then Some (errorf (''duplicate envs in --envs: '' @ join '','' parts))
      else check_envs parts (insert env seen) envs)"

definition ParseEnvs :: "string \<Rightarrow> string list result" where
  "ParseEnvs raw =
     (if raw = [] then Inr []
      else
        (let parts = filter (\<lambda>p. p \<noteq> []) (map trim_space (split_on (CHR '','') raw)) in
         if parts = [] then Inl (errorf ''--envs requires at least one environment name'')
         else (case check_envs parts {} parts of Some e \<Rightarrow> Inl e | None \<Rightarrow> Inr parts)))"

definition ParseSingleEnv :: "string \<Rightarrow> string result" where
  "ParseSingleEnv raw =
     (let env = trim_space raw in
      if env = [] then Inr []
      else if \<not> env_name_pattern env then Inl (invalid_env env) else Inr env)"

record Target =
  tgName :: string
  tgSignozServiceName :: string
  tgSignozEnv :: string

record Options =
  optEnvs :: "string list"
  optEnv :: string

definition env_target :: "string \<Rightarrow> string \<Rightarrow> Target" where
  "env_target app env = \<lparr>tgName = app @ ''-'' @ env, tgSignozServiceName = app, tgSignozEnv = env\<rparr>"

definition BuildSetupTargets :: "string \<Rightarrow> Options \<Rightarrow> Target list" where
  "BuildSetupTargets app opts =
     (if optEnvs opts \<noteq> [] then map (env_target app) (optEnvs opts)
      else [\<lparr>tgName = app, tgSignozServiceName = app, tgSignozEnv = optEnv opts\<rparr>])"

definition BuildAddTargets :: "string \<Rightarrow> Options \<Rightarrow> Registry \<Rightarrow> Target list" where
  "BuildAddTargets app opts reg =
     (if optEnvs opts \<noteq> [] then map (env_target app) (optEnvs opts)
      else
        (case fmlookup (Apps reg) app of
           None \<Rightarrow> [\<lparr>tgName = app, tgSignozServiceName = app, tgSignozEnv = optEnv opts\<rparr>]
         | Some entry \<Rightarrow>
             [\<lparr>tgName = app,
                tgSignozServiceName = (if SignozServiceName entry \<noteq> [] then SignozServiceName entry else app),
                tgSignozEnv = (if optEnv opts = [] then Environment entry else optEnv opts)\<rparr>]))"

section \<open>What the flags accept\<close>

lemma check_envs_None:
  "check_envs parts seen envs = None \<longleftrightarrow>
     list_all name_pattern envs \<and> distinct envs \<and> set envs \<inter> seen = {}"
  by (induction envs arbitrary: seen) (auto simp: env_name_pattern_def)

lemma ParseEnvs_Inr:
  "ParseEnvs raw = Inr envs \<Longrightarrow> list_all name_pattern envs \<and> distinct envs \<and> (envs = [] \<longleftrightarrow> raw = [])"
  by (auto simp: ParseEnvs_def Let_def check_envs_None split: if_splits option.splits)

lemma trim_names: "list_all name_pattern envs \<Longrightarrow> filter (\<lambda>p. p \<noteq> []) (map trim_space envs) = envs"
  by (induction envs) (auto simp: trim_space_name)

text \<open>Joining good names with commas and parsing them gives them back.\<close>

lemma ParseEnvs_join:
  assumes "list_all name_pattern envs" "distinct envs" "envs \<noteq> []"
  shows "ParseEnvs (join '','' envs) = Inr envs"
proof -
  have c: "\<forall>s \<in> set envs. CHR '','' \<notin> set s"
    using assms(1) name_pattern_excludes [of _ "CHR '',''"] by (auto simp: list_all_iff char_class_defs)
  have ne: "join '','' envs \<noteq> []"
    using assms by (cases envs rule: remdups_adj.cases) auto
  show ?thesis
    using ne assms check_envs_None [of envs "{}" envs]
    by (simp add: ParseEnvs_def split_on_join [OF assms(3) c] trim_names Let_def split: option.split)
qed

text \<open>The names of the targets of a setup are valid and pairwise different.\<close>

lemma setup_target_names:
  "map tgName (BuildSetupTargets app opts) =
     (if optEnvs opts \<noteq> [] then map (\<lambda>env. app @ ''-'' @ env) (optEnvs opts) else [app])"
  by (simp add: BuildSetupTargets_def env_target_def)

lemma setup_targets_distinct:
  "distinct (optEnvs opts) \<Longrightarrow> distinct (map tgName (BuildSetupTargets app opts))"
  by (simp add: setup_target_names distinct_map inj_on_def)

lemma setup_targets_valid:
  assumes "name_pattern app" "list_all name_pattern (optEnvs opts)" "t \<in> set (BuildSetupTargets app opts)"
  shows "name_pattern (tgName t)"
proof -
  have "list_all is_name_char (''-'' @ env)" if "env \<in> set (optEnvs opts)" for env
    using assms(2) that name_pattern_chars by (auto simp: list_all_iff is_name_char_def)
  then show ?thesis
    using assms(1,3) name_pattern_append [OF assms(1)]
    by (auto simp: BuildSetupTargets_def env_target_def split: if_splits)
qed

end
