(* ===== verification/EnvFile.thy ===== *)
theory EnvFile
  imports Registry
begin

text \<open>
  The \<open>.env\<close> block that \<open>shelf setup\<close> and \<open>shelf credentials\<close> print is read back by the
  programs that consume it with a reader such as the repository's own.  Here: parsing the
  rendered file gives exactly the variables of the app's entry, one value per variable.
\<close>

section \<open>The assignments of a text\<close>

definition dotenv_vars :: "string \<Rightarrow> (string \<times> string) list" where
  "dotenv_vars content = List.map_filter parse_line (split_on (CHR 0x0A) content)"

lemma split_on_at: "split_on c (a @ c # b) = split_on c a @ split_on c b"
  by (induction a) (auto split: list.splits)

lemma map_filter_append: "List.map_filter f (xs @ ys) = List.map_filter f xs @ List.map_filter f ys"
  by (simp add: List.map_filter_def)

lemma dotenv_vars_at: "dotenv_vars (a @ CHR 0x0A # b) = dotenv_vars a @ dotenv_vars b"
  by (simp add: dotenv_vars_def split_on_at map_filter_append)

lemma parse_line_Nil [simp]: "parse_line [] = None"
  by (simp add: parse_line_def Let_def)

lemma dotenv_vars_Nil [simp]: "dotenv_vars [] = []"
  by (simp add: dotenv_vars_def List.map_filter_def)

lemma dotenv_vars_lines: "dotenv_vars (join newline ls) = concat (map dotenv_vars ls)"
  by (induction newline ls rule: join.induct) (auto simp: newline_def dotenv_vars_at)

lemma dotenv_vars_blocks: "dotenv_vars (join (newline @ newline) bs) = concat (map dotenv_vars bs)"
proof (induction bs)
  case (Cons b bs)
  have "dotenv_vars (b @ (newline @ newline) @ u) = dotenv_vars b @ dotenv_vars u" for u
    using dotenv_vars_at [of b "newline @ u"] dotenv_vars_at [of "[]" u] by (simp add: newline_def)
  with Cons show ?case by (cases "bs = []") (simp_all add: join_Cons)
qed simp

lemma parse_dotenv_vars: "parse_dotenv content k = map_of (rev (dotenv_vars content)) k"
proof -
  have "fold add_line ls env k = (case map_of (rev (List.map_filter parse_line ls)) k of
      None \<Rightarrow> env k | Some v \<Rightarrow> Some v)" for ls env
  proof (induction ls arbitrary: env)
    case (Cons l ls)
    then show ?case
      by (cases "parse_line l") (auto simp: List.map_filter_def add_line_def map_add_def
          split: option.splits)
  qed (simp add: List.map_filter_def)
  then show ?thesis
    by (simp add: parse_dotenv_def dotenv_vars_def split: option.splits)
qed

section \<open>Lines\<close>

text \<open>A value that needs no quoting: printable, without spaces, not starting with a quote.\<close>

definition env_value :: "string \<Rightarrow> bool" where
  "env_value v = (list_all graphic v \<and> (v = [] \<or> hd v \<noteq> CHR 0x22 \<and> hd v \<noteq> CHR 0x27))"

lemma unquote_id: "v = [] \<or> hd v \<noteq> CHR 0x22 \<and> hd v \<noteq> CHR 0x27 \<Longrightarrow> unquote v = v"
  by (cases v) (auto simp: unquote_def quoted_by_def has_prefix_def)

lemma graphic_newline: "list_all graphic v \<Longrightarrow> CHR 0x0A \<notin> set v"
  by (auto simp: list_all_iff graphic_def less_eq_char_def)

lemma dotenv_vars_assign:
  assumes "env_key k" "env_value v"
  shows "dotenv_vars (k @ CHR ''='' # v) = [(k, v)]"
proof -
  have g: "list_all graphic (k @ CHR ''='' # v)"
    using assms by (simp add: env_key_def env_value_def graphic_def less_eq_char_def)
  then have t: "trim_space (k @ CHR ''='' # v) = k @ ''='' @ v"
    by (simp add: trim_space_all_graphic)
  then have "has_prefix (trim_space (k @ CHR ''='' # v)) (k @ ''='')"
    by (simp add: has_prefix_iff)
  from parse_line_prefix [OF assms(1) this] have "parse_line (k @ CHR ''='' # v) = Some (k, v)"
    using assms(2) trim_prefix_append [of "k @ ''=''" v]
    by (simp add: t env_value_def trim_space_all_graphic unquote_id)
  moreover have "split_on (CHR 0x0A) (k @ CHR ''='' # v) = [k @ CHR ''='' # v]"
    using graphic_newline [OF g] by (rule split_on_absent)
  ultimately show ?thesis by (simp add: dotenv_vars_def List.map_filter_def)
qed

lemma dotenv_vars_comment:
  assumes "CHR 0x0A \<notin> set t" "t \<noteq> []" "graphic (last t)"
  shows "dotenv_vars (CHR ''#'' # t) = []"
proof -
  have "trim_space (CHR ''#'' # t) = CHR ''#'' # t"
    using assms by (intro trim_space_graphic) (auto simp: graphic_def less_eq_char_def)
  then have "parse_line (CHR ''#'' # t) = None"
    by (simp add: parse_line_def Let_def has_prefix_def)
  moreover have "split_on (CHR 0x0A) (CHR ''#'' # t) = [CHR ''#'' # t]"
    using assms by (intro split_on_absent) auto
  ultimately show ?thesis by (simp add: dotenv_vars_def List.map_filter_def)
qed

lemma env_value_append:
  "v \<noteq> [] \<Longrightarrow> env_value v \<Longrightarrow> list_all graphic u \<Longrightarrow> env_value (v @ u)"
  by (cases v) (auto simp: env_value_def)

lemma env_value_graphic: "env_value v \<Longrightarrow> list_all graphic v"
  by (simp add: env_value_def)

section \<open>What each block assigns\<close>

definition postgres_vars :: "PostgresConfig \<Rightarrow> (string \<times> string) list" where
  "postgres_vars c =
     [(''DATABASE_URL'', ''postgres://'' @ pg_Username c @ '':'' @ pg_Password c
         @ ''@postgres:5432/'' @ pg_Database c),
      (''DB_HOST'', ''postgres''), (''DB_PORT'', ''5432''), (''DB_USERNAME'', pg_Username c),
      (''DB_PASSWORD'', pg_Password c), (''DB_NAME'', pg_Database c)]"

definition redis_vars :: "RedisConfig \<Rightarrow> (string \<times> string) list" where
  "redis_vars c =
     [(''REDIS_URL'', ''redis://'' @ redis_Username c @ '':'' @ redis_Password c
         @ ''@redis:6379/0''),
      (''REDIS_HOST'', ''redis''), (''REDIS_PORT'', ''6379''),
      (''REDIS_USERNAME'', redis_Username c), (''REDIS_PASSWORD'', redis_Password c),
      (''REDIS_PREFIX'', redis_Prefix c)]"

definition rabbitmq_vars :: "RabbitMQConfig \<Rightarrow> (string \<times> string) list" where
  "rabbitmq_vars c =
     [(''AMQP_URL'', ''amqp://'' @ rmq_Username c @ '':'' @ rmq_Password c
         @ ''@rabbitmq:5672/'' @ path_escape (rmq_Vhost c)),
      (''RABBITMQ_HOST'', ''rabbitmq''), (''RABBITMQ_PORT'', ''5672''),
      (''RABBITMQ_USERNAME'', rmq_Username c), (''RABBITMQ_PASSWORD'', rmq_Password c),
      (''RABBITMQ_VHOST'', rmq_Vhost c)]"

definition aistor_vars :: "AIStorConfig \<Rightarrow> (string \<times> string) list" where
  "aistor_vars c =
     [(''S3_ENDPOINT'', s3_Endpoint c), (''S3_BUCKET'', s3_Bucket c), (''S3_REGION'', ''us-east-1''),
      (''S3_ACCESS_KEY_ID'', s3_AccessKey c), (''S3_SECRET_ACCESS_KEY'', s3_SecretKey c),
      (''S3_FORCE_PATH_STYLE'', ''true''), (''AWS_ENDPOINT_URL'', s3_Endpoint c),
      (''AWS_ACCESS_KEY_ID'', s3_AccessKey c), (''AWS_SECRET_ACCESS_KEY'', s3_SecretKey c),
      (''AWS_REGION'', ''us-east-1'')]"

definition mongodb_vars :: "MongoDBConfig \<Rightarrow> (string \<times> string) list" where
  "mongodb_vars c =
     [(''MONGODB_URL'', ''mongodb://'' @ mongo_Username c @ '':'' @ mongo_Password c
         @ ''@mongodb:27017/'' @ mongo_Database c @ ''?authSource='' @ mongo_Database c),
      (''MONGODB_HOST'', ''mongodb''), (''MONGODB_PORT'', ''27017''),
      (''MONGODB_USERNAME'', mongo_Username c), (''MONGODB_PASSWORD'', mongo_Password c),
      (''MONGODB_DATABASE'', mongo_Database c)]"

definition signoz_vars :: "SignozConfig \<Rightarrow> (string \<times> string) list" where
  "signoz_vars c =
     [(''OTEL_EXPORTER_OTLP_ENDPOINT'', ''http://signoz-otel-collector:4317''),
      (''OTEL_EXPORTER_OTLP_PROTOCOL'', ''grpc''), (''OTEL_SERVICE_NAME'', otel_ServiceName c),
      (''OTEL_RESOURCE_ATTRIBUTES'', ''service.name='' @ otel_ServiceName c
         @ '',service.namespace=infra-shelf,deployment.environment='' @ otel_Environment c),
      (''OTEL_TRACES_EXPORTER'', ''otlp''), (''OTEL_METRICS_EXPORTER'', ''otlp''),
      (''OTEL_LOGS_EXPORTER'', ''otlp'')]"

definition opt_vars :: "('c \<Rightarrow> (string \<times> string) list) \<Rightarrow> 'c option \<Rightarrow> (string \<times> string) list" where
  "opt_vars f cfg = (case cfg of None \<Rightarrow> [] | Some c \<Rightarrow> f c)"

definition entry_vars :: "AppEntry \<Rightarrow> (string \<times> string) list" where
  "entry_vars e =
     opt_vars postgres_vars (svcPostgres (Svcs e)) @ opt_vars redis_vars (svcRedis (Svcs e))
     @ opt_vars rabbitmq_vars (svcRabbitMQ (Svcs e)) @ opt_vars aistor_vars (svcAIStor (Svcs e))
     @ opt_vars mongodb_vars (svcMongoDB (Svcs e)) @ opt_vars signoz_vars (svcSignoz (Svcs e))"

text \<open>The strings a configuration carries.\<close>

definition services_strings :: "Services \<Rightarrow> string list" where
  "services_strings s =
     (case svcPostgres s of None \<Rightarrow> [] | Some c \<Rightarrow> [pg_Database c, pg_Username c, pg_Password c])
     @ (case svcRedis s of None \<Rightarrow> [] | Some c \<Rightarrow> [redis_Username c, redis_Password c, redis_Prefix c])
     @ (case svcRabbitMQ s of None \<Rightarrow> [] | Some c \<Rightarrow> [rmq_Vhost c, rmq_Username c, rmq_Password c])
     @ (case svcAIStor s of None \<Rightarrow> []
        | Some c \<Rightarrow> [s3_Bucket c, s3_AccessKey c, s3_SecretKey c, s3_Endpoint c])
     @ (case svcMongoDB s of None \<Rightarrow> []
        | Some c \<Rightarrow> [mongo_Database c, mongo_Username c, mongo_Password c])
     @ (case svcSignoz s of None \<Rightarrow> [] | Some c \<Rightarrow> [otel_ServiceName c, otel_Environment c])"

lemma graphic_upper_hex: "d < 16 \<Longrightarrow> graphic (upper_hex d)"
  by (auto simp: upper_hex_def graphic_def less_eq_char_def take_bit_eq_mod)

lemma path_escape_graphic: "list_all graphic (path_escape s)"
proof -
  have "list_all graphic (percent c)" for c
  proof -
    have "(of_char c :: nat) div 16 < 16" by (simp add: less_mult_imp_div_less)
    then show ?thesis
      by (simp add: percent_def Let_def graphic_upper_hex) (simp add: graphic_def less_eq_char_def)
  qed
  moreover have "graphic c" if "path_segment_char c" for c
    using that by (auto simp: path_segment_char_def graphic_def char_class_defs)
  ultimately show ?thesis by (auto simp: path_escape_def list_all_iff split: if_splits)
qed

section \<open>Rendering and parsing\<close>

definition assign_line :: "string \<times> string \<Rightarrow> string" where
  "assign_line kv = fst kv @ ''='' @ snd kv"

definition good_vars :: "(string \<times> string) list \<Rightarrow> bool" where
  "good_vars vs = list_all (\<lambda>kv. env_key (fst kv) \<and> env_value (snd kv)) vs"

lemma dotenv_vars_block:
  assumes "good_vars vs" "CHR 0x0A \<notin> set t" "t \<noteq> []" "graphic (last t)"
  shows "dotenv_vars (join newline ((CHR ''#'' # t) # map assign_line vs)) = vs"
proof -
  have "concat (map (dotenv_vars \<circ> assign_line) vs) = vs" if "good_vars vs" for vs
    using that by (induction vs) (auto simp: good_vars_def assign_line_def dotenv_vars_assign)
  with assms show ?thesis
    by (simp add: dotenv_vars_lines dotenv_vars_comment del: join.simps)
qed

lemmas block_simps =
  good_vars_def env_key_def env_value_def graphic_def less_eq_char_def

lemma block_lines:
  "postgres_env c1 = join newline (''# === PostgreSQL ==='' # map assign_line (postgres_vars c1))"
  "redis_env c2 = join newline (''# === Redis ==='' # map assign_line (redis_vars c2))"
  "rabbitmq_env c3 = join newline (''# === RabbitMQ ==='' # map assign_line (rabbitmq_vars c3))"
  "aistor_env c4 = join newline (''# === AIStor (S3) ==='' # map assign_line (aistor_vars c4))"
  "mongodb_env c5 = join newline (''# === MongoDB ==='' # map assign_line (mongodb_vars c5))"
  "signoz_env c6 = join newline
     (''# === SignOz (OpenTelemetry) ==='' # map assign_line (signoz_vars c6))"
  by (simp_all add: postgres_env_def postgres_vars_def redis_env_def redis_vars_def
      rabbitmq_env_def rabbitmq_vars_def aistor_env_def aistor_vars_def mongodb_env_def
      mongodb_vars_def signoz_env_def signoz_vars_def assign_line_def Let_def del: join.simps)

definition env_ready :: "Services \<Rightarrow> bool" where
  "env_ready s = list_all env_value (services_strings s)"

lemma good_block_vars:
  "env_value (pg_Database c1) \<Longrightarrow> env_value (pg_Username c1) \<Longrightarrow> env_value (pg_Password c1) \<Longrightarrow>
     good_vars (postgres_vars c1)"
  "env_value (redis_Username c2) \<Longrightarrow> env_value (redis_Password c2) \<Longrightarrow> env_value (redis_Prefix c2) \<Longrightarrow>
     good_vars (redis_vars c2)"
  "env_value (rmq_Vhost c3) \<Longrightarrow> env_value (rmq_Username c3) \<Longrightarrow> env_value (rmq_Password c3) \<Longrightarrow>
     good_vars (rabbitmq_vars c3)"
  "env_value (s3_Bucket c4) \<Longrightarrow> env_value (s3_AccessKey c4) \<Longrightarrow> env_value (s3_SecretKey c4) \<Longrightarrow>
     env_value (s3_Endpoint c4) \<Longrightarrow> good_vars (aistor_vars c4)"
  "env_value (mongo_Database c5) \<Longrightarrow> env_value (mongo_Username c5) \<Longrightarrow> env_value (mongo_Password c5) \<Longrightarrow>
     good_vars (mongodb_vars c5)"
  "env_value (otel_ServiceName c6) \<Longrightarrow> env_value (otel_Environment c6) \<Longrightarrow> good_vars (signoz_vars c6)"
  using path_escape_graphic [of "rmq_Vhost c3"]
  by (simp_all add: postgres_vars_def redis_vars_def rabbitmq_vars_def aistor_vars_def
      mongodb_vars_def signoz_vars_def block_simps)

lemma good_opt_vars:
  assumes "env_ready s"
  shows "good_vars (opt_vars postgres_vars (svcPostgres s))"
    "good_vars (opt_vars redis_vars (svcRedis s))"
    "good_vars (opt_vars rabbitmq_vars (svcRabbitMQ s))"
    "good_vars (opt_vars aistor_vars (svcAIStor s))"
    "good_vars (opt_vars mongodb_vars (svcMongoDB s))"
    "good_vars (opt_vars signoz_vars (svcSignoz s))"
proof -
  have none: "good_vars []" by (simp add: good_vars_def)
  note unf = env_ready_def services_strings_def opt_vars_def
  show "good_vars (opt_vars postgres_vars (svcPostgres s))"
    using assms none good_block_vars(1) by (cases "svcPostgres s") (simp_all add: unf)
  show "good_vars (opt_vars redis_vars (svcRedis s))"
    using assms none good_block_vars(2) by (cases "svcRedis s") (simp_all add: unf)
  show "good_vars (opt_vars rabbitmq_vars (svcRabbitMQ s))"
    using assms none good_block_vars(3) by (cases "svcRabbitMQ s") (simp_all add: unf)
  show "good_vars (opt_vars aistor_vars (svcAIStor s))"
    using assms none good_block_vars(4) by (cases "svcAIStor s") (simp_all add: unf)
  show "good_vars (opt_vars mongodb_vars (svcMongoDB s))"
    using assms none good_block_vars(5) by (cases "svcMongoDB s") (simp_all add: unf)
  show "good_vars (opt_vars signoz_vars (svcSignoz s))"
    using assms none good_block_vars(6) by (cases "svcSignoz s") (simp_all add: unf)
qed

lemma opt_block_vars:
  assumes "good_vars (opt_vars vars cfg)"
    and "\<And>c. f c = join newline ((CHR ''#'' # t) # map assign_line (vars c))"
    and "CHR 0x0A \<notin> set t" "t \<noteq> []" "graphic (last t)"
  shows "concat (map (\<lambda>b. dotenv_vars (snd b)) (opt_block l f cfg)) = opt_vars vars cfg"
  using assms dotenv_vars_block by (cases cfg) (auto simp: opt_block_def opt_vars_def)

lemma env_file_vars:
  assumes "env_ready (Svcs e)"
  shows "dotenv_vars (env_file e) = entry_vars e"
proof -
  note g = good_opt_vars [OF assms]
  have "dotenv_vars (env_file e) = concat (map (\<lambda>b. dotenv_vars (snd b)) (env_blocks e))"
    by (simp add: env_file_def dotenv_vars_blocks comp_def)
  also have "\<dots> = entry_vars e"
    unfolding env_blocks_def map_append concat_append entry_vars_def
    by (subst opt_block_vars [OF g(1) block_lines(1)]
        opt_block_vars [OF g(2) block_lines(2)] opt_block_vars [OF g(3) block_lines(3)]
        opt_block_vars [OF g(4) block_lines(4)] opt_block_vars [OF g(5) block_lines(5)]
        opt_block_vars [OF g(6) block_lines(6)]; simp add: graphic_def less_eq_char_def)+
  finally show ?thesis .
qed

definition block_keys :: "string list list" where
  "block_keys =
     [[''DATABASE_URL'', ''DB_HOST'', ''DB_PORT'', ''DB_USERNAME'', ''DB_PASSWORD'', ''DB_NAME''],
      [''REDIS_URL'', ''REDIS_HOST'', ''REDIS_PORT'', ''REDIS_USERNAME'', ''REDIS_PASSWORD'',
       ''REDIS_PREFIX''],
      [''AMQP_URL'', ''RABBITMQ_HOST'', ''RABBITMQ_PORT'', ''RABBITMQ_USERNAME'',
       ''RABBITMQ_PASSWORD'', ''RABBITMQ_VHOST''],
      [''S3_ENDPOINT'', ''S3_BUCKET'', ''S3_REGION'', ''S3_ACCESS_KEY_ID'', ''S3_SECRET_ACCESS_KEY'',
       ''S3_FORCE_PATH_STYLE'', ''AWS_ENDPOINT_URL'', ''AWS_ACCESS_KEY_ID'',
       ''AWS_SECRET_ACCESS_KEY'', ''AWS_REGION''],
      [''MONGODB_URL'', ''MONGODB_HOST'', ''MONGODB_PORT'', ''MONGODB_USERNAME'',
       ''MONGODB_PASSWORD'', ''MONGODB_DATABASE''],
      [''OTEL_EXPORTER_OTLP_ENDPOINT'', ''OTEL_EXPORTER_OTLP_PROTOCOL'', ''OTEL_SERVICE_NAME'',
       ''OTEL_RESOURCE_ATTRIBUTES'', ''OTEL_TRACES_EXPORTER'', ''OTEL_METRICS_EXPORTER'',
       ''OTEL_LOGS_EXPORTER'']]"

lemma distinct_block_keys: "distinct (concat block_keys)"
  by code_simp

lemma opt_vars_keys:
  "subseq (map fst (opt_vars postgres_vars c1)) (block_keys ! 0)"
  "subseq (map fst (opt_vars redis_vars c2)) (block_keys ! 1)"
  "subseq (map fst (opt_vars rabbitmq_vars c3)) (block_keys ! 2)"
  "subseq (map fst (opt_vars aistor_vars c4)) (block_keys ! 3)"
  "subseq (map fst (opt_vars mongodb_vars c5)) (block_keys ! 4)"
  "subseq (map fst (opt_vars signoz_vars c6)) (block_keys ! 5)"
  by (simp_all add: opt_vars_def postgres_vars_def redis_vars_def rabbitmq_vars_def aistor_vars_def
      mongodb_vars_def signoz_vars_def block_keys_def split: option.split)

lemma subseq_distinct: "subseq xs ys \<Longrightarrow> distinct ys \<Longrightarrow> distinct xs"
  by (metis distinct_nthsI subseq_conv_nths)

lemma distinct_entry_vars: "distinct (map fst (entry_vars e))"
proof (rule subseq_distinct [OF _ distinct_block_keys])
  have "concat block_keys = block_keys ! 0 @ block_keys ! 1 @ block_keys ! 2 @ block_keys ! 3
      @ block_keys ! 4 @ block_keys ! 5"
    by (simp add: block_keys_def)
  then show "subseq (map fst (entry_vars e)) (concat block_keys)"
    unfolding entry_vars_def map_append
    by (simp only:) (intro list_emb_append_mono opt_vars_keys)
qed

text \<open>Reading the file back: each variable has the value the entry gives it.\<close>

lemma parse_env_file:
  assumes "env_ready (Svcs e)"
  shows "parse_dotenv (env_file e) k = map_of (entry_vars e) k"
proof -
  have "map_of (rev (entry_vars e)) = map_of (entry_vars e)"
    using distinct_entry_vars [of e] by (subst map_of_inject_set) (auto simp flip: rev_map)
  then show ?thesis
    by (simp add: parse_dotenv_vars env_file_vars [OF assms])
qed

end
