(* ===== verification/Lifecycle.thy ===== *)
theory Lifecycle
  imports ServiceOps Envspec GoTime EnvFile Demo
begin

text \<open>
  The operations of \<open>internal/shelfcore\<close> that change the registry: \<open>SetupApp\<close>, \<open>AddServices\<close>,
  \<open>DetachServices\<close> and \<open>RemoveApp\<close>, with \<open>Credentials\<close> and \<open>Reconcile\<close>.  An operation that returns
  results next to an error is a pair of both; the reporter's messages go to the world's record.
\<close>

record Engine =
  StorePath :: string
  BackupsDir :: string

record SetupOptions =
  soServices :: "string list"
  soEnvs :: "string list"
  soEnv :: string
  soFullAccess :: bool

record AddOptions =
  aoServices :: "string list"
  aoEnvs :: "string list"
  aoEnv :: string

record TargetResult =
  trName :: string
  trEntry :: AppEntry
  trProvisioned :: "string list"
  trFailures :: "(string, error) fmap"

section \<open>Provisioning the services of one target\<close>

text \<open>
  The loop both operations run: what was provisioned so far, the failures, and the entry.
\<close>

fun provision_all ::
  "'d host \<Rightarrow> string \<Rightarrow> provisionOptions \<Rightarrow> string list \<Rightarrow> TargetResult \<Rightarrow> 'd world
     \<Rightarrow> TargetResult \<times> 'd world" where
  "provision_all h app opts [] res w = (res, w)"
| "provision_all h app opts (svc # svcs) res w =
     (case provisionService h svc app opts w of
        (Inl err, w1) \<Rightarrow>
          provision_all h app opts svcs (res\<lparr>trFailures := fmupd svc err (trFailures res)\<rparr>)
            (emit Failure (''failed to provision '' @ svc @ '' for '' @ app @ '': '' @ err_text err) w1)
      | (Inr cfg, w1) \<Rightarrow>
          provision_all h app opts svcs
            (res\<lparr>trEntry := setServiceConfig (trEntry res) svc cfg, trProvisioned := trProvisioned res @ [svc]\<rparr>)
            (emit Success (app @ '': '' @ svc @ '' provisioned'') w1))"

section \<open>Setup\<close>

fun check_targets :: "Registry \<Rightarrow> Target list \<Rightarrow> error option" where
  "check_targets reg [] = None"
| "check_targets reg (t # ts) =
     (case validate_app_name (tgName t) of
        Some e \<Rightarrow>
          Some (wrapf (''invalid expanded app name '' @ quote (tgName t) @ '' (check --envs values): '') e [])
      | None \<Rightarrow>
          (if fmlookup (Apps reg) (tgName t) \<noteq> None
           then Some (tagged ErrAppAlreadyExists ('': '' @ tgName t))
           else check_targets reg ts))"

definition new_entry :: "'d host \<Rightarrow> Target \<Rightarrow> 'd world \<Rightarrow> AppEntry" where
  "new_entry h t w =
     \<lparr>CreatedAt = format_created (time_now h w), Environment = tgSignozEnv t,
      SignozServiceName = (if tgSignozServiceName t \<noteq> tgName t then tgSignozServiceName t else []),
      Svcs = no_services\<rparr>"

definition setup_target ::
  "'d host \<Rightarrow> SetupOptions \<Rightarrow> Target \<Rightarrow> 'd world \<Rightarrow> TargetResult \<times> 'd world" where
  "setup_target h opts t w =
     provision_all h (tgName t)
       \<lparr>poFullAccess = soFullAccess opts, poSignozServiceName = tgSignozServiceName t,
        poSignozEnvironment = tgSignozEnv t\<rparr>
       (soServices opts)
       \<lparr>trName = tgName t, trEntry = new_entry h t w, trProvisioned = [], trFailures = fmempty\<rparr> w"

definition put_entry :: "TargetResult \<Rightarrow> Registry \<Rightarrow> Registry" where
  "put_entry res reg = reg\<lparr>Apps := fmupd (trName res) (trEntry res) (Apps reg)\<rparr>"

text \<open>The loop over the targets; the results so far are returned with an error of \<open>Save\<close>.\<close>

fun setup_targets ::
  "'d host \<Rightarrow> string \<Rightarrow> SetupOptions \<Rightarrow> Target list \<Rightarrow> Registry \<Rightarrow> TargetResult list \<Rightarrow> 'd world
     \<Rightarrow> (TargetResult list \<times> error option) \<times> 'd world" where
  "setup_targets h path opts [] reg results w = ((results, None), w)"
| "setup_targets h path opts (t # ts) reg results w =
     (case setup_target h opts t w of
        (res, w1) \<Rightarrow>
          (case store_save h path (put_entry res reg) w1 of
             (Some e, w2) \<Rightarrow> ((results, Some (wrapf ''save registry: '' e [])), w2)
           | (None, w2) \<Rightarrow> setup_targets h path opts ts (put_entry res reg) (results @ [res]) w2))"

definition SetupApp ::
  "'d host \<Rightarrow> Engine \<Rightarrow> string \<Rightarrow> SetupOptions \<Rightarrow> 'd world
     \<Rightarrow> (TargetResult list \<times> error option) \<times> 'd world" where
  "SetupApp h eng app opts w =
     (case validate_app_name app of
        Some e \<Rightarrow> (([], Some e), w)
      | None \<Rightarrow>
     (if soServices opts = [] then (([], Some (tagged ErrNoServices [])), w)
      else
     (case parse_services (soServices opts) of
        Inl e \<Rightarrow> (([], Some e), w)
      | Inr _ \<Rightarrow>
          (let targets = BuildSetupTargets app \<lparr>optEnvs = soEnvs opts, optEnv = soEnv opts\<rparr> in
           case store_load h (StorePath eng) w of
             Inl e \<Rightarrow> (([], Some e), w)
           | Inr reg \<Rightarrow>
               (case check_targets reg targets of
                  Some e \<Rightarrow> (([], Some e), w)
                | None \<Rightarrow>
                    (case containerCheck h (soServices opts) w of
                       (Some e, w1) \<Rightarrow> (([], Some e), w1)
                     | (None, w1) \<Rightarrow> setup_targets h (StorePath eng) opts targets reg [] w1))))))"

section \<open>Add\<close>

fun find_missing_target :: "Registry \<Rightarrow> Target list \<Rightarrow> error option" where
  "find_missing_target reg [] = None"
| "find_missing_target reg (t # ts) =
     (if fmlookup (Apps reg) (tgName t) = None then Some (tagged ErrAppNotFound ('': '' @ tgName t))
      else find_missing_target reg ts)"

text \<open>The services not attached yet, with a warning for each of the others.  The dash is U+2014.\<close>

definition em_dash :: string where
  "em_dash = [CHR 0xE2, CHR 0x80, CHR 0x94]"

fun to_provision :: "string \<Rightarrow> AppEntry \<Rightarrow> string list \<Rightarrow> 'd world \<Rightarrow> string list \<times> 'd world" where
  "to_provision app entry [] w = ([], w)"
| "to_provision app entry (svc # svcs) w =
     (if hasService entry svc
      then to_provision app entry svcs
             (emit Warn (app @ '': '' @ svc @ '' already provisioned '' @ em_dash @ '' skipping'') w)
      else (case to_provision app entry svcs w of (ss, w1) \<Rightarrow> (svc # ss, w1)))"

fun add_targets ::
  "'d host \<Rightarrow> string \<Rightarrow> AddOptions \<Rightarrow> Target list \<Rightarrow> Registry \<Rightarrow> TargetResult list \<Rightarrow> 'd world
     \<Rightarrow> (TargetResult list \<times> error option) \<times> 'd world" where
  "add_targets h path opts [] reg results w = ((results, None), w)"
| "add_targets h path opts (t # ts) reg results w =
     (let entry = (case fmlookup (Apps reg) (tgName t) of Some e \<Rightarrow> e | None \<Rightarrow> zero_entry);
          res0 = \<lparr>trName = tgName t, trEntry = entry, trProvisioned = [], trFailures = fmempty\<rparr> in
      case to_provision (tgName t) entry (aoServices opts) w of
        (svcs, w1) \<Rightarrow>
          (if svcs = []
           then add_targets h path opts ts reg (results @ [res0]) (emit Info (tgName t @ '': nothing to do'') w1)
           else
             (case provision_all h (tgName t)
                     \<lparr>poFullAccess = False, poSignozServiceName = tgSignozServiceName t,
                      poSignozEnvironment = tgSignozEnv t\<rparr> svcs res0 w1 of
                (res, w2) \<Rightarrow>
                  (case store_save h path (put_entry res reg) w2 of
                     (Some e, w3) \<Rightarrow> ((results, Some (wrapf ''save registry: '' e [])), w3)
                   | (None, w3) \<Rightarrow> add_targets h path opts ts (put_entry res reg) (results @ [res]) w3))))"

definition AddServices ::
  "'d host \<Rightarrow> Engine \<Rightarrow> string \<Rightarrow> AddOptions \<Rightarrow> 'd world
     \<Rightarrow> (TargetResult list \<times> error option) \<times> 'd world" where
  "AddServices h eng app opts w =
     (case validate_app_name app of
        Some e \<Rightarrow> (([], Some e), w)
      | None \<Rightarrow>
     (if aoServices opts = [] then (([], Some (tagged ErrNoServices [])), w)
      else
     (case parse_services (aoServices opts) of
        Inl e \<Rightarrow> (([], Some e), w)
      | Inr _ \<Rightarrow>
          (case store_load h (StorePath eng) w of
             Inl e \<Rightarrow> (([], Some e), w)
           | Inr reg \<Rightarrow>
               (let targets = BuildAddTargets app \<lparr>optEnvs = aoEnvs opts, optEnv = aoEnv opts\<rparr> reg in
                case find_missing_target reg targets of
                  Some e \<Rightarrow> (([], Some e), w)
                | None \<Rightarrow>
                    (case containerCheck h (aoServices opts) w of
                       (Some e, w1) \<Rightarrow> (([], Some e), w1)
                     | (None, w1) \<Rightarrow> add_targets h (StorePath eng) opts targets reg [] w1))))))"

section \<open>Detach\<close>

fun detach_all ::
  "'d host \<Rightarrow> string \<Rightarrow> string list \<Rightarrow> AppEntry \<Rightarrow> 'd world \<Rightarrow> AppEntry result \<times> 'd world" where
  "detach_all h app [] entry w = (Inr entry, w)"
| "detach_all h app (svc # svcs) entry w =
     (if \<not> hasService entry svc
      then detach_all h app svcs entry
             (emit Warn (svc @ '' is not attached to '' @ quote app @ '' '' @ em_dash @ '' skipping'') w)
      else
        (case teardownService h svc app w of
           (Some e, w1) \<Rightarrow> (Inl (wrapf (''teardown '' @ svc @ '': '') e []), w1)
         | (None, w1) \<Rightarrow>
             detach_all h app svcs (clearServiceConfig entry svc)
               (emit Success (svc @ '' detached from '' @ app) w1)))"

definition DetachServices ::
  "'d host \<Rightarrow> Engine \<Rightarrow> string \<Rightarrow> string list \<Rightarrow> 'd world \<Rightarrow> error option \<times> 'd world" where
  "DetachServices h eng app services w =
     (case validate_app_name app of
        Some e \<Rightarrow> (Some e, w)
      | None \<Rightarrow>
     (if services = [] then (Some (tagged ErrNoServices []), w)
      else
     (case parse_services services of
        Inl e \<Rightarrow> (Some e, w)
      | Inr _ \<Rightarrow>
          (case find (\<lambda>s. \<not> detachable s) services of
             Some svc \<Rightarrow>
               (Some (tagged ErrNotDetachable ('': '' @ svc @ '' (use `shelf remove` for full teardown)'')), w)
           | None \<Rightarrow>
               (case store_load h (StorePath eng) w of
                  Inl e \<Rightarrow> (Some e, w)
                | Inr reg \<Rightarrow>
                    (case fmlookup (Apps reg) app of
                       None \<Rightarrow> (Some (tagged ErrAppNotFound ('': '' @ app)), w)
                     | Some entry \<Rightarrow>
                         (case detach_all h app services entry w of
                            (Inl e, w1) \<Rightarrow> (Some e, w1)
                          | (Inr entry', w1) \<Rightarrow>
                              store_save h (StorePath eng) (reg\<lparr>Apps := fmupd app entry' (Apps reg)\<rparr>) w1)))))))"

section \<open>Remove\<close>

fun remove_all :: "'d host \<Rightarrow> string \<Rightarrow> AppEntry \<Rightarrow> string list \<Rightarrow> 'd world \<Rightarrow> 'd world" where
  "remove_all h app entry [] w = w"
| "remove_all h app entry (svc # svcs) w =
     (if \<not> hasService entry svc then remove_all h app entry svcs w
      else
        (case teardownService h svc app w of
           (Some e, w1) \<Rightarrow>
             remove_all h app entry svcs (emit Failure (''failed to remove '' @ svc @ '': '' @ err_text e) w1)
         | (None, w1) \<Rightarrow> remove_all h app entry svcs (emit Success (svc @ '' resources removed'') w1)))"

definition RemoveApp :: "'d host \<Rightarrow> Engine \<Rightarrow> string \<Rightarrow> 'd world \<Rightarrow> error option \<times> 'd world" where
  "RemoveApp h eng app w =
     (case validate_app_name app of
        Some e \<Rightarrow> (Some e, w)
      | None \<Rightarrow>
          (case store_load h (StorePath eng) w of
             Inl e \<Rightarrow> (Some e, w)
           | Inr reg \<Rightarrow>
               (case fmlookup (Apps reg) app of
                  None \<Rightarrow> (Some (tagged ErrAppNotFound ('': '' @ app)), w)
                | Some entry \<Rightarrow>
                    (case store_save h (StorePath eng) (reg\<lparr>Apps := fmdrop app (Apps reg)\<rparr>)
                            (remove_all h app entry orderedServices w) of
                       (Some e, w1) \<Rightarrow> (Some (wrapf ''save registry: '' e []), w1)
                     | (None, w1) \<Rightarrow> (None, emit Success (''app '' @ quote app @ '' removed'') w1)))))"

section \<open>Credentials and reconcile\<close>

definition Credentials :: "'d host \<Rightarrow> Engine \<Rightarrow> string \<Rightarrow> 'd world \<Rightarrow> string result" where
  "Credentials h eng app w =
     (case validate_app_name app of
        Some e \<Rightarrow> Inl e
      | None \<Rightarrow>
          (case get_app h (StorePath eng) app w of
             Inl e \<Rightarrow> Inl e
           | Inr None \<Rightarrow> Inl (tagged ErrAppNotFound ('': '' @ app))
           | Inr (Some a) \<Rightarrow> Inr (env_file (Entry a))))"

record ReconcileResult =
  rrApp :: string
  rrEnsured :: "string list"
  rrFailures :: "(string, error) fmap"

definition reconcile_service ::
  "string \<Rightarrow> string \<Rightarrow> string \<Rightarrow> error option \<times> 'd world \<Rightarrow> ReconcileResult \<Rightarrow> ReconcileResult \<times> 'd world" where
  "reconcile_service name svc detail outcome res =
     (case outcome of
        (Some e, w) \<Rightarrow>
          (res\<lparr>rrFailures := fmupd svc e (rrFailures res)\<rparr>,
           emit Failure (''['' @ name @ ''] '' @ svc @ '': '' @ err_text e) w)
      | (None, w) \<Rightarrow>
          (res\<lparr>rrEnsured := rrEnsured res @ [svc]\<rparr>, emit Success (''['' @ name @ ''] '' @ svc @ '' '' @ detail) w))"

definition reconcile_app :: "'d host \<Rightarrow> string \<Rightarrow> AppEntry \<Rightarrow> 'd world \<Rightarrow> ReconcileResult \<times> 'd world" where
  "reconcile_app h name entry w =
     (case (case svcRabbitMQ (Svcs entry) of
              None \<Rightarrow> (\<lparr>rrApp = name, rrEnsured = [], rrFailures = fmempty\<rparr>, w)
            | Some cfg \<Rightarrow>
                reconcile_service name RabbitMQ (''vhost='' @ rmq_Vhost cfg @ '' user='' @ rmq_Username cfg)
                  (rabbitmq_ensure h cfg w) \<lparr>rrApp = name, rrEnsured = [], rrFailures = fmempty\<rparr>) of
        (res, w1) \<Rightarrow>
          (case svcMongoDB (Svcs entry) of
             None \<Rightarrow> (res, w1)
           | Some cfg \<Rightarrow>
               reconcile_service name MongoDB (''db='' @ mongo_Database cfg @ '' user='' @ mongo_Username cfg)
                 (mongodb_ensure h cfg w1) res))"

fun reconcile_all :: "'d host \<Rightarrow> (string \<times> AppEntry) list \<Rightarrow> 'd world \<Rightarrow> ReconcileResult list \<times> 'd world" where
  "reconcile_all h [] w = ([], w)"
| "reconcile_all h ((name, entry) # es) w =
     (case reconcile_app h name entry w of
        (r, w1) \<Rightarrow> (case reconcile_all h es w1 of (rs, w2) \<Rightarrow> (r # rs, w2)))"

definition sorted_apps :: "Registry \<Rightarrow> (string \<times> AppEntry) list" where
  "sorted_apps reg = map (\<lambda>n. (n, the (fmlookup (Apps reg) n))) (sorted_list_of_fset (fmdom (Apps reg)))"

definition Reconcile :: "'d host \<Rightarrow> Engine \<Rightarrow> 'd world \<Rightarrow> ReconcileResult list result \<times> 'd world" where
  "Reconcile h eng w =
     (case store_load h (StorePath eng) w of
        Inl e \<Rightarrow> (Inl (wrapf ''reconcile: load registry: '' e []), w)
      | Inr reg \<Rightarrow> (case reconcile_all h (sorted_apps reg) w of (rs, w1) \<Rightarrow> (Inr rs, w1)))"

section \<open>The provisioning loop\<close>

text \<open>A \<open>docker\<close> process in the container of one of the services.\<close>

definition for_services :: "string list \<Rightarrow> string list \<times> string option \<Rightarrow> bool" where
  "for_services svcs c = list_ex (\<lambda>s. in_container (serviceContainer s) c) svcs"

lemma for_services_mono: "set ss \<subseteq> set ts \<Longrightarrow> for_services ss c \<Longrightarrow> for_services ts c"
  by (auto simp: for_services_def list_ex_iff)

lemma acts_for_services_mono: "acts (for_services ss) w w' \<Longrightarrow> set ss \<subseteq> set ts \<Longrightarrow> acts (for_services ts) w w'"
  by (erule acts_mono) (erule for_services_mono)

lemma acts_provisionService:
  "provisionService h svc app opts w = (r, w') \<Longrightarrow> svc \<in> set svcs \<Longrightarrow> acts (for_services svcs) w w'"
  by (rule acts_mono [OF ran_acts [OF provisionService_ran]]) (auto simp: for_services_def list_ex_iff)

lemma acts_teardownService:
  "teardownService h svc app w = (r, w') \<Longrightarrow> svc \<in> set svcs \<Longrightarrow> acts (for_services svcs) w w'"
  by (rule acts_mono [OF ran_acts [OF teardownService_ran]]) (auto simp: for_services_def list_ex_iff)

lemma provision_all_acts:
  "provision_all h app opts svcs res w = (res', w') \<Longrightarrow> set svcs \<subseteq> set all \<Longrightarrow> acts (for_services all) w w'"
proof (induction svcs arbitrary: res w)
  case (Cons svc svcs)
  obtain r w1 where 1: "provisionService h svc app opts w = (r, w1)" by fastforce
  then have "acts (for_services all) w w1" using Cons.prems by (intro acts_provisionService) auto
  moreover have "acts (for_services all) w1 w'"
    using Cons 1 by (cases r) (auto intro: acts_trans [OF acts_emit(1)])
  ultimately show ?case by (rule acts_trans)
qed simp

lemma provision_all_keeps:
  "provision_all h app opts svcs res w = (res', w') \<Longrightarrow>
     trName res' = trName res \<and> CreatedAt (trEntry res') = CreatedAt (trEntry res)
     \<and> Environment (trEntry res') = Environment (trEntry res)
     \<and> SignozServiceName (trEntry res') = SignozServiceName (trEntry res)"
  by (induction svcs arbitrary: res w) (auto split: prod.splits sum.splits)

lemma provision_all_covers:
  "provision_all h app opts svcs res w = (res', w') \<Longrightarrow>
     set (trProvisioned res) \<subseteq> set (trProvisioned res')
     \<and> fset (fmdom (trFailures res)) \<subseteq> fset (fmdom (trFailures res'))
     \<and> set (trProvisioned res') \<union> fset (fmdom (trFailures res'))
         = set (trProvisioned res) \<union> fset (fmdom (trFailures res)) \<union> set svcs"
proof (induction svcs arbitrary: res w)
  case (Cons svc svcs)
  obtain r w1 where 1: "provisionService h svc app opts w = (r, w1)" by fastforce
  show ?case
  proof (cases r)
    case (Inl e)
    with Cons.prems 1 have "provision_all h app opts svcs (res\<lparr>trFailures := fmupd svc e (trFailures res)\<rparr>)
        (emit Failure (''failed to provision '' @ svc @ '' for '' @ app @ '': '' @ err_text e) w1) = (res', w')"
      by simp
    from Cons.IH [OF this] show ?thesis by auto
  next
    case (Inr cfg)
    with Cons.prems 1 have "provision_all h app opts svcs
        (res\<lparr>trEntry := setServiceConfig (trEntry res) svc cfg, trProvisioned := trProvisioned res @ [svc]\<rparr>)
        (emit Success (app @ '': '' @ svc @ '' provisioned'') w1) = (res', w')"
      by simp
    from Cons.IH [OF this] show ?thesis by auto
  qed
qed auto

text \<open>A service ends up in the entry exactly when it was there or was provisioned.\<close>

lemma provision_all_services:
  "provision_all h app opts svcs res w = (res', w') \<Longrightarrow>
   (\<And>s. hasService (trEntry res) s \<longleftrightarrow> hasService e0 s \<or> s \<in> set (trProvisioned res)) \<Longrightarrow>
   hasService (trEntry res') s \<longleftrightarrow> hasService e0 s \<or> s \<in> set (trProvisioned res')"
proof (induction svcs arbitrary: res w)
  case (Cons svc svcs)
  obtain r w1 where 1: "provisionService h svc app opts w = (r, w1)" by fastforce
  show ?case
  proof (cases r)
    case (Inl e)
    with Cons 1 show ?thesis by auto
  next
    case (Inr cfg)
    with 1 have "config_service cfg = svc" by (auto dest: provisionService_config)
    then have "hasService (setServiceConfig (trEntry res) svc cfg) t
        \<longleftrightarrow> hasService e0 t \<or> t \<in> set (trProvisioned res @ [svc])" for t
      using Cons.prems(2) by (auto simp: hasService_set)
    with Cons 1 Inr show ?thesis by auto
  qed
qed simp

section \<open>What is stored stays storable\<close>

lemma ascii_append [simp]: "ascii (s @ t) \<longleftrightarrow> ascii s \<and> ascii t"
  by (simp add: ascii_def)

lemma ascii_subset: "set s \<subseteq> set t \<Longrightarrow> ascii t \<Longrightarrow> ascii s"
  by (auto simp: ascii_def list_all_iff)

lemma graphic_byte: "graphic c \<Longrightarrow> byte_in 0 127 c"
  by (simp add: graphic_def byte_in_def less_eq_char_def)

lemma ascii_graphic: "list_all graphic s \<Longrightarrow> ascii s"
  unfolding ascii_def by (erule list_all_mono) (rule graphic_byte)

lemma ascii_name: "name_pattern s \<Longrightarrow> ascii s"
  by (rule ascii_graphic [OF name_pattern_graphic])

lemma ascii_password: "generate h len w = (p, w') \<Longrightarrow> ascii p"
  by (rule ascii_graphic) (auto dest!: generate_frame elim: list_all_mono simp: is_password_char_graphic)

lemma set_strip_left: "set (strip_left ps s) \<subseteq> set s"
proof (induction ps s rule: strip_left.induct)
  case (1 ps s)
  then show ?case
    by (subst strip_left.simps) (auto split: option.split dest: in_set_dropD)
qed

lemma set_trim_space: "set (trim_space s) \<subseteq> set s"
proof -
  have "set (trim_right t) \<subseteq> set t" for t
    using set_strip_left [of "map rev space_runes" "rev t"] by (simp add: trim_right_def)
  moreover have "set (trim_left t) \<subseteq> set t" for t
    using set_strip_left by (simp add: trim_left_def)
  ultimately show ?thesis unfolding trim_space_def by blast
qed

lemma ascii_trim_space: "ascii s \<Longrightarrow> ascii (trim_space s)"
  by (rule ascii_subset [OF set_trim_space])

definition ascii_options :: "'d host \<Rightarrow> provisionOptions \<Rightarrow> bool" where
  "ascii_options h opts =
     (ascii (poSignozServiceName opts) \<and> ascii (poSignozEnvironment opts)
      \<and> ascii (getenv h ''SIGNOZ_DEFAULT_ENV''))"

definition config_values :: "service_config \<Rightarrow> string list" where
  "config_values cfg = services_values (set_slot cfg no_services)"

lemma services_values_set:
  "list_all ascii (config_values cfg) \<Longrightarrow> list_all ascii (services_values s) \<Longrightarrow>
   list_all ascii (services_values (set_slot cfg s))"
  by (cases cfg) (auto simp: config_values_def services_values_def no_services_def)

lemma validate_ok: "validate_app_name app = None \<longleftrightarrow> name_pattern app"
  by (simp add: validate_app_name_def app_name_pattern_def)

lemma lift_config_Inr: "lift_config f m = (Inr cfg, w') \<Longrightarrow> \<exists>c. m = (Inr c, w') \<and> cfg = f c"
  by (cases m; cases "fst m") (auto simp: lift_config_def)

lemma bind_err_Inr:
  "bind_err m f = (Inr b, w') \<longleftrightarrow> (\<exists>a w1. m = (Inr a, w1) \<and> f a w1 = (Inr b, w'))"
  by (cases m; cases "fst m") auto

text \<open>The configuration each service registers: the app's name, and a generated secret.\<close>

lemma provisioned_configs:
  "postgres_provision h app w = (Inr c1, w') \<Longrightarrow>
     \<exists>p w1. generate h 24 w = (p, w1) \<and> c1 = \<lparr>pg_Database = app, pg_Username = app, pg_Password = p\<rparr>"
  "redis_provision h app b w = (Inr c2, w') \<Longrightarrow>
     \<exists>p w1. generate h 24 w = (p, w1) \<and> c2 = \<lparr>redis_Username = app, redis_Password = p,
       redis_Prefix = (if b then [] else app @ '':'')\<rparr>"
  "rabbitmq_provision h app w = (Inr c3, w') \<Longrightarrow>
     \<exists>p w1. generate h 24 w = (p, w1) \<and> c3 = \<lparr>rmq_Vhost = app, rmq_Username = app, rmq_Password = p\<rparr>"
  "mongodb_provision h app w = (Inr c4, w') \<Longrightarrow>
     \<exists>p w1. generate h 24 w = (p, w1) \<and> c4 = \<lparr>mongo_Database = app, mongo_Username = app, mongo_Password = p\<rparr>"
  "aistor_provision h app w = (Inr c5, w') \<Longrightarrow>
     \<exists>p w1. generate h 24 w = (p, w1) \<and> c5 = \<lparr>s3_Bucket = app, s3_AccessKey = app, s3_SecretKey = p,
       s3_Endpoint = ''http://aistor:9000''\<rparr>"
  subgoal by (auto simp: postgres_provision_alt split: option.splits prod.splits)
  subgoal by (auto simp: redis_provision_def Let_def split: option.splits prod.splits sum.splits)
  subgoal by (auto simp: rabbitmq_provision_def split: option.splits prod.splits)
  subgoal by (auto simp: mongodb_provision_def split: option.splits prod.splits)
  subgoal by (auto simp: aistor_provision_def bind_err_def split: option.splits prod.splits sum.splits)
  done

lemma provisionService_ascii:
  assumes "provisionService h svc app opts w = (Inr cfg, w')" "name_pattern app" "ascii_options h opts"
  shows "list_all ascii (config_values cfg)"
proof -
  have a: "ascii app" by (rule ascii_name [OF assms(2)])
  have lit: "ascii ''http://aistor:9000''" "ascii '':''" "ascii ''dev''" by (simp_all add: byte_in_def)
  note cv = config_values_def services_values_def no_services_def
  from assms(1) consider
      c where "postgres_provision h app w = (Inr c, w')" "cfg = CfgPostgres c"
    | c where "redis_provision h app (poFullAccess opts) w = (Inr c, w')" "cfg = CfgRedis c"
    | c where "rabbitmq_provision h app w = (Inr c, w')" "cfg = CfgRabbitMQ c"
    | c where "aistor_provision h app w = (Inr c, w')" "cfg = CfgAIStor c"
    | c where "mongodb_provision h app w = (Inr c, w')" "cfg = CfgMongoDB c"
    | "cfg = CfgSignoz (signoz_provision h app (poSignozServiceName opts) (poSignozEnvironment opts))"
    by (auto simp: provisionService_def split: if_splits dest!: lift_config_Inr)
  then show ?thesis
  proof cases
    case 6
    then show ?thesis using a lit assms(3)
      by (simp add: cv signoz_provision_def ascii_options_def ascii_trim_space Let_def)
  qed (use a lit in \<open>auto simp: cv dest!: provisioned_configs dest: ascii_password\<close>)
qed

lemma provision_all_fits:
  "provision_all h app opts svcs res w = (res', w') \<Longrightarrow> name_pattern app \<Longrightarrow> ascii_options h opts \<Longrightarrow>
   entry_fits n (trEntry res) \<Longrightarrow> entry_fits n (trEntry res')"
proof (induction svcs arbitrary: res w)
  case (Cons svc svcs)
  obtain r w1 where 1: "provisionService h svc app opts w = (r, w1)" by fastforce
  show ?case
  proof (cases r)
    case (Inl e)
    with Cons 1 show ?thesis by auto
  next
    case (Inr cfg)
    with 1 Cons.prems have "list_all ascii (config_values cfg)"
      by (intro provisionService_ascii [of h svc app opts w cfg w1]) auto
    then have "entry_fits n (setServiceConfig (trEntry res) svc cfg)"
      using Cons.prems(4) services_values_set [of cfg "Svcs (trEntry res)"]
      by (auto simp: entry_fits_def entry_values_def setServiceConfig_def)
    with Cons 1 Inr show ?thesis by auto
  qed
qed simp

section \<open>The registry across operations\<close>

lemma read_file_files:
  "files w' = files w \<Longrightarrow> reads_ok h \<Longrightarrow> read_file h w' = read_file h w"
  by (intro ext) (simp add: read_file_def fails_def lookup_file_def reads_ok_def)

lemma store_load_files:
  assumes "files w' = files w" "reads_ok h"
  shows "store_load h path w' = store_load h path w"
proof -
  note r = read_file_files [OF assms]
  have "dotenv_at h w' = dotenv_at h w" by (intro ext) (simp add: dotenv_at_def r)
  then have "load_dotenv h w' d = load_dotenv h w d" for d by (simp only: load_dotenv_def)
  then have "registry_secret h w' d = registry_secret h w d" for d by (simp only: registry_secret_def)
  then have "decryptRegistryContent h w' f path = decryptRegistryContent h w f path" for f
    by (simp only: decryptRegistryContent_def)
  then show ?thesis by (simp only: store_load_def r)
qed

lemma acts_store: "acts P w w' \<Longrightarrow> reads_ok h \<Longrightarrow> store_load h path w' = store_load h path w"
  by (rule store_load_files) (rule acts_files)

text \<open>The started processes when files may change too.\<close>

definition calls_only :: "(string list \<times> string option \<Rightarrow> bool) \<Rightarrow> 'd world \<Rightarrow> 'd world \<Rightarrow> bool" where
  "calls_only P w w' = (calls w' = calls w @ issued w w' \<and> list_all P (issued w w'))"

lemma calls_onlyI: "calls w' = calls w @ cs \<Longrightarrow> list_all P cs \<Longrightarrow> calls_only P w w'"
  by (simp add: calls_only_def issued_def)

lemma calls_only_refl [simp]: "calls_only P w w"
  by (simp add: calls_only_def)

lemma calls_only_trans [trans]:
  assumes "calls_only P w w'" "calls_only P w' w''"
  shows "calls_only P w w''"
proof -
  have "calls w'' = calls w @ issued w w' @ issued w' w''" using assms by (simp add: calls_only_def)
  with assms show ?thesis
    by (intro calls_onlyI [of _ _ "issued w w' @ issued w' w''"]) (auto simp: calls_only_def)
qed

lemma calls_only_mono: "calls_only P w w' \<Longrightarrow> (\<And>c. P c \<Longrightarrow> Q c) \<Longrightarrow> calls_only Q w w'"
  by (auto simp: calls_only_def list_all_iff)

lemma acts_calls_only: "acts P w w' \<Longrightarrow> calls_only P w w'"
  by (simp add: acts_def calls_only_def)

lemma store_save_calls: "store_save h path reg w = (r, w') \<Longrightarrow> calls_only P w w'"
  by (drule store_save_frame) (auto intro: calls_onlyI)

section \<open>Setup\<close>

lemma setup_target_spec:
  assumes "setup_target h opts t w = (res, w')"
  shows "trName res = tgName t" "Environment (trEntry res) = tgSignozEnv t"
    "hasService (trEntry res) s \<longleftrightarrow> s \<in> set (trProvisioned res)"
    "set (trProvisioned res) \<union> fset (fmdom (trFailures res)) = set (soServices opts)"
    "acts (for_services (soServices opts)) w w'"
proof -
  note d = assms [unfolded setup_target_def]
  show "trName res = tgName t" "Environment (trEntry res) = tgSignozEnv t"
    using provision_all_keeps [OF d] by (simp_all add: new_entry_def)
  show "set (trProvisioned res) \<union> fset (fmdom (trFailures res)) = set (soServices opts)"
    using provision_all_covers [OF d] by simp
  show "acts (for_services (soServices opts)) w w'"
    using provision_all_acts [OF d] by simp
  have "\<not> hasService (new_entry h t w) s" for s
    by (simp add: hasService_def new_entry_def no_services_def)
  then show "hasService (trEntry res) s \<longleftrightarrow> s \<in> set (trProvisioned res)"
    using provision_all_services [OF d, of "new_entry h t w"] by simp
qed

definition ascii_target :: "'d host \<Rightarrow> Target \<Rightarrow> bool" where
  "ascii_target h t =
     (name_pattern (tgName t) \<and> ascii (tgSignozServiceName t) \<and> ascii (tgSignozEnv t)
      \<and> ascii (getenv h ''SIGNOZ_DEFAULT_ENV''))"

lemma setup_target_fits:
  assumes "setup_target h opts t w = (res, w')" "ascii_target h t"
  shows "entry_fits (tgName t) (trEntry res)"
proof -
  have "ascii (format_created (time_now h w))"
    by (rule ascii_graphic, rule list_all_mono [OF format_created_chars]) (simp add: time_char_plain)
  then have "entry_fits (tgName t) (new_entry h t w)"
    using assms(2) ascii_name [of "tgName t"]
    by (simp add: ascii_target_def entry_fits_def entry_values_def new_entry_def services_values_def no_services_def)
  then show ?thesis
    using provision_all_fits [OF assms(1) [unfolded setup_target_def]] assms(2)
    by (simp add: ascii_target_def ascii_options_def)
qed

text \<open>
  After a successful loop the stored registry is the loaded one with every result's entry put
  in, and each result answers its target.
\<close>

definition answers :: "string list \<Rightarrow> Target \<Rightarrow> TargetResult \<Rightarrow> bool" where
  "answers svcs t res =
     (trName res = tgName t \<and> Environment (trEntry res) = tgSignozEnv t
      \<and> (\<forall>s \<in> set valid_services. hasService (trEntry res) s = (s \<in> set (trProvisioned res)))
      \<and> set (trProvisioned res) \<union> fset (fmdom (trFailures res)) = set svcs)"

lemma setup_target_answers: "setup_target h opts t w = (res, w') \<Longrightarrow> answers (soServices opts) t res"
  using setup_target_spec [of h opts t w res w'] by (simp add: answers_def)

lemma storable_put_entry:
  "storable reg \<Longrightarrow> entry_fits (trName res) (trEntry res) \<Longrightarrow> storable (put_entry res reg)"
  by (simp add: put_entry_def storable_upd)

lemma setup_targets_spec:
  assumes "reads_ok h" "registry_path path"
  shows "setup_targets h path opts ts reg results w = ((results', None), w') \<Longrightarrow> storable reg \<Longrightarrow>
    list_all (ascii_target h) ts \<Longrightarrow>
    \<exists>new. results' = results @ new \<and> list_all2 (answers (soServices opts)) ts new
      \<and> storable (fold put_entry new reg)
      \<and> (ts \<noteq> [] \<longrightarrow> store_load h path w' = Inr (saved_version (fold put_entry new reg)))
      \<and> calls_only (for_services (soServices opts)) w w'"
proof (induction ts arbitrary: reg results w)
  case (Cons t ts)
  obtain res w1 where 1: "setup_target h opts t w = (res, w1)" by fastforce
  obtain w2 where 2: "store_save h path (put_entry res reg) w1 = (None, w2)"
    using Cons.prems(1) 1 by (auto split: prod.splits option.splits)
  with Cons.prems(1) 1 have 3: "setup_targets h path opts ts (put_entry res reg) (results @ [res]) w2
      = ((results', None), w')" by simp
  have st: "storable (put_entry res reg)"
    using storable_put_entry [OF Cons.prems(2)] setup_target_fits [OF 1] setup_target_spec(1) [OF 1] Cons.prems(3)
    by simp
  have "calls_only (for_services (soServices opts)) w w1"
    by (rule acts_calls_only [OF setup_target_spec(5) [OF 1]])
  then have c: "calls_only (for_services (soServices opts)) w w2"
    by (rule calls_only_trans [OF _ store_save_calls [OF 2]])
  obtain new where new: "results' = (results @ [res]) @ new" "list_all2 (answers (soServices opts)) ts new"
      "storable (fold put_entry new (put_entry res reg))"
      "ts \<noteq> [] \<longrightarrow> store_load h path w' = Inr (saved_version (fold put_entry new (put_entry res reg)))"
      "calls_only (for_services (soServices opts)) w2 w'"
    using Cons.IH [OF 3 st] Cons.prems(3) by auto
  have "store_load h path w2 = Inr (saved_version (put_entry res reg))"
    by (rule store_save_load [OF assms(2,1) st 2])
  moreover have "w' = w2 \<and> new = []" if "ts = []"
    using 3 that new(1) by simp
  ultimately show ?case
    using new setup_target_answers [OF 1] calls_only_trans [OF c new(5)]
    by (intro exI [of _ "res # new"]) auto
qed simp

lemma check_targets_None:
  "check_targets reg ts = None \<longleftrightarrow>
     list_all (\<lambda>t. name_pattern (tgName t) \<and> fmlookup (Apps reg) (tgName t) = None) ts"
  by (induction ts) (auto simp: validate_app_name_def app_name_pattern_def)

lemma lookup_put_entries:
  "fmlookup (Apps (fold put_entry rs reg)) n \<noteq> None \<longleftrightarrow> n \<in> trName ` set rs \<or> fmlookup (Apps reg) n \<noteq> None"
  "n \<notin> trName ` set rs \<Longrightarrow> fmlookup (Apps (fold put_entry rs reg)) n = fmlookup (Apps reg) n"
  by (induction rs rule: rev_induct) (auto simp: put_entry_def)

lemma answers_names: "list_all2 (answers svcs) ts results \<Longrightarrow> trName ` set results = tgName ` set ts"
  by (induction rule: list_all2_induct) (auto simp: answers_def)

definition setup_list :: "string \<Rightarrow> SetupOptions \<Rightarrow> Target list" where
  "setup_list app opts = BuildSetupTargets app \<lparr>optEnvs = soEnvs opts, optEnv = soEnv opts\<rparr>"

lemma SetupApp_phases:
  assumes "SetupApp h eng app opts w = ((results, err), w')"
  shows "(results = [] \<and> err \<noteq> None \<and> ran is_inspect w w') \<or>
    (\<exists>reg w1. name_pattern app \<and> store_load h (StorePath eng) w = Inr reg
       \<and> check_targets reg (setup_list app opts) = None
       \<and> containerCheck h (soServices opts) w = (None, w1) \<and> ran is_inspect w w1
       \<and> setup_targets h (StorePath eng) opts (setup_list app opts) reg [] w1 = ((results, err), w'))"
  using assms
  by (auto simp: SetupApp_def setup_list_def validate_app_name_def app_name_pattern_def Let_def
      split: option.splits if_splits sum.splits prod.splits dest: containerCheck_ran)

lemma SetupApp_start:
  assumes "name_pattern app" "soServices opts \<noteq> []" "parse_services (soServices opts) = Inr svcs"
    "store_load h (StorePath eng) w = Inr reg"
  shows "SetupApp h eng app opts w =
    (case check_targets reg (setup_list app opts) of
       Some e \<Rightarrow> (([], Some e), w)
     | None \<Rightarrow>
         (case containerCheck h (soServices opts) w of
            (Some e, w1) \<Rightarrow> (([], Some e), w1)
          | (None, w1) \<Rightarrow> setup_targets h (StorePath eng) opts (setup_list app opts) reg [] w1))"
proof -
  have "validate_app_name app = None" using assms(1) by (simp add: validate_ok)
  with assms(2-) show ?thesis
    by (simp add: SetupApp_def setup_list_def Let_def split: option.split prod.split)
qed

lemma setup_list_nonempty [simp]: "setup_list app opts \<noteq> []"
  by (simp add: setup_list_def BuildSetupTargets_def)

lemma ascii_setup_list:
  assumes "name_pattern app" "check_targets reg (setup_list app opts) = None"
    "list_all ascii (soEnv opts # soEnvs opts)" "ascii (getenv h ''SIGNOZ_DEFAULT_ENV'')"
  shows "list_all (ascii_target h) (setup_list app opts)"
  using assms ascii_name [OF assms(1)]
  by (auto simp: check_targets_None setup_list_def BuildSetupTargets_def env_target_def ascii_target_def
      list_all_iff split: if_splits)

section \<open>Remove\<close>

lemma remove_all_acts:
  "set svcs \<subseteq> set all \<Longrightarrow> acts (for_services (filter (hasService entry) all)) w (remove_all h app entry svcs w)"
proof (induction svcs arbitrary: w)
  case (Cons svc svcs)
  show ?case
  proof (cases "hasService entry svc")
    case True
    obtain r w1 where 1: "teardownService h svc app w = (r, w1)" by fastforce
    then have "acts (for_services (filter (hasService entry) all)) w w1"
      using Cons.prems True by (intro acts_teardownService) auto
    with Cons 1 True show ?thesis
      by (auto split: option.split intro: acts_trans [OF _ acts_trans [OF acts_emit(1)]])
  qed (use Cons in auto)
qed simp

section \<open>Detach\<close>

lemma detach_all_signoz:
  "list_all detachable svcs \<Longrightarrow>
   \<exists>e' w'. detach_all h app svcs e w = (Inr e', w') \<and> files w' = files w \<and> calls w' = calls w
     \<and> (e' = e \<or> e' = clearServiceConfig e Signoz) \<and> (svcs \<noteq> [] \<longrightarrow> \<not> hasService e' Signoz)"
proof (induction svcs arbitrary: e w)
  case (Cons svc svcs)
  then have s: "svc = Signoz" "list_all detachable svcs" by (simp_all add: detachable_def [of svc])
  have cc: "clearServiceConfig (clearServiceConfig e Signoz) Signoz = clearServiceConfig e Signoz"
    by (simp add: clearServiceConfig_def)
  have no: "\<not> hasService (clearServiceConfig e Signoz) Signoz"
    by (simp add: hasService_clear)
  show ?case
  proof (cases "hasService e Signoz")
    case True
    from Cons.IH [OF s(2), of "clearServiceConfig e Signoz"
        "emit Success (Signoz @ '' detached from '' @ app) w"]
    obtain e' w' where "detach_all h app svcs (clearServiceConfig e Signoz)
        (emit Success (Signoz @ '' detached from '' @ app) w) = (Inr e', w')"
      "files w' = files w" "calls w' = calls w" "e' = clearServiceConfig e Signoz" using cc by auto
    with True no s(1) show ?thesis by (auto simp: teardownService_def)
  next
    case False
    from Cons.IH [OF s(2), of e "emit Warn (Signoz @ '' is not attached to '' @ quote app @ '' '' @ em_dash
        @ '' skipping'') w"]
    obtain e' w' where "detach_all h app svcs e
        (emit Warn (Signoz @ '' is not attached to '' @ quote app @ '' '' @ em_dash @ '' skipping'') w) = (Inr e', w')"
      "files w' = files w" "calls w' = calls w" "e' = e \<or> e' = clearServiceConfig e Signoz" by auto
    with False no s(1) show ?thesis by auto
  qed
qed simp

section \<open>Add\<close>

text \<open>The slot of a service, and entries that only gain slots.\<close>

definition slot :: "AppEntry \<Rightarrow> string \<Rightarrow> service_config option" where
  "slot e svc =
     (if svc = Postgres then map_option CfgPostgres (svcPostgres (Svcs e))
      else if svc = Redis then map_option CfgRedis (svcRedis (Svcs e))
      else if svc = RabbitMQ then map_option CfgRabbitMQ (svcRabbitMQ (Svcs e))
      else if svc = AIStor then map_option CfgAIStor (svcAIStor (Svcs e))
      else if svc = MongoDB then map_option CfgMongoDB (svcMongoDB (Svcs e))
      else if svc = Signoz then map_option CfgSignoz (svcSignoz (Svcs e))
      else None)"

definition entry_extends :: "AppEntry \<Rightarrow> AppEntry \<Rightarrow> bool" where
  "entry_extends e e' =
     (CreatedAt e' = CreatedAt e \<and> Environment e' = Environment e \<and> SignozServiceName e' = SignozServiceName e
      \<and> list_all (\<lambda>s. slot e s = None \<or> slot e' s = slot e s) valid_services)"

lemma slot_hasService: "slot e s = None \<longleftrightarrow> \<not> hasService e s"
  by (simp add: slot_def hasService_def)

lemma slot_set: "slot (setServiceConfig e svc cfg) s = (if config_service cfg = svc \<and> s = svc then Some cfg else slot e s)"
  by (cases cfg) (auto simp: slot_def setServiceConfig_def)

lemma entry_extends_refl [simp]: "entry_extends e e"
  by (simp add: entry_extends_def list_all_iff)

lemma entry_extends_trans: "entry_extends e e' \<Longrightarrow> entry_extends e' e'' \<Longrightarrow> entry_extends e e''"
  unfolding entry_extends_def list_all_iff by metis

lemma provision_all_extends:
  "provision_all h app opts svcs res w = (res', w') \<Longrightarrow> entry_extends e (trEntry res) \<Longrightarrow>
   list_all (\<lambda>s. \<not> hasService e s) svcs \<Longrightarrow> entry_extends e (trEntry res')"
proof (induction svcs arbitrary: res w)
  case (Cons svc svcs)
  obtain r w1 where 1: "provisionService h svc app opts w = (r, w1)" by fastforce
  show ?case
  proof (cases r)
    case (Inl err)
    with Cons 1 show ?thesis by auto
  next
    case (Inr cfg)
    have "entry_extends e (setServiceConfig (trEntry res) svc cfg)"
      using Cons.prems(2,3) slot_hasService [of e svc]
      by (auto simp: entry_extends_def slot_set list_all_iff)
    with Cons 1 Inr show ?thesis by auto
  qed
qed simp

lemma to_provision_spec:
  "to_provision app e svcs w = (ss, w') \<Longrightarrow>
     ss = filter (\<lambda>s. \<not> hasService e s) svcs \<and> acts P w w'"
proof (induction svcs arbitrary: w ss)
  case (Cons svc svcs)
  then show ?case
    by (auto split: if_splits prod.splits intro: acts_trans [OF acts_emit(1)])
qed simp

definition registry_extends :: "Registry \<Rightarrow> Registry \<Rightarrow> bool" where
  "registry_extends r r' =
     (fmdom (Apps r') = fmdom (Apps r)
      \<and> list_all (\<lambda>n. entry_extends (the (fmlookup (Apps r) n)) (the (fmlookup (Apps r') n)))
          (sorted_list_of_fset (fmdom (Apps r))))"

lemma registry_extends_iff:
  "registry_extends r r' \<longleftrightarrow> fmdom (Apps r') = fmdom (Apps r)
     \<and> (\<forall>n e. fmlookup (Apps r) n = Some e \<longrightarrow>
          (\<exists>e'. fmlookup (Apps r') n = Some e' \<and> entry_extends e e'))"
proof -
  have "(\<forall>n e. fmlookup (Apps r) n = Some e \<longrightarrow> entry_extends e (the (fmlookup (Apps r') n)))
      \<longleftrightarrow> (\<forall>n e. fmlookup (Apps r) n = Some e \<longrightarrow>
            (\<exists>e'. fmlookup (Apps r') n = Some e' \<and> entry_extends e e'))"
    if "fmdom (Apps r') = fmdom (Apps r)"
  proof -
    have "fmlookup (Apps r') n \<noteq> None" if "fmlookup (Apps r) n = Some e" for n e
      using that \<open>fmdom (Apps r') = fmdom (Apps r)\<close> fmdomI [OF that] by (metis fmlookup_dom_iff)
    then show ?thesis by (metis option.collapse option.sel)
  qed
  then show ?thesis
    using Ball_fmdom [of "Apps r" "\<lambda>n e. entry_extends e (the (fmlookup (Apps r') n))"]
    by (auto simp: registry_extends_def list_all_iff)
qed

lemma registry_extends_refl [simp]: "registry_extends r r"
  by (simp add: registry_extends_iff)

lemma registry_extends_saved [simp]: "registry_extends r (saved_version r') = registry_extends r r'"
  by (simp add: registry_extends_iff)

lemma registry_extends_put:
  assumes "registry_extends r0 reg" "fmlookup (Apps reg) (trName res) = Some e" "entry_extends e (trEntry res)"
  shows "registry_extends r0 (put_entry res reg)"
proof -
  have "trName res |\<in>| fmdom (Apps reg)" using assms(2) by (rule fmdomI)
  then have "finsert (trName res) (fmdom (Apps reg)) = fmdom (Apps reg)" by auto
  with assms show ?thesis
    by (auto simp: registry_extends_iff put_entry_def) (metis entry_extends_trans option.inject)
qed

lemma add_target_step:
  assumes "reads_ok h" "registry_path path" "fmlookup (Apps reg) (tgName t) = Some entry"
    "provision_all h (tgName t)
       \<lparr>poFullAccess = False, poSignozServiceName = tgSignozServiceName t, poSignozEnvironment = tgSignozEnv t\<rparr> svcs
       \<lparr>trName = tgName t, trEntry = entry, trProvisioned = [], trFailures = fmempty\<rparr> w = (res, w1)"
    "store_save h path (put_entry res reg) w1 = (x, w2)"
    "svcs = filter (\<lambda>s. \<not> hasService entry s) all" "storable reg" "ascii_target h t" "registry_extends r0 reg"
    "store_load h path w = Inr r1"
  shows "registry_extends r0 (put_entry res reg)" "storable (put_entry res reg)"
    "calls_only (for_services all) w w2"
    "store_load h path w2 = (if x = None then Inr (saved_version (put_entry res reg)) else Inr r1)"
proof -
  have n: "trName res = tgName t" using provision_all_keeps [OF assms(4)] by simp
  have a: "acts (for_services all) w w1" using provision_all_acts [OF assms(4), of all] assms(6) by auto
  show "registry_extends r0 (put_entry res reg)"
    using provision_all_extends [OF assms(4), of entry] assms(3,6,9) n
    by (intro registry_extends_put [of r0 reg res entry]) (auto simp: list_all_iff)
  show st: "storable (put_entry res reg)"
    using provision_all_fits [OF assms(4), of "tgName t"] assms(3,7,8) n
    by (intro storable_put_entry) (auto simp: ascii_target_def ascii_options_def storable_iff)
  show "calls_only (for_services all) w w2"
    using acts_calls_only [OF a] store_save_calls [OF assms(5)] by (rule calls_only_trans)
  show "store_load h path w2 = (if x = None then Inr (saved_version (put_entry res reg)) else Inr r1)"
    using store_save_load [OF assms(2,1) st] store_save_fail [OF assms(2,1)] assms(5,10) acts_store [OF a assms(1)]
    by (cases x) simp_all
qed

lemma add_targets_spec:
  assumes "reads_ok h" "registry_path path"
  shows "add_targets h path opts ts reg results w = ((results', err), w') \<Longrightarrow> storable reg \<Longrightarrow>
    list_all (ascii_target h) ts \<Longrightarrow> list_all (\<lambda>t. fmlookup (Apps reg) (tgName t) \<noteq> None) ts \<Longrightarrow>
    registry_extends r0 reg \<Longrightarrow> store_load h path w = Inr r1 \<Longrightarrow> registry_extends r0 r1 \<Longrightarrow>
    \<exists>r'. store_load h path w' = Inr r' \<and> registry_extends r0 r'
      \<and> calls_only (for_services (aoServices opts)) w w'"
proof (induction ts arbitrary: reg results w r1)
  case (Cons t ts)
  let ?P = "for_services (aoServices opts)"
  obtain entry where e: "fmlookup (Apps reg) (tgName t) = Some entry" using Cons.prems(4) by auto
  let ?res0 = "\<lparr>trName = tgName t, trEntry = entry, trProvisioned = [], trFailures = fmempty\<rparr>"
  let ?opts = "\<lparr>poFullAccess = False, poSignozServiceName = tgSignozServiceName t, poSignozEnvironment = tgSignozEnv t\<rparr>"
  obtain svcs w1 where 1: "to_provision (tgName t) entry (aoServices opts) w = (svcs, w1)" by fastforce
  have svcs: "svcs = filter (\<lambda>s. \<not> hasService entry s) (aoServices opts)" and a1: "acts ?P w w1"
    using to_provision_spec [OF 1] by auto
  have l1: "store_load h path w1 = Inr r1" using acts_store [OF a1 assms(1)] Cons.prems(6) by simp
  show ?case
  proof (cases "svcs = []")
    case True
    define w2 where "w2 = emit Info (tgName t @ '': nothing to do'') w1"
    have a2: "acts ?P w w2" using a1 by (simp add: w2_def)
    have "add_targets h path opts ts reg (results @ [?res0]) w2 = ((results', err), w')"
      using Cons.prems(1) e 1 True by (simp add: w2_def)
    then obtain r' where "store_load h path w' = Inr r'" "registry_extends r0 r'" "calls_only ?P w2 w'"
      using Cons.IH [of reg "results @ [?res0]" w2 r1] Cons.prems acts_store [OF a2 assms(1)] by auto
    then show ?thesis
      using calls_only_trans [OF acts_calls_only [OF a2]] by auto
  next
    case False
    obtain res w2 where 2: "provision_all h (tgName t) ?opts svcs ?res0 w1 = (res, w2)" by fastforce
    obtain r3 w3 where 3: "store_save h path (put_entry res reg) w2 = (r3, w3)" by fastforce
    have "ascii_target h t" using Cons.prems(3) by simp
    note s = add_target_step [OF assms e 2 3 svcs Cons.prems(2) this Cons.prems(5) l1]
    have c: "calls_only ?P w w3" by (rule calls_only_trans [OF acts_calls_only [OF a1] s(3)])
    show ?thesis
    proof (cases r3)
      case (Some err)
      with s(4) Cons.prems 1 2 3 e False c show ?thesis by auto
    next
      case None
      moreover have "add_targets h path opts ts (put_entry res reg) (results @ [res]) w3 = ((results', err), w')"
        using Cons.prems(1) 1 2 3 e False None by simp
      moreover have "list_all (\<lambda>t. fmlookup (Apps (put_entry res reg)) (tgName t) \<noteq> None) ts"
        using Cons.prems(4) by (auto simp: put_entry_def list_all_iff)
      ultimately show ?thesis
        using Cons.IH [of "put_entry res reg" "results @ [res]" w3] Cons.prems(3) s(1,2,4) c
        by (auto intro: calls_only_trans)
    qed
  qed
qed auto

lemma find_missing_None:
  "find_missing_target reg ts = None \<longleftrightarrow> list_all (\<lambda>t. fmlookup (Apps reg) (tgName t) \<noteq> None) ts"
  by (induction ts) auto

lemma ascii_add_targets:
  assumes "name_pattern app" "storable reg" "list_all name_pattern (aoEnvs opts)" "ascii (aoEnv opts)"
    "ascii (getenv h ''SIGNOZ_DEFAULT_ENV'')"
  shows "list_all (ascii_target h) (BuildAddTargets app \<lparr>optEnvs = aoEnvs opts, optEnv = aoEnv opts\<rparr> reg)"
proof -
  have "name_pattern (app @ ''-'' @ env)" if "env \<in> set (aoEnvs opts)" for env
    using assms(1,3) that name_pattern_chars [of env]
    by (intro name_pattern_append) (auto simp: list_all_iff is_name_char_def)
  then show ?thesis
    using assms ascii_name
    by (auto simp: BuildAddTargets_def env_target_def ascii_target_def list_all_iff storable_iff entry_fits_def
        entry_values_def split: option.split)
qed

section \<open>A setup on a healthy disk\<close>

lemma setup_targets_ready:
  assumes "no_faults h" "registry_path path"
  shows "disk_ready path w \<Longrightarrow>
    \<exists>results' w'. setup_targets h path opts ts reg results w = ((results', None), w') \<and> disk_ready path w'"
proof (induction ts arbitrary: reg results w)
  case (Cons t ts)
  obtain res w1 where 1: "setup_target h opts t w = (res, w1)" by fastforce
  then have "disk_ready path w1"
    using Cons.prems acts_files [OF setup_target_spec(5) [OF 1]] disk_ready_files [of w1 w path] by simp
  then obtain w2 where 2: "store_save h path (put_entry res reg) w1 = (None, w2)" "disk_ready path w2"
    using store_save_ready [OF assms] by blast
  then show ?case using Cons.IH [OF 2(2)] 1 by simp
qed simp

text \<open>The environment the properties of this theory are evaluated in.\<close>

definition demo_engine :: Engine where
  "demo_engine = \<lparr>StorePath = ''/d/apps.json'', BackupsDir = ''/d/backups''\<rparr>"

definition demo_setup :: SetupOptions where
  "demo_setup = \<lparr>soServices = [Signoz], soEnvs = [''staging'', ''production''], soEnv = [], soFullAccess = False\<rparr>"

lemma demo_facts:
  "no_faults demo_host" "reads_ok demo_host" "registry_path ''/d/apps.json''"
  "disk_ready ''/d/apps.json'' demo_world"
  "store_load demo_host ''/d/apps.json'' demo_world = Inr empty_registry" "storable empty_registry"
  subgoal by (simp add: no_faults_def)
  subgoal by (simp add: reads_ok_def)
  subgoal by code_simp
  subgoal by code_simp
  subgoal by code_simp
  subgoal by code_simp
  done

lemma demo_setup_checks:
  "validate_app_name ''shop'' = None" "parse_services (soServices demo_setup) = Inr [Signoz]"
  "check_targets empty_registry (setup_list ''shop'' demo_setup) = None"
  "soServices demo_setup \<noteq> []"
  subgoal by code_simp
  subgoal by code_simp
  subgoal by code_simp
  subgoal by (simp add: demo_setup_def)
  done

lemma SetupApp_registers:
  assumes "reads_ok h" "registry_path (StorePath eng)" "store_load h (StorePath eng) w = Inr reg"
    "storable reg" "list_all ascii (soEnv opts # soEnvs opts)" "ascii (getenv h ''SIGNOZ_DEFAULT_ENV'')"
    "SetupApp h eng app opts w = ((results, None), w')"
  shows "store_load h (StorePath eng) w' = Inr (saved_version (fold put_entry results reg))
    \<and> list_all2 (answers (soServices opts)) (setup_list app opts) results
    \<and> calls_only (\<lambda>c. is_inspect c \<or> for_services (soServices opts) c) w w'"
proof -
  obtain w1 where n: "name_pattern app" and ct: "check_targets reg (setup_list app opts) = None"
    and i: "ran is_inspect w w1"
    and s: "setup_targets h (StorePath eng) opts (setup_list app opts) reg [] w1 = ((results, None), w')"
    using SetupApp_phases [OF assms(7)] assms(3) by auto
  obtain new where new: "results = [] @ new" "list_all2 (answers (soServices opts)) (setup_list app opts) new"
      "store_load h (StorePath eng) w' = Inr (saved_version (fold put_entry new reg))"
      "calls_only (for_services (soServices opts)) w1 w'"
    using setup_targets_spec [OF assms(1,2) s assms(4) ascii_setup_list [OF n ct assms(5,6)]] by auto
  have "calls_only (\<lambda>c. is_inspect c \<or> for_services (soServices opts) c) w w1"
    using acts_calls_only [OF ran_acts [OF i]] by (rule calls_only_mono) simp
  moreover have "calls_only (\<lambda>c. is_inspect c \<or> for_services (soServices opts) c) w1 w'"
    using new(4) by (rule calls_only_mono) simp
  ultimately show ?thesis using new by (auto intro: calls_only_trans)
qed

lemma SetupApp_ready:
  assumes "no_faults h" "registry_path (StorePath eng)" "disk_ready (StorePath eng) w"
    "name_pattern app" "soServices opts \<noteq> []" "parse_services (soServices opts) = Inr svcs"
    "store_load h (StorePath eng) w = Inr reg" "check_targets reg (setup_list app opts) = None"
    "containerCheck h (soServices opts) w = (None, w1)"
  shows "\<exists>results w'. SetupApp h eng app opts w = ((results, None), w')"
proof -
  have "disk_ready (StorePath eng) w1"
    using assms(3) ran_files [OF containerCheck_ran [OF assms(9)]] disk_ready_files [of w1 w "StorePath eng"]
    by simp
  then obtain results w' where
    "setup_targets h (StorePath eng) opts (setup_list app opts) reg [] w1 = ((results, None), w')"
    using setup_targets_ready [OF assms(1,2)] by blast
  then show ?thesis using assms(8,9) by (simp add: SetupApp_start [OF assms(4-7)])
qed

section \<open>The properties\<close>

text \<open>C1: after a successful setup the stored registry is the old one plus exactly one entry per
  target, in the order of the targets; an entry holds the services that were provisioned, and
  every requested service was either provisioned or reported as a failure.  Only container
  inspections and commands in the containers of the requested services were run.\<close>

theorem setup_registers_targets:
  assumes "reads_ok h" "registry_path (StorePath eng)" "store_load h (StorePath eng) w = Inr reg"
    "storable reg" "list_all ascii (soEnv opts # soEnvs opts)" "ascii (getenv h ''SIGNOZ_DEFAULT_ENV'')"
    "SetupApp h eng app opts w = ((results, None), w')"
  shows "store_load h (StorePath eng) w' = Inr (saved_version (fold put_entry results reg))
    \<and> list_all2 (answers (soServices opts)) (setup_list app opts) results
    \<and> calls_only (\<lambda>c. is_inspect c \<or> for_services (soServices opts) c) w w'"
  by (rule SetupApp_registers [OF assms])


lemma demo_container_check: "\<exists>w1. containerCheck demo_host [Signoz] demo_world = (None, w1)"
proof -
  have "fst (containerCheck demo_host [Signoz] demo_world) = None" by code_simp
  then show ?thesis by (metis prod.collapse)
qed


theorem setup_registers_targets_witness:
  "\<exists>results w'. SetupApp demo_host demo_engine ''shop'' demo_setup demo_world = ((results, None), w')
     \<and> store_load demo_host ''/d/apps.json'' w' = Inr (saved_version (fold put_entry results empty_registry))
     \<and> list_all2 (answers [Signoz]) (setup_list ''shop'' demo_setup) results"
proof -
  obtain w1 where 1: "containerCheck demo_host [Signoz] demo_world = (None, w1)"
    using demo_container_check by auto
  have "name_pattern ''shop''" by code_simp
  then have "SetupApp demo_host demo_engine ''shop'' demo_setup demo_world
      = setup_targets demo_host ''/d/apps.json'' demo_setup (setup_list ''shop'' demo_setup) empty_registry [] w1"
    using demo_facts(5) demo_setup_checks 1
    by (simp add: SetupApp_start [where reg = empty_registry] demo_engine_def) (simp add: demo_setup_def)
  moreover have "disk_ready ''/d/apps.json'' w1"
    using demo_facts(4) ran_files [OF containerCheck_ran [OF 1]] disk_ready_files [of w1 demo_world] by simp
  ultimately obtain results w' where s: "SetupApp demo_host demo_engine ''shop'' demo_setup demo_world = ((results, None), w')"
    using setup_targets_ready [OF demo_facts(1,3)] by metis
  have "list_all ascii (soEnv demo_setup # soEnvs demo_setup)" by code_simp
  then show ?thesis
    using setup_registers_targets [OF demo_facts(2) _ _ demo_facts(6) _ _ s] demo_facts(3,5) s
    by (auto simp: demo_engine_def) (simp add: demo_setup_def)
qed

text \<open>C3: a setup is refused without touching any file when one of its targets is registered
  already or a container it needs is not running: at most the containers have been inspected.\<close>

theorem setup_fail_fast:
  assumes "store_load h (StorePath eng) w = Inr reg"
    "list_ex (\<lambda>t. fmlookup (Apps reg) (tgName t) \<noteq> None) (setup_list app opts)
     \<or> fst (containerCheck h (soServices opts) w) \<noteq> None"
  shows "\<exists>e w'. SetupApp h eng app opts w = (([], Some e), w') \<and> ran is_inspect w w'"
proof -
  obtain results err w' where s: "SetupApp h eng app opts w = ((results, err), w')"
    by (metis prod.collapse)
  show ?thesis
  proof (cases "results = [] \<and> err \<noteq> None \<and> ran is_inspect w w'")
    case True
    with s show ?thesis by auto
  next
    case False
    with SetupApp_phases [OF s] assms show ?thesis
      by (auto simp: check_targets_None list_all_iff list_ex_iff)
  qed
qed

text \<open>A registry with one app, stored on the demonstration disk.\<close>

definition demo_entry :: AppEntry where
  "demo_entry =
     \<lparr>CreatedAt = ''2025-05-17T19:30:45.123Z'', Environment = ''staging'', SignozServiceName = [],
      Svcs = no_services\<lparr>
        svcRedis := Some \<lparr>redis_Username = ''shop'', redis_Password = ''secret'', redis_Prefix = ''shop:''\<rparr>,
        svcSignoz := Some \<lparr>otel_ServiceName = ''shop'', otel_Environment = ''staging''\<rparr>\<rparr>\<rparr>"

definition demo_registry :: Registry where
  "demo_registry = \<lparr>Version = 1, Apps = fmupd ''shop'' demo_entry fmempty\<rparr>"

definition demo_saved :: "unit world" where
  "demo_saved = snd (store_save demo_host ''/d/apps.json'' demo_registry demo_world)"

lemma storable_demo: "storable demo_registry"
  by code_simp

lemma demo_saved_facts:
  "store_load demo_host ''/d/apps.json'' demo_saved = Inr demo_registry"
  "disk_ready ''/d/apps.json'' demo_saved"
proof -
  obtain w where w: "store_save demo_host ''/d/apps.json'' demo_registry demo_world = (None, w)"
    "disk_ready ''/d/apps.json'' w"
    using store_save_ready [OF demo_facts(1,3,4)] by blast
  have "saved_version demo_registry = demo_registry" by (simp add: saved_version_def demo_registry_def)
  with store_save_load [OF demo_facts(3,2) storable_demo w(1)] w
  show "store_load demo_host ''/d/apps.json'' demo_saved = Inr demo_registry"
    "disk_ready ''/d/apps.json'' demo_saved"
    by (simp_all add: demo_saved_def)
qed

theorem setup_fail_fast_witness:
  "\<exists>e w'. SetupApp demo_host demo_engine ''shop'' (demo_setup\<lparr>soEnvs := []\<rparr>) demo_saved = (([], Some e), w')
     \<and> ran is_inspect demo_saved w'"
proof -
  have "list_ex (\<lambda>t. fmlookup (Apps demo_registry) (tgName t) \<noteq> None) (setup_list ''shop'' (demo_setup\<lparr>soEnvs := []\<rparr>))"
    by code_simp
  then show ?thesis
    using setup_fail_fast [of demo_host demo_engine demo_saved demo_registry "''shop''" "demo_setup\<lparr>soEnvs := []\<rparr>"]
      demo_saved_facts by (simp add: demo_engine_def)
qed

text \<open>C5: an add only adds.  However it ends, the registry has the apps it had, and each of them
  keeps its metadata and every service configuration it had; no file but the registry's is
  involved, and only the containers of the requested services are.\<close>

theorem add_only_adds:
  assumes "reads_ok h" "registry_path (StorePath eng)" "store_load h (StorePath eng) w = Inr reg"
    "storable reg" "list_all name_pattern (aoEnvs opts)" "ascii (aoEnv opts)"
    "ascii (getenv h ''SIGNOZ_DEFAULT_ENV'')" "AddServices h eng app opts w = ((results, err), w')"
  shows "(\<exists>reg'. store_load h (StorePath eng) w' = Inr reg' \<and> registry_extends reg reg')
    \<and> calls_only (\<lambda>c. is_inspect c \<or> for_services (aoServices opts) c) w w'"
proof -
  let ?Q = "\<lambda>c. is_inspect c \<or> for_services (aoServices opts) c"
  have ins: "calls_only ?Q w v \<and> store_load h (StorePath eng) v = Inr reg"
    if "containerCheck h (aoServices opts) w = (r, v)" for r v
    using ran_acts [OF containerCheck_ran [OF that]] acts_store [OF _ assms(1)] assms(3)
    by (metis (mono_tags, lifting) acts_calls_only calls_only_mono)
  let ?ts = "BuildAddTargets app \<lparr>optEnvs = aoEnvs opts, optEnv = aoEnv opts\<rparr> reg"
  consider "w' = w" | "\<exists>r. containerCheck h (aoServices opts) w = (r, w')"
    | w1 where "name_pattern app" "find_missing_target reg ?ts = None"
        "containerCheck h (aoServices opts) w = (None, w1)"
        "add_targets h (StorePath eng) opts ?ts reg [] w1 = ((results, err), w')"
    using assms(3,8)
    by (auto simp: AddServices_def validate_app_name_def app_name_pattern_def Let_def
        split: option.splits if_splits sum.splits prod.splits)
  then show ?thesis
  proof cases
    case 1
    then show ?thesis using assms(3) by auto
  next
    case 2
    then show ?thesis using ins by auto
  next
    case (3 w1)
    have "list_all (ascii_target h) ?ts"
      by (rule ascii_add_targets [OF 3(1) assms(4-7)])
    then obtain r' where "store_load h (StorePath eng) w' = Inr r'" "registry_extends reg r'"
        "calls_only (for_services (aoServices opts)) w1 w'"
      using add_targets_spec [OF assms(1,2) 3(4) assms(4), of reg reg] ins [OF 3(3)] 3(2)
      by (auto simp: find_missing_None)
    moreover have "calls_only ?Q w1 w'" using calculation(3) by (rule calls_only_mono) simp
    ultimately show ?thesis using ins [OF 3(3)] by (auto intro: calls_only_trans)
  qed
qed

theorem add_only_adds_witness:
  "\<exists>results err w' reg'.
     AddServices demo_host demo_engine ''shop'' \<lparr>aoServices = [Postgres], aoEnvs = [], aoEnv = []\<rparr> demo_saved
       = ((results, err), w')
     \<and> store_load demo_host ''/d/apps.json'' w' = Inr reg' \<and> registry_extends demo_registry reg'"
proof -
  let ?opts = "\<lparr>aoServices = [Postgres], aoEnvs = [], aoEnv = []\<rparr>"
  obtain results err w' where a: "AddServices demo_host demo_engine ''shop'' ?opts demo_saved = ((results, err), w')"
    by (metis prod.collapse)
  have "\<exists>reg'. store_load demo_host (StorePath demo_engine) w' = Inr reg' \<and> registry_extends demo_registry reg'"
    using add_only_adds [OF demo_facts(2) _ _ storable_demo _ _ _ a] demo_facts(3) demo_saved_facts(1)
    by (simp add: demo_engine_def)
  with a show ?thesis by (auto simp: demo_engine_def)
qed

text \<open>C9: a detach starts no \<open>docker\<close> process.  When it succeeds the app has lost its SignOz
  configuration and nothing else has changed; when it fails the registry is as it was.\<close>

theorem detach_only_signoz:
  assumes "reads_ok h" "registry_path (StorePath eng)" "store_load h (StorePath eng) w = Inr reg"
    "storable reg" "DetachServices h eng app services w = (r, w')"
  shows "calls w' = calls w
    \<and> (case r of
         None \<Rightarrow> \<exists>e reg'. fmlookup (Apps reg) app = Some e \<and> store_load h (StorePath eng) w' = Inr reg'
                   \<and> Apps reg' = fmupd app (clearServiceConfig e Signoz) (Apps reg)
       | Some _ \<Rightarrow> store_load h (StorePath eng) w' = Inr reg)"
proof -
  consider "w' = w \<and> r \<noteq> None"
    | e where "services \<noteq> []" "find (\<lambda>s. \<not> detachable s) services = None" "fmlookup (Apps reg) app = Some e"
        "(case detach_all h app services e w of
            (Inl e, w1) \<Rightarrow> (Some e, w1)
          | (Inr entry', w1) \<Rightarrow>
              store_save h (StorePath eng) (reg\<lparr>Apps := fmupd app entry' (Apps reg)\<rparr>) w1) = (r, w')"
    using assms(3,5)
    by (auto simp: DetachServices_def split: option.splits if_splits sum.splits; metis)
  then show ?thesis
  proof cases
    case 1
    then show ?thesis using assms(3) by (auto split: option.split)
  next
    case (2 e)
    have "list_all detachable services" using 2(2) by (simp add: find_None_iff list_all_iff)
    from detach_all_signoz [OF this, of h app e w] obtain e' w1 where d: "detach_all h app services e w = (Inr e', w1)"
      "files w1 = files w" "calls w1 = calls w" "e' = e \<or> e' = clearServiceConfig e Signoz"
      "\<not> hasService e' Signoz" using 2(1) by blast
    have e': "e' = clearServiceConfig e Signoz"
      using d(4,5) by (cases "Svcs e") (auto simp: clearServiceConfig_def hasService_def)
    have "entry_fits app e" using assms(4) 2(3) by (simp add: storable_iff)
    then have "entry_fits app e'"
      by (auto simp: e' entry_fits_def entry_values_def services_values_def clearServiceConfig_def)
    then have st: "storable (reg\<lparr>Apps := fmupd app e' (Apps reg)\<rparr>)" by (rule storable_upd [OF assms(4)])
    have s: "store_save h (StorePath eng) (reg\<lparr>Apps := fmupd app e' (Apps reg)\<rparr>) w1 = (r, w')"
      using 2(4) d(1) by simp
    have "calls w' = calls w" using store_save_frame [OF s] d(3) by simp
    moreover have "store_load h (StorePath eng) w1 = Inr reg"
      using store_load_files [OF d(2) assms(1)] assms(3) by simp
    ultimately show ?thesis
      using store_save_load [OF assms(2,1) st, of w1 w'] store_save_fail [OF assms(2,1)] s 2(3) e'
      by (auto split: option.split)
  qed
qed

theorem detach_only_signoz_witness:
  "\<exists>r w'. DetachServices demo_host demo_engine ''shop'' [Signoz] demo_saved = (r, w')
     \<and> calls w' = calls demo_saved"
proof -
  obtain r w' where d: "DetachServices demo_host demo_engine ''shop'' [Signoz] demo_saved = (r, w')" by fastforce
  have "calls w' = calls demo_saved"
    using detach_only_signoz [OF demo_facts(2) _ _ storable_demo d] demo_facts(3) demo_saved_facts(1)
    by (simp add: demo_engine_def)
  with d show ?thesis by auto
qed

end
