(* ===== verification/BackupOps.thy ===== *)
theory BackupOps
  imports Lifecycle BackupFiles "HOL-Library.Multiset" "HOL-Library.Sublist"
begin

text \<open>
  \<open>internal/shelfcore/backup.go\<close> and \<open>restore.go\<close>: dumping the services of an app into the backups
  directory, planning a restore from the newest file of each service, and replaying it.
\<close>

section \<open>Choosing what to back up\<close>

definition serviceExt :: "string \<Rightarrow> string" where
  "serviceExt svc =
     (if svc = Postgres then ''sql'' else if svc = Redis then ''json''
      else if svc = RabbitMQ then ''json'' else if svc = AIStor then ''tar''
      else if svc = MongoDB then ''archive'' else [])"

record BackupFile =
  bkApp :: string
  bkService :: string
  bkPath :: string

definition chooseBackupServices :: "AppEntry \<Rightarrow> string list \<Rightarrow> string list" where
  "chooseBackupServices entry requested =
     (let provisioned = filter (\<lambda>svc. \<not> (\<not> hasService entry svc \<or> nonBackupable svc)) orderedServices in
      if requested = [] then provisioned
      else filter (\<lambda>svc. svc \<in> set requested) provisioned)"

definition timestamp :: "'d host \<Rightarrow> 'd world \<Rightarrow> string" where
  "timestamp h w = format_timestamp (time_now h w)"

text \<open>The insertion sort: the element at \<open>j\<close> moves left while its neighbour is larger.\<close>

fun sift_left :: "string list \<Rightarrow> nat \<Rightarrow> string list" where
  "sift_left s 0 = s"
| "sift_left s (Suc j) =
     (if s ! j > s ! Suc j then sift_left (s[j := s ! Suc j, Suc j := s ! j]) j else s)"

definition sortStrings :: "string list \<Rightarrow> string list" where
  "sortStrings s = fold (\<lambda>i s. sift_left s i) [1..<length s] s"

section \<open>Backup\<close>

definition runBackup ::
  "'d host \<Rightarrow> string \<Rightarrow> string \<Rightarrow> string \<Rightarrow> 'd world \<Rightarrow> error option \<times> 'd world" where
  "runBackup h svc app path w =
     (if svc = Postgres then postgres_backup h app path w
      else if svc = Redis then redis_backup h app path w
      else if svc = RabbitMQ then rabbitmq_backup h app path w
      else if svc = AIStor then aistor_backup h app path w
      else if svc = MongoDB then mongodb_backup h app path w
      else (Some (tagged ErrNonBackupable ('': '' @ svc)), w))"

definition backup_name :: "string \<Rightarrow> string \<Rightarrow> string" where
  "backup_name svc ts = svc @ ''_'' @ ts @ ''.'' @ serviceExt svc"

definition skip_message :: "string \<Rightarrow> string" where
  "skip_message svc =
     ''container '' @ quote (serviceContainer svc) @ '' is not running. Skipping '' @ svc"

text \<open>One round of the loop of \<open>BackupApp\<close>: the file, when there is one.\<close>

definition backup_service ::
  "'d host \<Rightarrow> string \<Rightarrow> string \<Rightarrow> string \<Rightarrow> string \<Rightarrow> 'd world \<Rightarrow> BackupFile option \<times> 'd world" where
  "backup_service h appDir app ts svc w =
     (case IsContainerRunning h (serviceContainer svc) w of
        (running, w1) \<Rightarrow>
          (if \<not> running then (None, emit Failure (skip_message svc) w1)
           else
             (let fileName = backup_name svc ts; filePath = path_join [appDir, fileName] in
              case runBackup h svc app filePath w1 of
                (Some e, w2) \<Rightarrow>
                  (None, snd (remove_file h filePath
                     (emit Failure (''failed to backup '' @ svc @ '': '' @ err_text e) w2)))
              | (None, w2) \<Rightarrow>
                  (Some \<lparr>bkApp = app, bkService = svc, bkPath = filePath\<rparr>,
                   emit Success (svc @ '' -> '' @ fileName) w2))))"

fun backup_services ::
  "'d host \<Rightarrow> string \<Rightarrow> string \<Rightarrow> string \<Rightarrow> string list \<Rightarrow> 'd world \<Rightarrow> BackupFile list \<times> 'd world" where
  "backup_services h appDir app ts [] w = ([], w)"
| "backup_services h appDir app ts (svc # svcs) w =
     (case backup_service h appDir app ts svc w of
        (f, w1) \<Rightarrow>
          (case backup_services h appDir app ts svcs w1 of
             (fs, w2) \<Rightarrow> ((case f of None \<Rightarrow> fs | Some b \<Rightarrow> b # fs), w2)))"

definition BackupApp ::
  "'d host \<Rightarrow> Engine \<Rightarrow> string \<Rightarrow> string list \<Rightarrow> 'd world \<Rightarrow> BackupFile list result \<times> 'd world" where
  "BackupApp h eng app services w =
     (case validate_app_name app of
        Some e \<Rightarrow> (Inl e, w)
      | None \<Rightarrow>
          (case store_load h (StorePath eng) w of
             Inl e \<Rightarrow> (Inl e, w)
           | Inr reg \<Rightarrow>
               (case fmlookup (Apps reg) app of
                  None \<Rightarrow> (Inl (tagged ErrAppNotFound ('': '' @ app)), w)
                | Some entry \<Rightarrow>
                    (let targets = chooseBackupServices entry services in
                     if targets = []
                     then (Inl (errorf (''no matching services to backup for '' @ quote app)), w)
                     else
                       (let appDir = path_join [BackupsDir eng, app] in
                        case mkdir_all h appDir w of
                          (Some e, w1) \<Rightarrow> (Inl e, w1)
                        | (None, w1) \<Rightarrow>
                            (case backup_services h appDir app (timestamp h w1) targets w1 of
                               (out, w2) \<Rightarrow> (Inr out, w2)))))))"

fun backup_each ::
  "'d host \<Rightarrow> Engine \<Rightarrow> string list \<Rightarrow> string list \<Rightarrow> 'd world \<Rightarrow> BackupFile list \<times> 'd world" where
  "backup_each h eng services [] w = ([], w)"
| "backup_each h eng services (name # names) w =
     (case BackupApp h eng name services (emit Title (''backing up '' @ quote name) w) of
        (Inl e, w1) \<Rightarrow> backup_each h eng services names (emit Failure (err_text e) w1)
      | (Inr fs, w1) \<Rightarrow>
          (case backup_each h eng services names w1 of (all, w2) \<Rightarrow> (fs @ all, w2)))"

text \<open>The order in which the runtime visits the keys of the registry's map is an argument.\<close>

definition BackupAll ::
  "'d host \<Rightarrow> (string list \<Rightarrow> string list) \<Rightarrow> Engine \<Rightarrow> string list \<Rightarrow> 'd world
     \<Rightarrow> BackupFile list result \<times> 'd world" where
  "BackupAll h visit eng services w =
     (case store_load h (StorePath eng) w of
        Inl e \<Rightarrow> (Inl e, w)
      | Inr reg \<Rightarrow>
          (if Apps reg = fmempty then (Inr [], emit Info ''no apps provisioned yet'' w)
           else
             (case backup_each h eng services
                     (sortStrings (visit (sorted_list_of_fset (fmdom (Apps reg))))) w of
                (all, w1) \<Rightarrow> (Inr all, w1))))"

definition DeleteBackup :: "'d host \<Rightarrow> Engine \<Rightarrow> string \<Rightarrow> string \<Rightarrow> 'd world \<Rightarrow> error option \<times> 'd world" where
  "DeleteBackup h eng app fileName w =
     (case validate_app_name app of
        Some e \<Rightarrow> (Some e, w)
      | None \<Rightarrow>
          (if path_base fileName \<noteq> fileName
           then (Some (errorf (''refusing path traversal in fileName: '' @ quote fileName)), w)
           else
             (let path = path_join [BackupsDir eng, app, fileName] in
              case stat h w path of
                Inl _ \<Rightarrow> (Some (tagged ErrBackupNotFound ('': '' @ path)), w)
              | Inr _ \<Rightarrow> remove_file h path w)))"

section \<open>Restore\<close>

record RestorePlanEntry =
  rpService :: string
  rpFile :: string

definition runRestore ::
  "'d host \<Rightarrow> string \<Rightarrow> string \<Rightarrow> string \<Rightarrow> 'd world \<Rightarrow> error option \<times> 'd world" where
  "runRestore h svc app file w =
     (if svc = Postgres then postgres_restore h app file w
      else if svc = Redis then redis_restore h file w
      else if svc = RabbitMQ then rabbitmq_restore h file w
      else if svc = AIStor then aistor_restore h app file w
      else if svc = MongoDB then mongodb_restore h app file w
      else (Some (errorf (''unknown service: '' @ svc)), w))"

fun detect_in :: "string list \<Rightarrow> string \<Rightarrow> string" where
  "detect_in [] fileName = []"
| "detect_in (svc # svcs) fileName =
     (if has_prefix fileName (svc @ ''_'') then svc else detect_in svcs fileName)"

definition detectService :: "string \<Rightarrow> string" where
  "detectService fileName = detect_in [Postgres, Redis, RabbitMQ, AIStor, MongoDB] fileName"

definition findLatestBackup :: "'d host \<Rightarrow> string \<Rightarrow> string \<Rightarrow> 'd world \<Rightarrow> string" where
  "findLatestBackup h appDir svc w =
     (case read_dir h w appDir of
        Inl _ \<Rightarrow> []
      | Inr names \<Rightarrow>
          (let matching = filter (\<lambda>n. lookup_file w (path_join [appDir, n]) \<noteq> Some Dir
                            \<and> has_prefix n (svc @ ''_'')) names in
           if matching = [] then [] else path_join [appDir, hd (rev (sort matching))]))"

fun plan_services ::
  "'d host \<Rightarrow> string \<Rightarrow> string list \<Rightarrow> 'd world \<Rightarrow> RestorePlanEntry list \<times> 'd world" where
  "plan_services h appDir [] w = ([], w)"
| "plan_services h appDir (svc # svcs) w =
     (let latest = findLatestBackup h appDir svc w in
      if latest = [] then plan_services h appDir svcs (emit Warn (''no backup found for '' @ svc) w)
      else (case plan_services h appDir svcs w of
              (plan, w1) \<Rightarrow> (\<lparr>rpService = svc, rpFile = latest\<rparr> # plan, w1)))"

definition PlanRestore ::
  "'d host \<Rightarrow> Engine \<Rightarrow> string \<Rightarrow> string list \<Rightarrow> 'd world \<Rightarrow> RestorePlanEntry list result \<times> 'd world" where
  "PlanRestore h eng app services w =
     (case validate_app_name app of
        Some e \<Rightarrow> (Inl e, w)
      | None \<Rightarrow>
          (case store_load h (StorePath eng) w of
             Inl e \<Rightarrow> (Inl e, w)
           | Inr reg \<Rightarrow>
               (case fmlookup (Apps reg) app of
                  None \<Rightarrow> (Inl (tagged ErrAppNotFound ('': '' @ app)), w)
                | Some entry \<Rightarrow>
                    (case plan_services h (path_join [BackupsDir eng, app])
                            (chooseBackupServices entry services) w of
                       (plan, w1) \<Rightarrow>
                         (if plan = [] then (Inl (tagged ErrBackupNotFound []), w1)
                          else (Inr plan, w1))))))"

fun restore_plan :: "'d host \<Rightarrow> string \<Rightarrow> RestorePlanEntry list \<Rightarrow> 'd world \<Rightarrow> 'd world" where
  "restore_plan h app [] w = w"
| "restore_plan h app (p # ps) w =
     (case IsContainerRunning h (serviceContainer (rpService p)) w of
        (running, w1) \<Rightarrow>
          (if \<not> running then restore_plan h app ps (emit Failure (skip_message (rpService p)) w1)
           else
             (case runRestore h (rpService p) app (rpFile p) w1 of
                (Some e, w2) \<Rightarrow>
                  restore_plan h app ps
                    (emit Failure (''failed to restore '' @ rpService p @ '': '' @ err_text e) w2)
              | (None, w2) \<Rightarrow> restore_plan h app ps (emit Success (rpService p @ '' restored'') w2))))"

definition RestoreApp ::
  "'d host \<Rightarrow> Engine \<Rightarrow> string \<Rightarrow> string list \<Rightarrow> 'd world \<Rightarrow> error option \<times> 'd world" where
  "RestoreApp h eng app services w =
     (case PlanRestore h eng app services w of
        (Inl e, w1) \<Rightarrow> (Some e, w1)
      | (Inr plan, w1) \<Rightarrow> (None, restore_plan h app plan w1))"

definition RestoreFromFile ::
  "'d host \<Rightarrow> Engine \<Rightarrow> string \<Rightarrow> string \<Rightarrow> 'd world \<Rightarrow> error option \<times> 'd world" where
  "RestoreFromFile h eng app filePath w =
     (case validate_app_name app of
        Some e \<Rightarrow> (Some e, w)
      | None \<Rightarrow>
     (case store_load h (StorePath eng) w of
        Inl e \<Rightarrow> (Some e, w)
      | Inr reg \<Rightarrow>
     (if fmlookup (Apps reg) app = None then (Some (tagged ErrAppNotFound ('': '' @ app)), w)
      else
     (case path_abs h filePath of
        Inl e \<Rightarrow> (Some e, w)
      | Inr resolved \<Rightarrow>
     (case stat h w resolved of
        Inl _ \<Rightarrow> (Some (errorf (''file not found: '' @ resolved)), w)
      | Inr _ \<Rightarrow>
          (let fileName = path_base resolved; svc = detectService fileName in
           if svc = []
           then (Some (errorf (''cannot detect service from filename '' @ quote fileName
                   @ '' (expected postgres_*, redis_*, rabbitmq_*, aistor_*, mongodb_*)'')), w)
           else
             (case IsContainerRunning h (serviceContainer svc) w of
                (running, w1) \<Rightarrow>
                  (if \<not> running
                   then (Some (tagged ErrContainerNotRunning
                           ('': container '' @ quote (serviceContainer svc) @ '' for '' @ svc)), w1)
                   else
                     (case runRestore h svc app resolved w1 of
                        (Some e, w2) \<Rightarrow> (Some e, w2)
                      | (None, w2) \<Rightarrow> (None, emit Success (svc @ '' restored from '' @ fileName) w2))))))))))"

section \<open>Sorting and choosing\<close>

lemma sorted_unique: "sorted xs \<Longrightarrow> sorted ys \<Longrightarrow> mset xs = mset ys \<Longrightarrow> xs = ys"
  by (metis properties_for_sort)

lemma sift_left_insort:
  "sorted xs \<Longrightarrow> sift_left (xs @ y # zs) (length xs) = insort y xs @ zs"
proof (induction xs arbitrary: zs rule: rev_induct)
  case (snoc x xs)
  then have s: "sorted xs" "\<forall>z \<in> set xs. z \<le> x" by (auto simp: sorted_append)
  have swap: "((xs @ [x]) @ y # zs)[length xs := y, Suc (length xs) := x] = xs @ y # x # zs"
    by (simp add: list_update_append)
  show ?case
  proof (cases "y < x")
    case True
    then have "insort y (xs @ [x]) = insort y xs @ [x]"
      using snoc.prems s by (intro sorted_unique) (auto simp: sorted_append sorted_insort set_insort_key)
    with True swap snoc.IH [OF s(1), of "x # zs"] show ?thesis by (simp add: nth_append)
  next
    case False
    then have "insort y (xs @ [x]) = xs @ [x] @ [y]"
      using snoc.prems s by (intro sorted_unique) (auto simp: sorted_append sorted_insort)
    with False show ?thesis by (simp add: nth_append)
  qed
qed simp

lemma sortStrings_prefix:
  "0 < k \<Longrightarrow> k \<le> length s \<Longrightarrow> fold (\<lambda>i s. sift_left s i) [1..<k] s = sort (take k s) @ drop k s"
proof (induction k)
  case (Suc k)
  show ?case
  proof (cases "k = 0")
    case True
    with Suc.prems show ?thesis by (cases s) auto
  next
    case False
    with Suc have "fold (\<lambda>i s. sift_left s i) [1..<k] s = sort (take k s) @ drop k s" by simp
    moreover have d: "drop k s = s ! k # drop (Suc k) s" using Suc.prems by (simp add: Cons_nth_drop_Suc)
    moreover have "sift_left (sort (take k s) @ s ! k # drop (Suc k) s) k
        = insort (s ! k) (sort (take k s)) @ drop (Suc k) s"
      using sift_left_insort [of "sort (take k s)" "s ! k" "drop (Suc k) s"] Suc.prems by simp
    moreover have "insort (s ! k) (sort (take k s)) = sort (take (Suc k) s)"
      using Suc.prems by (intro sorted_unique) (auto simp: sorted_insort take_Suc_conv_app_nth)
    ultimately show ?thesis using False by simp
  qed
qed simp

text \<open>The hand-written sort of the app names agrees with the library's.\<close>

theorem sortStrings_sort: "sortStrings s = sort s"
proof (cases "s = []")
  case False
  then show ?thesis using sortStrings_prefix [of "length s" s] by (simp add: sortStrings_def)
qed (simp add: sortStrings_def)

lemma ordered_catalog: "orderedServices = service_catalog"
  by (simp add: orderedServices_def service_catalog_def)

text \<open>The services a backup dumps are the backupable services of the app page, in catalog order,
  restricted to the requested ones.\<close>

theorem choose_backupable:
  "chooseBackupServices e requested =
     filter (\<lambda>s. requested = [] \<or> s \<in> set requested)
       (backupable_service_names \<lparr>AppName = n, AppCreatedAt = c, Entry = e\<rparr>)"
  by (simp add: chooseBackupServices_def backupable_service_names_def service_names_eq ordered_catalog Let_def
      hasService_app_has_service nonBackupable_def non_backupable_def filter_filter cong: filter_cong)

section \<open>File names\<close>

lemma backup_services_valid:
  "svc \<in> set (chooseBackupServices e r) \<Longrightarrow> svc \<in> {Postgres, Redis, RabbitMQ, AIStor, MongoDB} \<and> hasService e svc"
  by (auto simp: chooseBackupServices_def Let_def orderedServices_def nonBackupable_def split: if_splits)

lemma distinct_choose: "distinct (chooseBackupServices e r)"
  by (simp add: chooseBackupServices_def Let_def orderedServices_def)

lemma name_pieces:
  "has_prefix s []" "has_prefix (c # s) (d # p) \<longleftrightarrow> c = d \<and> has_prefix s p"
  "has_suffix s p \<Longrightarrow> has_suffix (c # s) p"
  by (simp_all add: has_prefix_def has_suffix_iff) (metis append_Cons)

lemma backup_name_services:
  assumes "svc \<in> {Postgres, Redis, RabbitMQ, AIStor, MongoDB}"
  shows "DetectService (backup_name svc ts) = svc \<and> detectService (backup_name svc ts) = svc"
  using assms
  by (elim insertE emptyE)
    (simp_all add: backup_name_def detectService_def DetectService_def serviceExt_def name_pieces)

text \<open>The name under which a service's dump is stored is recognised as that service's, by the
  listing (prefix and extension) and by a restore from a file (prefix).\<close>

theorem backup_name_detected:
  assumes "svc \<in> {Postgres, Redis, RabbitMQ, AIStor, MongoDB}"
  shows "DetectService (backup_name svc ts) = svc \<and> detectService (backup_name svc ts) = svc"
  by (rule backup_name_services [OF assms])

theorem backup_name_detected_witness:
  "DetectService (backup_name Redis ''20260517T193045'') = ''redis''"
  using backup_name_detected [of Redis "''20260517T193045''"] by simp

section \<open>What a backup touches\<close>

text \<open>
  From \<open>w\<close> to \<open>w'\<close> only \<open>docker\<close> processes with property \<open>P\<close> were started and only the files at the
  cleaned paths \<open>D\<close> may have changed; none of them became a directory.
\<close>

definition touches :: "(string list \<times> string option \<Rightarrow> bool) \<Rightarrow> string set \<Rightarrow> 'd world \<Rightarrow> 'd world \<Rightarrow> bool" where
  "touches P D w w' =
     (calls w' = calls w @ issued w w' \<and> list_all P (issued w w')
      \<and> (\<forall>k. k \<notin> D \<longrightarrow> fmlookup (files w') k = fmlookup (files w) k)
      \<and> (\<forall>k. fmlookup (files w') k = Some Dir \<longrightarrow> fmlookup (files w) k = Some Dir))"

lemma touchesI:
  "calls w' = calls w @ cs \<Longrightarrow> list_all P cs \<Longrightarrow>
   (\<And>k. k \<notin> D \<Longrightarrow> fmlookup (files w') k = fmlookup (files w) k) \<Longrightarrow>
   (\<And>k. fmlookup (files w') k = Some Dir \<Longrightarrow> fmlookup (files w) k = Some Dir) \<Longrightarrow> touches P D w w'"
  by (simp add: touches_def issued_def)

lemma touches_refl [simp]: "touches P D w w"
  by (simp add: touches_def)

lemma touches_emit [simp]: "touches P D w (emit l m w') = touches P D w w'"
  by (simp add: touches_def issued_def)

lemma touches_trans [trans]:
  assumes "touches P D w w'" "touches P D w' w''"
  shows "touches P D w w''"
proof -
  have "calls w'' = calls w @ issued w w' @ issued w' w''" using assms by (simp add: touches_def)
  with assms show ?thesis by (intro touchesI) (auto simp: touches_def)
qed

lemma touches_mono:
  "touches P D w w' \<Longrightarrow> (\<And>c. P c \<Longrightarrow> Q c) \<Longrightarrow> D \<subseteq> E \<Longrightarrow> touches Q E w w'"
  by (auto simp: touches_def list_all_iff)

lemma acts_touches: "acts P w w' \<Longrightarrow> touches P D w w'"
  by (simp add: acts_def touches_def)

lemmas ran_touches = acts_touches [OF ran_acts]

lemma write_file_touches: "write_file h p c w = (r, w') \<Longrightarrow> touches P {clean p} w w'"
  by (rule touchesI [of _ _ "[]"])
    (auto simp: write_file_def split: option.splits fnode.splits prod.splits if_splits)

lemma remove_file_touches: "remove_file h p w = (r, w') \<Longrightarrow> touches P {clean p} w w'"
  by (rule touchesI [of _ _ "[]"])
    (auto simp: remove_file_def split: option.splits fnode.splits if_splits)

lemma shell_touches:
  assumes "shell what h vars c i (Some dest) script w = (r, w')"
  shows "touches (in_container c) {clean dest} w w'"
proof -
  obtain x w1 where x: "run_docker h (shell_args vars c i script) i w = (x, w1)" by fastforce
  obtain e w2 where e: "write_file h dest (stdout x) w1 = (e, w2)" by fastforce
  have "ran (in_container c) w w1"
    by (rule ran_run_docker [OF x]) (simp add: in_container_def shell_args_def)
  then have "touches (in_container c) {clean dest} w w2"
    using write_file_touches [OF e] ran_touches touches_trans by blast
  with assms x e show ?thesis by (auto simp: shell_def run_docker_to_def)
qed

lemma mcShell_touches:
  "mcShell h script i (Some dest) w = (r, w') \<Longrightarrow> touches (in_container aistor_container) {clean dest} w w'"
  by (auto simp: mcShell_def split: sum.splits intro: shell_touches)

lemma mongoShell_touches:
  "mongoShell h script i (Some dest) w = (r, w') \<Longrightarrow> touches (in_container mongo_container) {clean dest} w w'"
  by (auto simp: mongoShell_def split: sum.splits intro: shell_touches)

lemma shell_ok_file:
  "shell what h vars c i (Some dest) script w = (None, w') \<Longrightarrow> \<exists>d t. lookup_file w' dest = Some (File d t)"
  by (drule shell_writes) blast

lemma postgres_backup_touches:
  "postgres_backup h app dest w = (r, w') \<Longrightarrow> touches (in_container pg_container) {clean dest} w w'"
  by (auto simp: postgres_backup_def split: option.splits prod.splits sum.splits
      dest!: ran_in_exec intro: ran_touches write_file_touches touches_trans)

lemma redis_backup_touches:
  "redis_backup h app dest w = (r, w') \<Longrightarrow> touches (in_container redis_container) {clean dest} w w'"
  by (auto simp: redis_backup_def split: option.splits prod.splits sum.splits
      dest!: ran_adminCli intro: ran_touches write_file_touches touches_trans)

lemma rabbitmq_backup_touches:
  "rabbitmq_backup h app dest w = (r, w') \<Longrightarrow> touches (in_container rmq_container) {clean dest} w w'"
  by (auto simp: rabbitmq_backup_def split: option.splits prod.splits sum.splits
      dest!: ran_in_exec intro: ran_touches write_file_touches touches_trans)

lemma aistor_backup_touches:
  "aistor_backup h app dest w = (r, w') \<Longrightarrow> touches (in_container aistor_container) {clean dest} w w'"
  by (auto simp: aistor_backup_def and_then_def split: option.splits prod.splits
      intro: write_file_touches mcShell_touches touches_trans)

lemma mongodb_backup_touches:
  "mongodb_backup h app dest w = (r, w') \<Longrightarrow> touches (in_container mongo_container) {clean dest} w w'"
  by (auto simp: mongodb_backup_def and_then_def split: option.splits prod.splits
      intro: write_file_touches mongoShell_touches touches_trans)

lemma runBackup_touches:
  "runBackup h svc app dest w = (r, w') \<Longrightarrow>
   touches (in_container (serviceContainer svc)) {clean dest} w w'"
  by (auto simp: runBackup_def serviceContainer_def split: if_splits
      intro: postgres_backup_touches redis_backup_touches rabbitmq_backup_touches aistor_backup_touches
        mongodb_backup_touches)

text \<open>A dump that reports success left a file.\<close>

lemma runBackup_file:
  "runBackup h svc app dest w = (None, w') \<Longrightarrow> \<exists>d t. lookup_file w' dest = Some (File d t)"
  by (auto simp: runBackup_def postgres_backup_def redis_backup_def rabbitmq_backup_def aistor_backup_def
      mongodb_backup_def and_then_def mcShell_def mongoShell_def
      split: if_splits option.splits prod.splits sum.splits dest!: write_file_ok shell_ok_file)

text \<open>What a round of the loop may start.\<close>

definition backup_call :: "string list \<Rightarrow> string list \<times> string option \<Rightarrow> bool" where
  "backup_call svcs c = (is_inspect c \<or> list_ex (\<lambda>svc. in_container (serviceContainer svc) c) svcs)"

lemma IsContainerRunning_touches:
  "IsContainerRunning h c w = (b, w') \<Longrightarrow> touches (backup_call svcs) D w w'"
  by (rule touchesI [of _ _ "[_]"]) (auto dest: IsContainerRunning_calls simp: backup_call_def is_inspect_def)

lemma backup_service_touches:
  assumes "backup_service h appDir app ts svc w = (f, w')" "svc \<in> set svcs"
  shows "touches (backup_call svcs) {clean (path_join [appDir, backup_name svc ts])} w w'"
proof -
  let ?path = "path_join [appDir, backup_name svc ts]"
  obtain b w1 where 1: "IsContainerRunning h (serviceContainer svc) w = (b, w1)" by fastforce
  note t1 = IsContainerRunning_touches [OF 1, of svcs "{clean ?path}"]
  show ?thesis
  proof (cases b)
    case False
    with assms 1 t1 show ?thesis by (auto simp: backup_service_def)
  next
    case True
    obtain r w2 where 2: "runBackup h svc app ?path w1 = (r, w2)" by fastforce
    from runBackup_touches [OF this] have "touches (backup_call svcs) {clean ?path} w1 w2"
      by (rule touches_mono) (use assms(2) in \<open>auto simp: backup_call_def list_ex_iff\<close>)
    with t1 have t2: "touches (backup_call svcs) {clean ?path} w w2" by (rule touches_trans)
    show ?thesis
    proof (cases r)
      case None
      with assms 1 2 True t2 show ?thesis by (auto simp: backup_service_def Let_def)
    next
      case (Some e)
      obtain x w3 where 3: "remove_file h ?path (emit Failure (''failed to backup '' @ svc @ '': '' @ err_text e) w2) = (x, w3)"
        by fastforce
      have "touches (backup_call svcs) {clean ?path} w w3"
        by (rule touches_trans [OF _ remove_file_touches [OF 3]]) (simp add: t2)
      with assms(1) 1 2 True Some 3 show ?thesis by (auto simp: backup_service_def Let_def)
    qed
  qed
qed

lemma backup_service_some:
  assumes "backup_service h appDir app ts svc w = (Some b, w')"
  shows "b = \<lparr>bkApp = app, bkService = svc, bkPath = path_join [appDir, backup_name svc ts]\<rparr>
    \<and> (\<exists>d t. lookup_file w' (bkPath b) = Some (File d t))"
  using assms runBackup_file
  by (fastforce simp: backup_service_def Let_def split: prod.splits if_splits option.splits)

lemma backup_service_none:
  assumes "backup_service h appDir app ts svc w = (None, w')" "no_faults h"
  defines "path \<equiv> path_join [appDir, backup_name svc ts]"
  shows "lookup_file w' path \<in> {None, lookup_file w path}"
proof -
  obtain b w1 where 1: "IsContainerRunning h (serviceContainer svc) w = (b, w1)" by fastforce
  have f1: "files w1 = files w" using IsContainerRunning_calls [OF 1] by simp
  show ?thesis
  proof (cases b)
    case False
    with assms 1 f1 show ?thesis by (auto simp: backup_service_def lookup_file_def)
  next
    case True
    obtain r w2 where 2: "runBackup h svc app path w1 = (r, w2)" by fastforce
    with assms 1 True obtain e where r: "r = Some e" by (cases r) (auto simp: backup_service_def Let_def)
    have d: "lookup_file w2 path = Some Dir \<Longrightarrow> lookup_file w path = Some Dir"
      using runBackup_touches [OF 2] f1 by (auto simp: touches_def lookup_file_def)
    have "w' = snd (remove_file h path (emit Failure (''failed to backup '' @ svc @ '': '' @ err_text e) w2))"
      using assms 1 2 True r by (simp add: backup_service_def Let_def)
    then show ?thesis
      using d assms(2) by (auto simp: remove_file_def fails_def no_faults_def lookup_drop_file
          split: option.splits fnode.splits)
  qed
qed

text \<open>The whole loop, when the services have different paths.\<close>

lemma backup_services_spec:
  assumes "backup_services h appDir app ts svcs w = (out, w')" "distinct svcs" "set svcs \<subseteq> set all"
    "inj_on (\<lambda>svc. clean (path_join [appDir, backup_name svc ts])) (set all)"
  defines "path \<equiv> \<lambda>svc. path_join [appDir, backup_name svc ts]"
  shows "subseq (map bkService out) svcs
    \<and> (\<forall>b \<in> set out. bkApp b = app \<and> bkPath b = path (bkService b)
         \<and> (\<exists>d t. lookup_file w' (bkPath b) = Some (File d t)))
    \<and> touches (backup_call all) ((\<lambda>svc. clean (path svc)) ` set svcs) w w'
    \<and> (no_faults h \<longrightarrow> (\<forall>svc \<in> set svcs - bkService ` set out. lookup_file w' (path svc) \<in> {None, lookup_file w (path svc)}))"
  using assms(1-3)
proof (induction svcs arbitrary: w out)
  case (Cons svc svcs)
  obtain f w1 where 1: "backup_service h appDir app ts svc w = (f, w1)" by fastforce
  obtain out1 w2 where 2: "backup_services h appDir app ts svcs w1 = (out1, w2)" by fastforce
  have out: "out = (case f of None \<Rightarrow> out1 | Some b \<Rightarrow> b # out1)" "w' = w2" using Cons.prems 1 2 by auto
  note IH = Cons.IH [OF 2 [folded out(2)]]
  have t1: "touches (backup_call all) {clean (path svc)} w w1"
    using backup_service_touches [OF 1, of all] Cons.prems by (simp add: path_def)
  have t2: "touches (backup_call all) ((\<lambda>svc. clean (path svc)) ` set svcs) w1 w'" using IH Cons.prems by simp
  have other: "clean (path svc) \<notin> (\<lambda>svc. clean (path svc)) ` set svcs"
    using assms(4) Cons.prems by (auto simp: inj_on_def path_def)
  have l2: "lookup_file w' (path svc) = lookup_file w1 (path svc)"
    using t2 other by (simp add: touches_def lookup_file_def)
  have l1: "lookup_file w1 (path s) = lookup_file w (path s)" if "s \<in> set svcs" for s
  proof -
    have "clean (path s) \<noteq> clean (path svc)" using other that by (metis image_eqI)
    with t1 show ?thesis by (simp add: touches_def lookup_file_def)
  qed
  have t: "touches (backup_call all) ((\<lambda>svc. clean (path svc)) ` set (svc # svcs)) w w'"
    using touches_mono [OF t1, of "backup_call all" "(\<lambda>svc. clean (path svc)) ` set (svc # svcs)"]
      touches_mono [OF t2, of "backup_call all" "(\<lambda>svc. clean (path svc)) ` set (svc # svcs)"]
    by (auto intro: touches_trans)
  show ?case
  proof (cases f)
    case None
    with backup_service_none [OF 1 [unfolded None]] IH Cons.prems t l1 l2 out show ?thesis
      by (auto simp: path_def)
  next
    case (Some b)
    with backup_service_some [OF 1 [unfolded Some]] IH Cons.prems t l1 l2 out show ?thesis
      by (auto simp: path_def)
  qed
qed simp

section \<open>A backup of one app\<close>

lemma plain_backup_name:
  assumes "svc \<in> {Postgres, Redis, RabbitMQ, AIStor, MongoDB}"
  shows "plain (backup_name svc (format_timestamp t))"
proof -
  have "slash \<notin> set (format_timestamp t)"
    using format_timestamp_chars [of t] by (auto simp: list_all_iff slash_def dest: time_char_plain)
  then show ?thesis
    using assms by (auto simp: backup_name_def serviceExt_def plain_def slash_def)
qed

lemma backup_path:
  assumes "list_all plain cs" "name_pattern app" "svc \<in> {Postgres, Redis, RabbitMQ, AIStor, MongoDB}"
  shows "path_join [path_join [rooted_path cs, app], backup_name svc (format_timestamp t)]
    = rooted_path (cs @ [app, backup_name svc (format_timestamp t)])"
    and "clean (rooted_path (cs @ [app, backup_name svc (format_timestamp t)]))
      = rooted_path (cs @ [app, backup_name svc (format_timestamp t)])"
  using assms name_plain plain_backup_name path_join_rooted [of cs "[app]"]
    path_join_rooted [of "cs @ [app]" "[backup_name svc (format_timestamp t)]"]
  by simp_all

lemma backup_path_inj:
  assumes "list_all plain cs" "name_pattern app"
  shows "inj_on (\<lambda>svc. clean (path_join [path_join [rooted_path cs, app], backup_name svc (format_timestamp t)]))
    {Postgres, Redis, RabbitMQ, AIStor, MongoDB}"
proof (rule inj_onI)
  fix s u
  assume su: "s \<in> {Postgres, Redis, RabbitMQ, AIStor, MongoDB}" "u \<in> {Postgres, Redis, RabbitMQ, AIStor, MongoDB}"
    "clean (path_join [path_join [rooted_path cs, app], backup_name s (format_timestamp t)])
     = clean (path_join [path_join [rooted_path cs, app], backup_name u (format_timestamp t)])"
  have "list_all plain (cs @ [app, backup_name v (format_timestamp t)])"
    if "v \<in> {Postgres, Redis, RabbitMQ, AIStor, MongoDB}" for v
    using that assms name_plain plain_backup_name by simp
  note p = this [OF su(1)] this [OF su(2)]
  from su(3) have "backup_name s (format_timestamp t) = backup_name u (format_timestamp t)"
    unfolding backup_path [OF assms su(1)] backup_path [OF assms su(2)] rooted_path_inj [OF p] by simp
  with backup_name_services [OF su(1)] backup_name_services [OF su(2)] show "s = u" by metis
qed

text \<open>Where the dump of a service goes.\<close>

definition dump_path :: "string list \<Rightarrow> string \<Rightarrow> int \<Rightarrow> string \<Rightarrow> string" where
  "dump_path cs app t svc = rooted_path (cs @ [app, backup_name svc (format_timestamp t)])"

lemma mkdir_all_keeps:
  assumes "mkdir_all h p w = (r, w')"
  shows "calls w' = calls w" "fmlookup (files w) k = Some v \<Longrightarrow> fmlookup (files w') k = Some v"
  using assms
  by (fastforce simp: mkdir_all_def fmlookup_fold_dirs list_all_iff split: option.splits if_splits)+

lemma dump_not_dir:
  assumes "list_all plain cs" "name_pattern app" "svc \<in> {Postgres, Redis, RabbitMQ, AIStor, MongoDB}"
  shows "dump_path cs app t svc \<notin> set (dir_chain (path_join [rooted_path cs, app]))"
proof -
  have p: "list_all plain (cs @ [app, backup_name svc (format_timestamp t)])"
    using assms(1) name_plain [OF assms(2)] plain_backup_name [OF assms(3)] by simp
  have "path_join [rooted_path cs, app] = rooted_path (cs @ [app])"
    using assms(1,2) name_plain path_join_rooted [of cs "[app]"] by simp
  moreover have "length ds \<le> length cs + 1" "list_all plain ds" if "ds \<in> set (path_prefixes (cs @ [app]))" for ds
    using path_prefixes_plain [OF _ that] p by auto
  moreover from this(1) have "cs @ [app, backup_name svc (format_timestamp t)] \<notin> set (path_prefixes (cs @ [app]))"
    by fastforce
  ultimately show ?thesis
    using p by (auto simp: dir_chain_rooted dump_path_def rooted_path_inj)
qed

lemma BackupApp_spec:
  assumes "BackupApp h eng app services w = (Inr out, w')" "BackupsDir eng = rooted_path cs" "list_all plain cs"
  shows "\<exists>reg entry t. store_load h (StorePath eng) w = Inr reg \<and> fmlookup (Apps reg) app = Some entry
    \<and> subseq (map bkService out) (chooseBackupServices entry services)
    \<and> (\<forall>b \<in> set out. bkApp b = app \<and> bkPath b = dump_path cs app t (bkService b)
         \<and> (\<exists>d m. lookup_file w' (bkPath b) = Some (File d m)))
    \<and> calls w' = calls w @ issued w w'
    \<and> list_all (backup_call (chooseBackupServices entry services)) (issued w w')
    \<and> (\<forall>k v. k \<notin> dump_path cs app t ` set (chooseBackupServices entry services) \<and> fmlookup (files w) k = Some v
         \<longrightarrow> fmlookup (files w') k = Some v)
    \<and> (no_faults h \<longrightarrow> (\<forall>svc \<in> set (chooseBackupServices entry services) - bkService ` set out.
         lookup_file w' (dump_path cs app t svc) \<in> {None, lookup_file w (dump_path cs app t svc)}))"
proof -
  obtain reg entry w1 where 1: "store_load h (StorePath eng) w = Inr reg" "fmlookup (Apps reg) app = Some entry"
    "mkdir_all h (path_join [BackupsDir eng, app]) w = (None, w1)"
    "backup_services h (path_join [BackupsDir eng, app]) app (timestamp h w1) (chooseBackupServices entry services) w1
       = (out, w')" and n: "name_pattern app"
    using assms(1)
    by (auto simp: BackupApp_def validate_app_name_def app_name_pattern_def Let_def
        split: option.splits sum.splits if_splits prod.splits)
  let ?all = "chooseBackupServices entry services" and ?t = "time_now h w1"
  have all: "set ?all \<subseteq> {Postgres, Redis, RabbitMQ, AIStor, MongoDB}"
    by (rule subsetI, drule backup_services_valid) simp
  have path: "path_join [path_join [BackupsDir eng, app], backup_name svc (timestamp h w1)] = dump_path cs app ?t svc"
    "clean (dump_path cs app ?t svc) = dump_path cs app ?t svc" if "svc \<in> set ?all" for svc
    unfolding assms(2) timestamp_def dump_path_def
    using backup_path [OF assms(3) n subsetD [OF all that], of ?t] by auto
  have inj: "inj_on (\<lambda>svc. clean (path_join [path_join [BackupsDir eng, app], backup_name svc (timestamp h w1)])) (set ?all)"
    unfolding assms(2) timestamp_def by (rule inj_on_subset [OF backup_path_inj [OF assms(3) n] all])
  note spec = backup_services_spec [OF 1(4) distinct_choose subset_refl inj]
  note m = mkdir_all_keeps [OF 1(3)]
  have lw: "lookup_file w1 (dump_path cs app ?t svc) = lookup_file w (dump_path cs app ?t svc)" if "svc \<in> set ?all" for svc
    using mkdir_all_other [OF 1(3)] dump_not_dir [OF assms(3) n subsetD [OF all that]] path(2) [OF that] assms(2)
    by simp
  have im: "(\<lambda>svc. clean (path_join [path_join [BackupsDir eng, app], backup_name svc (timestamp h w1)])) ` set ?all
      = dump_path cs app ?t ` set ?all"
    using path by (auto simp: image_iff)
  have sub: "bkService ` set out \<subseteq> set ?all"
    using spec list_emb_set [of "(=)" "map bkService out" ?all] by auto
  have t: "touches (backup_call ?all) (dump_path cs app ?t ` set ?all) w1 w'" using spec by (simp add: im)
  then have calls: "calls w' = calls w @ issued w1 w'" "list_all (backup_call ?all) (issued w1 w')"
    using m(1) by (auto simp: touches_def)
  moreover have "issued w w' = issued w1 w'" by (rule issuedI [OF calls(1)])
  ultimately show ?thesis
    using 1(1,2) spec sub path m(2) t lw
    by (intro exI [of _ reg] exI [of _ entry] exI [of _ ?t]) (auto simp: touches_def image_iff)
qed

section \<open>Restoring\<close>

lemma redis_restore_ran: "redis_restore h src w = (r, w') \<Longrightarrow> ran (in_container redis_container) w w'"
proof -
  have e: "restoreEntry h e v = (x, v') \<Longrightarrow> ran (in_container redis_container) v v'" for e v x v'
    by (auto simp: restoreEntry_def split: option.splits dest!: snd_discard_ran intro: ran_adminCli)
  have "restore_entries h es v = (x, v') \<Longrightarrow> ran (in_container redis_container) v v'" for es v x v'
  proof (induction es arbitrary: v)
    case (Cons a es)
    obtain y v1 where 1: "restoreEntry h a v = (y, v1)" by fastforce
    with Cons e [OF 1] show ?case by (cases y) (auto intro: ran_trans)
  qed simp
  then show "redis_restore h src w = (r, w') \<Longrightarrow> ran (in_container redis_container) w w'"
    by (auto simp: redis_restore_def Let_def split: sum.splits if_splits)
qed

lemma ran_in_stdin: "ExecWithStdin h c (Some i) cmd w = (r, w') \<Longrightarrow> ran (in_container c) w w'"
  by (erule ran_ExecWithStdin) (simp add: in_container_def exec_args_def)

lemma grantPermissions_ran: "grantPermissions h app w = (r, w') \<Longrightarrow> ran (in_container pg_container) w w'"
  unfolding grantPermissions_exec_all by (rule ran_exec_all)

lemma postgres_restore_ran: "postgres_restore h app src w = (r, w') \<Longrightarrow> ran (in_container pg_container) w w'"
  by (auto simp: postgres_restore_def split: option.splits sum.splits prod.splits
      dest!: ran_in_stdin grantPermissions_ran intro: ran_trans)

lemma wrap_err_ran: "wrap_err p m = (r, w') \<Longrightarrow> \<exists>x. m = (x, w')"
  by (metis prod.collapse snd_combinators(2) snd_conv)

lemma rabbitmq_restore_ran: "rabbitmq_restore h src w = (r, w') \<Longrightarrow> ran (in_container rmq_container) w w'"
  by (auto simp: rabbitmq_restore_def split: sum.splits dest!: wrap_err_ran snd_discard_ran intro: ran_in_stdin)

lemma aistor_restore_ran: "aistor_restore h app src w = (r, w') \<Longrightarrow> ran (in_container aistor_container) w w'"
  by (auto simp: aistor_restore_def split: option.splits sum.splits intro: ran_mcShell)

lemma mongodb_restore_ran: "mongodb_restore h app src w = (r, w') \<Longrightarrow> ran (in_container mongo_container) w w'"
  by (auto simp: mongodb_restore_def split: option.splits sum.splits intro: ran_mongoShell)

lemma runRestore_ran:
  "runRestore h svc app file w = (r, w') \<Longrightarrow> ran (in_container (serviceContainer svc)) w w'"
  by (auto simp: runRestore_def serviceContainer_def split: if_splits
      intro: postgres_restore_ran redis_restore_ran rabbitmq_restore_ran aistor_restore_ran mongodb_restore_ran)

lemma IsContainerRunning_acts: "IsContainerRunning h c w = (b, w') \<Longrightarrow> acts (backup_call svcs) w w'"
  by (rule actsI [of _ _ "[_]"]) (auto dest: IsContainerRunning_calls simp: backup_call_def is_inspect_def)

lemma restore_plan_acts:
  "set (map rpService plan) \<subseteq> set svcs \<Longrightarrow> acts (backup_call svcs) w (restore_plan h app plan w)"
proof (induction plan arbitrary: w)
  case (Cons p ps)
  obtain b w1 where 1: "IsContainerRunning h (serviceContainer (rpService p)) w = (b, w1)" by fastforce
  note a1 = IsContainerRunning_acts [OF 1, of svcs]
  obtain r w2 where 2: "runRestore h (rpService p) app (rpFile p) w1 = (r, w2)" by fastforce
  have "acts (backup_call svcs) w1 w2"
    by (rule acts_mono [OF ran_acts [OF runRestore_ran [OF 2]]])
      (use Cons.prems in \<open>auto simp: backup_call_def list_ex_iff\<close>)
  with a1 have a2: "acts (backup_call svcs) w w2" by (rule acts_trans)
  have rec: "acts (backup_call svcs) v (restore_plan h app ps v)" for v
    using Cons by simp
  show ?case
    using 1 2 acts_trans [OF _ rec] a1 a2 by (auto split: option.split)
qed simp

lemma plan_services_spec:
  "plan_services h appDir svcs w = (plan, w') \<Longrightarrow>
     acts P w w' \<and> map rpService plan = filter (\<lambda>s. findLatestBackup h appDir s w \<noteq> []) svcs
     \<and> (\<forall>p \<in> set plan. rpFile p = findLatestBackup h appDir (rpService p) w)"
proof (induction svcs arbitrary: w plan)
  case (Cons s svcs)
  have e: "findLatestBackup h appDir s (emit l m v) = findLatestBackup h appDir s v" for l m s and v :: "'a world"
  proof -
    have l: "lookup_file (emit l m v) = lookup_file v" by (intro ext) simp
    have d: "dir_names (emit l m v) = dir_names v" by (intro ext) (simp add: dir_names_def)
    have f: "fails h (emit l m v) = fails h v" by (intro ext) (simp add: fails_def)
    show ?thesis unfolding findLatestBackup_def read_dir_def l d f ..
  qed
  show ?case
  proof (cases "findLatestBackup h appDir s w = []")
    case True
    with Cons.prems Cons.IH [of "emit Warn (''no backup found for '' @ s) w" plan] show ?thesis
      by (auto simp: e Let_def intro: acts_trans [OF acts_emit(1)])
  next
    case False
    with Cons show ?thesis by (auto simp: Let_def split: prod.splits)
  qed
qed simp



section \<open>The newest file\<close>

text \<open>A file of the service directly below the directory.\<close>

definition candidate :: "'d world \<Rightarrow> string list \<Rightarrow> string \<Rightarrow> string \<Rightarrow> bool" where
  "candidate w cs svc n =
     (plain n \<and> has_prefix n (svc @ ''_'') \<and> (\<exists>c t. lookup_file w (rooted_path (cs @ [n])) = Some (File c t)))"

lemma hd_rev_sort:
  fixes xs :: "string list"
  assumes "xs \<noteq> []"
  shows "hd (rev (sort xs)) \<in> set xs" "\<forall>x \<in> set xs. x \<le> hd (rev (sort xs))"
proof -
  have "sort xs \<noteq> []" using assms by (metis set_empty set_sort)
  then obtain ys y where s: "sort xs = ys @ [y]" by (metis rev_exhaust)
  have "set xs = insert y (set ys)" by (metis s set_sort set_append Un_insert_right empty_set list.simps(15) sup_bot_right)
  moreover have "\<forall>x \<in> set ys. x \<le> y" using sorted_sort [of xs] unfolding s by (simp add: sorted_append)
  ultimately show "hd (rev (sort xs)) \<in> set xs" "\<forall>x \<in> set xs. x \<le> hd (rev (sort xs))" by (auto simp: s)
qed

text \<open>The file a restore picks for a service is the one with the greatest name among the service's
  files, and none is picked only when there is none.\<close>

theorem latest_is_greatest:
  assumes "no_faults h" "wf_files w" "list_all plain cs" "lookup_file w (rooted_path cs) = Some Dir"
  shows "case findLatestBackup h (rooted_path cs) svc w of
      [] \<Rightarrow> \<forall>n. \<not> candidate w cs svc n
    | p \<Rightarrow> \<exists>n. p = rooted_path (cs @ [n]) \<and> candidate w cs svc n \<and> (\<forall>m. candidate w cs svc m \<longrightarrow> m \<le> n)"
proof -
  let ?names = "dir_names w (rooted_path cs)"
  let ?m = "filter (\<lambda>n. lookup_file w (path_join [rooted_path cs, n]) \<noteq> Some Dir \<and> has_prefix n (svc @ ''_'')) ?names"
  have j: "path_join [rooted_path cs, n] = rooted_path (cs @ [n])" if "plain n" for n
    using that assms(3) path_join_rooted [of cs "[n]"] by simp
  have "lookup_file w p \<noteq> None \<and> lookup_file w p \<noteq> Some Dir \<longleftrightarrow> (\<exists>c t. lookup_file w p = Some (File c t))" for p
    by (cases "lookup_file w p") (auto, metis fnode.exhaust)
  then have m: "set ?m = {n. candidate w cs svc n}"
    using dir_names_rooted [OF assms(2,3)] by (auto simp: candidate_def j; metis fnode.exhaust)
  have f: "findLatestBackup h (rooted_path cs) svc w
      = (if ?m = [] then [] else path_join [rooted_path cs, hd (rev (sort ?m))])"
    using assms(1,4) by (simp add: findLatestBackup_def read_dir_def fails_def no_faults_def Let_def)
  show ?thesis
  proof (cases "?m = []")
    case True
    with m have "\<forall>n. \<not> candidate w cs svc n" by auto
    with f True show ?thesis by (simp split: list.split)
  next
    case False
    from hd_rev_sort [OF this] m have c: "candidate w cs svc (hd (rev (sort ?m)))"
      "\<forall>n. candidate w cs svc n \<longrightarrow> n \<le> hd (rev (sort ?m))" by blast+
    then obtain x where x: "candidate w cs svc x" "\<forall>n. candidate w cs svc n \<longrightarrow> n \<le> x"
      "findLatestBackup h (rooted_path cs) svc w = rooted_path (cs @ [x])"
      using f False j by (auto simp: candidate_def)
    obtain a r where ar: "rooted_path (cs @ [x]) = a # r" by (metis list.exhaust rooted_path_nonempty)
    show ?thesis
      unfolding x(3) ar list.case using x(1,2) ar by (intro exI [of _ x]) simp
  qed
qed

theorem latest_is_greatest_witness:
  "\<exists>n. findLatestBackup demo_host ''/b/shop'' Redis demo_backups = rooted_path [''b'', ''shop'', n]
     \<and> ''redis_2.json'' \<le> n"
proof -
  have p: "rooted_path [''b'', ''shop''] = ''/b/shop''" "list_all plain [''b'', ''shop'']"
    "plain ''redis_2.json''" "has_prefix ''redis_2.json'' (Redis @ ''_'')"
    "rooted_path [''b'', ''shop'', ''redis_2.json''] = ''/b/shop/redis_2.json''"
    by (simp_all add: rooted_path_def plain_def slash_def name_pieces)
  have d: "lookup_file demo_backups ''/b/shop'' = Some Dir"
    "candidate demo_backups [''b'', ''shop''] Redis ''redis_2.json''"
    using p by (simp_all add: candidate_def lookup_file_def demo_backups_clean demo_backups_lookup)
  show ?thesis
    using latest_is_greatest [OF demo_backups_facts(1,2) p(2), unfolded p(1), OF d(1), of Redis] d(2)
    by (auto split: list.splits)
qed

section \<open>What a backup leaves behind\<close>



lemma store_save_other:
  assumes "store_save h path reg w = (r, w')" "clean q \<noteq> clean path" "clean q \<noteq> clean (path @ ''.tmp'')"
  shows "file_content w' q = file_content w q"
proof (cases "registry_secret h w (path_dir path)")
  case (Inl e)
  with assms show ?thesis by (auto simp: store_save_def Let_def dest: atomicWrite_other)
next
  case (Inr secret)
  obtain f w1 where e: "encryptRegistry h (saved_version reg) secret w = (f, w1)" by fastforce
  have "atomicWrite h path (marshal_indent (envelope_json f) @ newline) w1 = (r, w')"
    using assms(1) Inr e by (simp add: store_save_def Let_def)
  from atomicWrite_other [OF this assms(2,3)] encryptRegistry_sel(3) [OF e] show ?thesis
    by (simp add: file_content_def)
qed

lemma store_load_docker:
  fixes h :: "'d host"
  shows "store_load (h\<lparr>docker_run := d\<rparr>) path w = store_load h path w"
proof -
  let ?h = "h\<lparr>docker_run := d\<rparr>"
  have r: "read_file ?h = read_file h" by (intro ext) (simp add: read_file_def fails_def)
  have g: "getenv ?h = getenv h" by simp
  have p: "path_abs ?h = path_abs h" by (intro ext) (simp add: path_abs_def)
  have "dotenv_at ?h w = dotenv_at h w" by (intro ext) (simp add: dotenv_at_def r)
  then have "load_dotenv ?h w x = load_dotenv h w x" for x by (simp only: load_dotenv_def p)
  then have "registry_secret ?h w x = registry_secret h w x" for x by (simp only: registry_secret_def g)
  then have "decryptRegistryContent ?h w f path = decryptRegistryContent h w f path" for f
    by (simp only: decryptRegistryContent_def)
  then show ?thesis by (simp only: store_load_def r)
qed

text \<open>On the demo disk a backup runs whatever the containers answer.\<close>

lemma demo_BackupApp_docker:
  "\<exists>out w'. BackupApp (demo_host\<lparr>docker_run := d\<rparr>) demo_engine ''shop'' [] demo_saved = (Inr out, w')"
proof -
  have "chooseBackupServices demo_entry [] = [Redis]" by code_simp
  moreover have "fmlookup (Apps demo_registry) ''shop'' = Some demo_entry" by (simp add: demo_registry_def)
  moreover have "\<exists>w1. mkdir_all (demo_host\<lparr>docker_run := d\<rparr>) ''/d/backups/shop'' demo_saved = (None, w1)"
  proof -
    have c: "dir_chain ''/d/backups/shop'' = [''/'', ''/d'', ''/d/backups'', ''/d/backups/shop'']"
      "dir_chain (path_dir ''/d/apps.json'') = [''/'', ''/d'']"
      "clean ''/d/backups'' = ''/d/backups''" "clean ''/d/backups/shop'' = ''/d/backups/shop''"
      "clean ''/d/apps.json'' = ''/d/apps.json''" "clean ''/d/apps.json.tmp'' = ''/d/apps.json.tmp''"
      by code_simp+
    obtain r where "store_save demo_host ''/d/apps.json'' demo_registry demo_world = (r, demo_saved)"
      unfolding demo_saved_def by (metis prod.collapse)
    note o = store_save_other [OF this]
    have "file_content demo_saved ''/d/backups'' = None" "file_content demo_saved ''/d/backups/shop'' = None"
      using o [of "''/d/backups''"] o [of "''/d/backups/shop''"] c(3-6)
      by (simp_all add: file_content_def lookup_file_def demo_world_def)
    then have "fmlookup (files demo_saved) ''/d/backups'' \<in> {None, Some Dir}"
      "fmlookup (files demo_saved) ''/d/backups/shop'' \<in> {None, Some Dir}"
      by (auto simp: file_content_def lookup_file_def c(3,4) split: option.splits fnode.splits)
    with demo_saved_facts(2) show ?thesis
      by (simp add: mkdir_all_def fails_def c(1,2) disk_ready_def)
  qed
  moreover have "path_join [''/d/backups'', ''shop''] = ''/d/backups/shop''" by code_simp
  ultimately show ?thesis
    using demo_saved_facts(1)
    by (auto simp: BackupApp_def validate_app_name_def app_name_pattern_def demo_engine_def char_class_defs
        store_load_docker split: prod.split)
qed

lemma demo_BackupApp: "\<exists>out w'. BackupApp demo_host demo_engine ''shop'' [] demo_saved = (Inr out, w')"
proof -
  have "demo_host\<lparr>docker_run := demo_docker\<rparr> = demo_host" by (simp add: demo_host_def)
  then show ?thesis using demo_BackupApp_docker [of demo_docker] by simp
qed

lemma demo_backups_dir: "BackupsDir demo_engine = rooted_path [''d'', ''backups'']" "list_all plain [''d'', ''backups'']"
  by (simp_all add: demo_engine_def rooted_path_def plain_def slash_def)



end
