(* ===== verification/Config.thy ===== *)
theory Config
  imports RegistryStore Demo
begin

text \<open>
  \<open>internal/config\<close>: the root of the installation, found by climbing from the working directory, and
  the settings of the web server, each from the process environment, else the root's \<open>.env\<close>, else a
  default.  The parser of \<open>.env\<close> files is the registry's, repeated.
\<close>

record S3Config =
  s3cBucket :: string
  s3cRegion :: string
  s3cPrefix :: string
  s3cEndpoint :: string
  s3cForcePathStyle :: bool
  s3cAccessKeyID :: string
  s3cSecretAccessKey :: string
  s3cSessionToken :: string

record Config =
  cfgAddr :: string
  cfgUsername :: string
  cfgPassword :: string
  cfgUsingDefaultPassword :: bool
  cfgRootDir :: string
  cfgRegistryPath :: string
  cfgBackupsDir :: string
  cfgDatabasePath :: string
  cfgTimezone :: string
  cfgS3 :: S3Config

section \<open>The root\<close>

definition file_exists :: "'d host \<Rightarrow> 'd world \<Rightarrow> string \<Rightarrow> bool" where
  "file_exists h w path = (case stat h w path of Inl _ \<Rightarrow> False | Inr _ \<Rightarrow> True)"

definition root_at :: "'d host \<Rightarrow> 'd world \<Rightarrow> string \<Rightarrow> string option" where
  "root_at h w dir =
     (if file_exists h w (path_join [dir, ''docker-compose.yml'']) \<and> file_exists h w (path_join [dir, ''go.mod''])
      then Some dir else None)"

definition no_root :: error where
  "no_root = errorf ''could not find infra-shelf root; set INFRA_SHELF_ROOT''"

definition resolveRoot :: "'d host \<Rightarrow> 'd world \<Rightarrow> string result" where
  "resolveRoot h w =
     (let root = getenv h ''INFRA_SHELF_ROOT'' in
      if root \<noteq> [] then path_abs h root
      else
        (case getwd h of
           Inl e \<Rightarrow> Inl e
         | Inr wd0 \<Rightarrow>
             (case path_abs h wd0 of
                Inl e \<Rightarrow> Inl e
              | Inr wd \<Rightarrow>
                  (case climb (Suc (length wd)) (root_at h w) wd of
                     Some (Some dir) \<Rightarrow> Inr dir
                   | _ \<Rightarrow> Inl no_root))))"

definition defaultRegistryPath :: "'d host \<Rightarrow> 'd world \<Rightarrow> string \<Rightarrow> string" where
  "defaultRegistryPath h w root =
     (let legacy = path_join [root, ''packages'', ''cli'', ''src'', ''apps.json''] in
      if file_exists h w legacy then legacy else path_join [root, ''data'', ''apps.json''])"

section \<open>Settings\<close>

definition config_dotenv :: "'d host \<Rightarrow> 'd world \<Rightarrow> string \<Rightarrow> (string \<rightharpoonup> string)" where
  "config_dotenv h w path =
     (case read_file h w path of Inl _ \<Rightarrow> Map.empty | Inr content \<Rightarrow> parse_dotenv content)"

definition config_getenv :: "'d host \<Rightarrow> (string \<rightharpoonup> string) \<Rightarrow> string \<Rightarrow> string \<Rightarrow> string" where
  "config_getenv h env key fallback =
     (if getenv h key \<noteq> [] then getenv h key
      else if env_get env key \<noteq> [] then env_get env key
      else fallback)"

definition config_getenv_bool :: "'d host \<Rightarrow> (string \<rightharpoonup> string) \<Rightarrow> string \<Rightarrow> bool \<Rightarrow> bool" where
  "config_getenv_bool h env key fallback =
     (let value = map to_lower (trim_space (config_getenv h env key [])) in
      if value = [] then fallback
      else value = ''1'' \<or> value = ''true'' \<or> value = ''yes'' \<or> value = ''on'')"

definition load_s3_config :: "'d host \<Rightarrow> (string \<rightharpoonup> string) \<Rightarrow> S3Config" where
  "load_s3_config h env =
     \<lparr>s3cBucket = config_getenv h env ''BACKUP_S3_BUCKET'' [],
      s3cRegion = config_getenv h env ''BACKUP_S3_REGION'' (config_getenv h env ''AWS_REGION'' ''us-east-1''),
      s3cPrefix = trim_set {slash} (config_getenv h env ''BACKUP_S3_PREFIX'' ''infra-shelf/backups''),
      s3cEndpoint = config_getenv h env ''BACKUP_S3_ENDPOINT'' [],
      s3cForcePathStyle = config_getenv_bool h env ''BACKUP_S3_FORCE_PATH_STYLE'' False,
      s3cAccessKeyID = config_getenv h env ''AWS_ACCESS_KEY_ID'' [],
      s3cSecretAccessKey = config_getenv h env ''AWS_SECRET_ACCESS_KEY'' [],
      s3cSessionToken = config_getenv h env ''AWS_SESSION_TOKEN'' []\<rparr>"

definition load_config :: "'d host \<Rightarrow> 'd world \<Rightarrow> Config result" where
  "load_config h w =
     (case resolveRoot h w of
        Inl e \<Rightarrow> Inl e
      | Inr root \<Rightarrow>
          (let env = config_dotenv h w (path_join [root, ''.env'']);
               get = config_getenv h env;
               username = get ''APP_USERNAME'' ''admin'';
               password = get ''APP_PASSWORD'' ''admin'' in
           Inr \<lparr>cfgAddr = get ''APP_ADDR'' ''127.0.0.1:8080'',
             cfgUsername = username, cfgPassword = password,
             cfgUsingDefaultPassword = (username = ''admin'' \<and> password = ''admin''),
             cfgRootDir = root,
             cfgRegistryPath = get ''INFRA_SHELF_REGISTRY_PATH'' (defaultRegistryPath h w root),
             cfgBackupsDir = get ''INFRA_SHELF_BACKUPS_DIR'' (path_join [root, ''backups'']),
             cfgDatabasePath = get ''APP_DATABASE_PATH'' (path_join [root, ''data'', ''app'', ''infra-shelf-app.db'']),
             cfgTimezone = get ''APP_TIMEZONE'' ''America/Sao_Paulo'',
             cfgS3 = load_s3_config h env\<rparr>))"

section \<open>Properties\<close>

lemma resolveRoot_climbs:
  assumes "getenv h ''INFRA_SHELF_ROOT'' = []" "getwd h = Inr (rooted_path cs)" "list_all plain cs"
  shows "resolveRoot h w = (case first_some (root_at h w) (ancestors cs) of Some d \<Rightarrow> Inr d | None \<Rightarrow> Inl no_root)"
proof -
  have "climb (Suc (length (rooted_path cs))) (root_at h w) (rooted_path cs)
      = Some (first_some (root_at h w) (ancestors cs))"
    using assms(3) length_rooted_path [OF assms(3)] by (intro climb_rooted) auto
  then show ?thesis
    using assms by (simp add: resolveRoot_def path_abs_def split: option.split del: climb.simps)
qed

lemma first_some_split:
  "first_some f xs = Some a \<Longrightarrow> \<exists>ys x zs. xs = ys @ x # zs \<and> f x = Some a \<and> (\<forall>y \<in> set ys. f y = None)"
proof (induction xs)
  case (Cons x xs)
  show ?case
  proof (cases "f x")
    case None
    with Cons obtain ys z zs where "xs = ys @ z # zs" "f z = Some a" "\<forall>y \<in> set ys. f y = None" by auto
    with None show ?thesis by (intro exI [of _ "x # ys"]) auto
  next
    case (Some b)
    with Cons.prems show ?thesis by (intro exI [of _ "[]"]) auto
  qed
qed simp

text \<open>C17: without \<open>INFRA_SHELF_ROOT\<close> the root is the nearest directory at or above the working directory
  that holds both \<open>docker-compose.yml\<close> and \<open>go.mod\<close>; the search always ends, with an error exactly
  when there is none.\<close>

theorem root_is_nearest:
  assumes "getenv h ''INFRA_SHELF_ROOT'' = []" "getwd h = Inr (rooted_path cs)" "list_all plain cs"
  shows "(\<exists>near dir far. resolveRoot h w = Inr dir \<and> ancestors cs = near @ dir # far
            \<and> root_at h w dir = Some dir \<and> (\<forall>d \<in> set near. root_at h w d = None))
       \<or> resolveRoot h w = Inl no_root \<and> (\<forall>d \<in> set (ancestors cs). root_at h w d = None)"
proof (cases "first_some (root_at h w) (ancestors cs)")
  case None
  then have "resolveRoot h w = Inl no_root" by (simp add: resolveRoot_climbs [OF assms])
  moreover have "\<forall>d \<in> set (ancestors cs). root_at h w d = None" using None by (simp only: first_some_None)
  ultimately show ?thesis by simp
next
  case (Some d)
  from first_some_split [OF Some] obtain near x far where "ancestors cs = near @ x # far"
    "root_at h w x = Some d" "\<forall>y \<in> set near. root_at h w y = None" by blast
  moreover from this(2) have "x = d" by (simp add: root_at_def split: if_splits)
  ultimately show ?thesis using resolveRoot_climbs [OF assms, of w] Some by auto
qed

theorem root_is_nearest_witness:
  "resolveRoot demo_host demo_world = Inl no_root"
proof -
  have "getwd demo_host = Inr (rooted_path [''srv''])" "list_all plain [''srv'']"
    by (simp_all add: demo_host_def rooted_path_def plain_def slash_def)
  from root_is_nearest [OF _ this, of demo_world] show ?thesis
    by (auto simp: root_at_def file_exists_def stat_def fails_def lookup_file_def demo_world_def)
qed

end
