(* ===== verification/BackupService.thy ===== *)
theory BackupService
  imports BackupOps Config
begin

text \<open>
  Backups started from the web (\<open>internal/web/backupservice\<close>): the run log they fill
  (\<open>internal/web/runlog\<close>), the mirror of the files in a bucket (\<open>internal/s3backup\<close>), and the
  retention that follows a successful run.

  The object store behind the AWS client is a parameter: \<open>'b\<close> is its state and \<open>'b store_api\<close> what
  its two requests answer, an error included.  The process log and the client's own settings
  (region, credentials, endpoint) only reach that library and are not modelled; the error with which
  it may refuse them is the argument of \<open>new_client\<close>.
\<close>

section \<open>The run log\<close>

text \<open>A \<open>runlog.Buffer\<close> is its lines.  The marks are the UTF-8 bytes of the check mark, the ballot cross,
  the information sign, the warning sign and the single angle quotation mark.\<close>

fun mark :: "level \<Rightarrow> string" where
  "mark Success = [char_of (226::nat), char_of (156::nat), char_of (148::nat)]"
| "mark Failure = [char_of (226::nat), char_of (156::nat), char_of (152::nat)]"
| "mark Info = [char_of (226::nat), char_of (132::nat), char_of (185::nat)]"
| "mark Warn = [char_of (226::nat), char_of (154::nat), char_of (160::nat)]"
| "mark Title = [char_of (226::nat), char_of (128::nat), char_of (186::nat)]"

definition log_add :: "string list \<Rightarrow> level \<times> string \<Rightarrow> string list" where
  "log_add b m =
     (let msg = trim_space (snd m) in if msg = [] then b else b @ [mark (fst m) @ '' '' @ msg])"

definition append_line :: "string list \<Rightarrow> string \<Rightarrow> string list" where
  "append_line b l = (let line = trim_space l in if line = [] then b else b @ [line])"

definition log_string :: "string list \<Rightarrow> string" where
  "log_string b = trim_space (join newline b)"

text \<open>The engine reports to a fresh buffer: its lines are the messages sent between two worlds.\<close>

definition captured :: "'d world \<Rightarrow> 'd world \<Rightarrow> string list" where
  "captured w w' = fold (\<lambda>m b. log_add b m) (drop (length (report w)) (report w')) []"

section \<open>The object store\<close>

record 'b store_api =
  put_object :: "'b \<Rightarrow> string \<Rightarrow> string \<Rightarrow> string \<Rightarrow> error option \<times> 'b"
  delete_object :: "'b \<Rightarrow> string \<Rightarrow> string \<Rightarrow> error option \<times> 'b"

record UploadedFile =
  upFile :: BFile
  upKey :: string

text \<open>A \<open>*Client\<close>: \<open>None\<close> is the nil pointer.\<close>

type_synonym client = "S3Config option"

definition new_client :: "(S3Config \<Rightarrow> error option) \<Rightarrow> S3Config \<Rightarrow> client result" where
  "new_client refused cfg =
     (if s3cBucket cfg = [] then Inr None
      else (case refused cfg of Some e \<Rightarrow> Inl e | None \<Rightarrow> Inr (Some cfg)))"

definition Enabled :: "client \<Rightarrow> bool" where
  "Enabled c = (case c of None \<Rightarrow> False | Some cfg \<Rightarrow> s3cBucket cfg \<noteq> [])"

definition Destination :: "client \<Rightarrow> string" where
  "Destination c =
     (case c of
        None \<Rightarrow> ''not configured''
      | Some cfg \<Rightarrow>
          (if \<not> Enabled c then ''not configured''
           else if s3cPrefix cfg = [] then ''s3://'' @ s3cBucket cfg
           else ''s3://'' @ s3cBucket cfg @ ''/'' @ s3cPrefix cfg))"

definition s3_key :: "S3Config \<Rightarrow> BFile \<Rightarrow> string" where
  "s3_key cfg f =
     path_join ((if s3cPrefix cfg \<noteq> [] then [trim_set {slash} (s3cPrefix cfg)] else []) @ [bfApp f, bfName f])"

text \<open>The zero \<open>UploadedFile\<close> is what an unconfigured client answers.\<close>

definition zero_file :: BFile where
  "zero_file = \<lparr>bfApp = [], bfService = [], bfName = [], bfPath = [], bfSize = 0, bfModified = zero_time\<rparr>"

definition Upload ::
  "'d host \<Rightarrow> 'b store_api \<Rightarrow> client \<Rightarrow> 'd world \<Rightarrow> BFile \<Rightarrow> 'b \<Rightarrow> UploadedFile result \<times> 'b" where
  "Upload h api c w f b =
     (case c of
        None \<Rightarrow> (Inr \<lparr>upFile = zero_file, upKey = []\<rparr>, b)
      | Some cfg \<Rightarrow>
          (if \<not> Enabled c then (Inr \<lparr>upFile = zero_file, upKey = []\<rparr>, b)
           else
             (case read_file h w (bfPath f) of
                Inl e \<Rightarrow> (Inl e, b)
              | Inr body \<Rightarrow>
                  (case put_object api b (s3cBucket cfg) (s3_key cfg f) body of
                     (Some e, b1) \<Rightarrow> (Inl e, b1)
                   | (None, b1) \<Rightarrow> (Inr \<lparr>upFile = f, upKey = s3_key cfg f\<rparr>, b1)))))"

fun UploadMany ::
  "'d host \<Rightarrow> 'b store_api \<Rightarrow> client \<Rightarrow> 'd world \<Rightarrow> BFile list \<Rightarrow> 'b
     \<Rightarrow> (UploadedFile list \<times> error option) \<times> 'b" where
  "UploadMany h api c w [] b = (([], None), b)"
| "UploadMany h api c w (f # fs) b =
     (case Upload h api c w f b of
        (Inl e, b1) \<Rightarrow>
          (([], Some (wrapf (''upload '' @ bfApp f @ ''/'' @ bfName f @ '' to '' @ Destination c @ '': '') e [])), b1)
      | (Inr u, b1) \<Rightarrow>
          (case UploadMany h api c w fs b1 of ((us, e), b2) \<Rightarrow> ((u # us, e), b2)))"

fun delete_objects :: "'b store_api \<Rightarrow> S3Config \<Rightarrow> BFile list \<Rightarrow> 'b \<Rightarrow> error option \<times> 'b" where
  "delete_objects api cfg [] b = (None, b)"
| "delete_objects api cfg (f # fs) b =
     (case delete_object api b (s3cBucket cfg) (s3_key cfg f) of
        (Some e, b1) \<Rightarrow>
          (Some (wrapf (''delete '' @ bfApp f @ ''/'' @ bfName f @ '' from '' @ Destination (Some cfg) @ '': '') e []), b1)
      | (None, b1) \<Rightarrow> delete_objects api cfg fs b1)"

definition DeleteMany :: "'b store_api \<Rightarrow> client \<Rightarrow> BFile list \<Rightarrow> 'b \<Rightarrow> error option \<times> 'b" where
  "DeleteMany api c fs b =
     (case c of
        None \<Rightarrow> (None, b)
      | Some cfg \<Rightarrow> if \<not> Enabled c then (None, b) else delete_objects api cfg fs b)"

section \<open>The service\<close>

text \<open>What a run acts on: the machine and the bucket.  The orders in which the runtime visits the two
  maps of a run are arguments.\<close>

record ('d, 'b) site =
  machine :: "'d world"
  bucket :: 'b

record orders =
  ordApps :: "string list \<Rightarrow> string list"
  ordGroups :: "string list \<Rightarrow> string list"

record Service =
  svEngine :: Engine
  svBackupsDir :: string
  svClient :: client

record RunResult =
  rrFiles :: "BackupFile list"
  rrLog :: string

fun path_base_from :: "string \<Rightarrow> string \<Rightarrow> string" where
  "path_base_from p [] = p"
| "path_base_from p (c # cs) = (if c = slash \<or> c = CHR 0x5C then drop (Suc (length cs)) p else path_base_from p cs)"

text \<open>The index runs from the end of the string to its start: over the reversed list.\<close>

definition pathBase :: "string \<Rightarrow> string" where
  "pathBase p = path_base_from p (rev p)"

definition convert_file :: "BackupFile \<Rightarrow> BFile" where
  "convert_file f = zero_file\<lparr>bfApp := bkApp f, bfService := bkService f, bfPath := bkPath f, bfName := pathBase (bkPath f)\<rparr>"

definition convertFiles :: "BackupFile list \<Rightarrow> BFile list" where
  "convertFiles fs = map convert_file fs"

definition applyRetention ::
  "'d host \<Rightarrow> 'b store_api \<Rightarrow> orders \<Rightarrow> Service \<Rightarrow> string list \<Rightarrow> PruneOptions \<Rightarrow> ('d, 'b) site
     \<Rightarrow> (string list \<times> error option) \<times> ('d, 'b) site" where
  "applyRetention h api ord s rep retention st =
     (case Prune h (ordGroups ord) (svBackupsDir s) retention (machine st) of
        ((deleted, Some e), w1) \<Rightarrow> ((append_line rep (err_text e), Some e), st\<lparr>machine := w1\<rparr>)
      | ((deleted, None), w1) \<Rightarrow>
          (if deleted = [] then ((rep, None), st\<lparr>machine := w1\<rparr>)
           else
             (case (if Enabled (svClient s) then DeleteMany api (svClient s) deleted (bucket st) else (None, bucket st)) of
                (Some e, b1) \<Rightarrow> ((append_line rep (err_text e), Some e), \<lparr>machine = w1, bucket = b1\<rparr>)
              | (None, b1) \<Rightarrow>
                  ((append_line rep (''Pruned '' @ dec (length deleted) @ '' backup file(s)''), None),
                   \<lparr>machine = w1, bucket = b1\<rparr>))))"

text \<open>The part of a run after its dumps: the upload, then the retention.\<close>

definition finish_backup ::
  "'d host \<Rightarrow> 'b store_api \<Rightarrow> orders \<Rightarrow> Service \<Rightarrow> PruneOptions \<Rightarrow> BackupFile list \<Rightarrow> string list
     \<Rightarrow> ('d, 'b) site \<Rightarrow> (string list \<times> error option) \<times> ('d, 'b) site" where
  "finish_backup h api ord s retention fs rep st =
     (if Enabled (svClient s) \<and> fs \<noteq> [] then
        (case UploadMany h api (svClient s) (machine st) (convertFiles fs) (bucket st) of
           ((uploaded, Some e), b1) \<Rightarrow> ((append_line rep (err_text e), Some e), st\<lparr>bucket := b1\<rparr>)
         | ((uploaded, None), b1) \<Rightarrow>
             applyRetention h api ord s
               (append_line rep (''Uploaded '' @ dec (length uploaded) @ '' backup file(s) to '' @ Destination (svClient s)))
               retention (st\<lparr>bucket := b1\<rparr>))
      else applyRetention h api ord s rep retention st)"

definition engine_backup ::
  "'d host \<Rightarrow> orders \<Rightarrow> Service \<Rightarrow> string \<Rightarrow> bool \<Rightarrow> string list \<Rightarrow> 'd world \<Rightarrow> BackupFile list result \<times> 'd world" where
  "engine_backup h ord s app all services w =
     (if all then BackupAll h (ordApps ord) (svEngine s) services w
      else BackupApp h (svEngine s) app services w)"

definition BackupWithRetention ::
  "'d host \<Rightarrow> 'b store_api \<Rightarrow> orders \<Rightarrow> Service \<Rightarrow> string \<Rightarrow> bool \<Rightarrow> string list \<Rightarrow> PruneOptions \<Rightarrow> ('d, 'b) site
     \<Rightarrow> (RunResult \<times> error option) \<times> ('d, 'b) site" where
  "BackupWithRetention h api ord s app all services retention st =
     (case engine_backup h ord s app all services (machine st) of
        (Inl e, w1) \<Rightarrow>
          ((\<lparr>rrFiles = [], rrLog = log_string (append_line (captured (machine st) w1) (err_text e))\<rparr>, Some e),
           st\<lparr>machine := w1\<rparr>)
      | (Inr fs, w1) \<Rightarrow>
          (case finish_backup h api ord s retention fs (captured (machine st) w1) (st\<lparr>machine := w1\<rparr>) of
             ((rep, e), st1) \<Rightarrow> ((\<lparr>rrFiles = fs, rrLog = log_string rep\<rparr>, e), st1)))"

definition no_retention :: PruneOptions where
  "no_retention = \<lparr>prAppName = [], prAll = False, prServices = [], prKeepDays = 0, prKeepCount = 0\<rparr>"

definition Backup ::
  "'d host \<Rightarrow> 'b store_api \<Rightarrow> orders \<Rightarrow> Service \<Rightarrow> string \<Rightarrow> bool \<Rightarrow> string list \<Rightarrow> ('d, 'b) site
     \<Rightarrow> (RunResult \<times> error option) \<times> ('d, 'b) site" where
  "Backup h api ord s app all services st = BackupWithRetention h api ord s app all services no_retention st"

definition UploadAll ::
  "'d host \<Rightarrow> 'b store_api \<Rightarrow> Service \<Rightarrow> ('d, 'b) site \<Rightarrow> (UploadedFile list \<times> error option) \<times> ('d, 'b) site" where
  "UploadAll h api s st =
     (if \<not> Enabled (svClient s) then (([], Some (errorf ''S3 backup is not configured'')), st)
      else
        (case ListFiles h (svBackupsDir s) (machine st) of
           Inl e \<Rightarrow> (([], Some e), st)
         | Inr fs \<Rightarrow>
             (case UploadMany h api (svClient s) (machine st) fs (bucket st) of (r, b1) \<Rightarrow> (r, st\<lparr>bucket := b1\<rparr>))))"

definition service_delete ::
  "'d host \<Rightarrow> 'b store_api \<Rightarrow> Service \<Rightarrow> string \<Rightarrow> string \<Rightarrow> ('d, 'b) site \<Rightarrow> (BFile \<times> error option) \<times> ('d, 'b) site" where
  "service_delete h api s app name st =
     (case DeleteFile h (svBackupsDir s) app name (machine st) of
        (Inl e, w1) \<Rightarrow> ((zero_file, Some e), st\<lparr>machine := w1\<rparr>)
      | (Inr f, w1) \<Rightarrow>
          (if Enabled (svClient s) then
             (case DeleteMany api (svClient s) [f] (bucket st) of
                (e, b1) \<Rightarrow> ((f, e), \<lparr>machine = w1, bucket = b1\<rparr>))
           else ((f, None), st\<lparr>machine := w1\<rparr>)))"

definition S3Enabled :: "Service \<Rightarrow> bool" where
  "S3Enabled s = Enabled (svClient s)"

definition S3Destination :: "Service \<Rightarrow> string" where
  "S3Destination s = (case svClient s of None \<Rightarrow> ''not configured'' | Some cfg \<Rightarrow> Destination (svClient s))"

section \<open>Keys and names\<close>

lemma log_string_trimmed: "trim_space (log_string b) = log_string b"
  by (simp add: log_string_def trim_space_idem)

lemma split_on_append_sep: "split_on c (s @ c # t) = split_on c s @ split_on c t"
  by (induction s) (auto split: list.splits)

lemma clean_stack_suffix:
  assumes "plain a" "plain n" "p \<noteq> []"
  shows "clean_stack (p @ slash # a @ slash # n) = n # a # clean_stack p"
    and "is_abs (p @ slash # a @ slash # n) = is_abs p"
proof -
  have "split_on slash (p @ slash # a @ slash # n) = split_on slash p @ [a, n]"
    using assms by (simp add: split_on_append_sep split_on_absent plain_def)
  moreover show abs: "is_abs (p @ slash # a @ slash # n) = is_abs p" using assms by (cases p) (auto simp: is_abs_def)
  ultimately show "clean_stack (p @ slash # a @ slash # n) = n # a # clean_stack p"
    using assms by (simp add: clean_stack_def)
qed

text \<open>Whatever the prefix, a key ends in the app and the file name.\<close>

lemma path_join_two:
  assumes "plain a" "plain b"
  shows "path_join [a, b] = render False [a, b]"
proof -
  have "split_on slash (a @ slash # b) = [a, b]"
    using assms by (simp add: split_on_append_sep split_on_absent plain_def)
  moreover have "\<not> is_abs (a @ slash # b)"
    using assms(1) by (cases a) (auto simp: is_abs_def plain_def)
  moreover have "a \<noteq> []" using assms(1) by (simp add: plain_def)
  ultimately show ?thesis using assms by (simp add: path_join_def clean_def clean_stack_def)
qed

lemma path_join_three:
  assumes "plain a" "plain b"
  shows "path_join [p, a, b] = (if p = [] then render False [a, b] else render (is_abs p) (rev (clean_stack p) @ [a, b]))"
proof (cases "p = []")
  case True
  then have "path_join [p, a, b] = path_join [a, b]" by (simp add: path_join_def)
  with True path_join_two [OF assms] show ?thesis by simp
next
  case False
  then show ?thesis using clean_stack_suffix [OF assms, of p] by (simp add: path_join_def clean_def)
qed

lemma s3_key_form:
  "\<exists>r ds. list_all (\<lambda>d. d \<noteq> [] \<and> slash \<notin> set d) ds \<and>
     (\<forall>f. plain (bfApp f) \<and> plain (bfName f) \<longrightarrow> s3_key cfg f = render r (ds @ [bfApp f, bfName f]))"
proof -
  define p where "p = (if s3cPrefix cfg \<noteq> [] then trim_set {slash} (s3cPrefix cfg) else [])"
  have k: "s3_key cfg f = path_join [p, bfApp f, bfName f]" for f
    by (simp add: s3_key_def p_def path_join_def)
  show ?thesis
  proof (cases "p = []")
    case True
    then show ?thesis by (intro exI [of _ False] exI [of _ "[]"]) (simp add: k path_join_three)
  next
    case False
    then show ?thesis
      using clean_stack_parts [of p]
      by (intro exI [of _ "is_abs p"] exI [of _ "rev (clean_stack p)"]) (simp add: k path_join_three)
  qed
qed

lemma render_inj:
  assumes "list_all (\<lambda>d. slash \<notin> set d) (ds @ xs)" "list_all (\<lambda>d. slash \<notin> set d) (ds @ ys)"
    "xs \<noteq> []" "ys \<noteq> []" "render r (ds @ xs) = render r (ds @ ys)"
  shows "xs = ys"
proof -
  have "split_on slash (join [slash] (ds @ xs)) = ds @ xs" "split_on slash (join [slash] (ds @ ys)) = ds @ ys"
    using assms(1-4) by (auto intro!: split_on_join simp: list_all_iff)
  moreover have "join [slash] (ds @ xs) = join [slash] (ds @ ys)"
    using assms(3-5) by (simp add: render_def split: if_splits)
  ultimately show ?thesis by (metis same_append_eq)
qed

lemma s3_key_inj:
  assumes "plain (bfApp f)" "plain (bfName f)" "plain (bfApp g)" "plain (bfName g)"
  shows "s3_key cfg f = s3_key cfg g \<longleftrightarrow> bfApp f = bfApp g \<and> bfName f = bfName g"
proof -
  obtain r ds where ds: "list_all (\<lambda>d. d \<noteq> [] \<and> slash \<notin> set d) ds"
    "\<forall>f. plain (bfApp f) \<and> plain (bfName f) \<longrightarrow> s3_key cfg f = render r (ds @ [bfApp f, bfName f])"
    using s3_key_form [of cfg] by blast
  then have k: "s3_key cfg f = render r (ds @ [bfApp f, bfName f])" "s3_key cfg g = render r (ds @ [bfApp g, bfName g])"
    using assms by auto
  have "list_all (\<lambda>d. slash \<notin> set d) (ds @ [bfApp f, bfName f])" "list_all (\<lambda>d. slash \<notin> set d) (ds @ [bfApp g, bfName g])"
    using assms ds(1) by (auto simp: plain_def list_all_iff)
  from render_inj [OF this, of r] k show ?thesis by auto
qed

lemma path_base_from_skip:
  "slash \<notin> set cs \<Longrightarrow> CHR 0x5C \<notin> set cs \<Longrightarrow> path_base_from p (cs @ ds) = path_base_from p ds"
  by (induction cs) auto

lemma pathBase_last:
  assumes "slash \<notin> set n" "CHR 0x5C \<notin> set n"
  shows "pathBase (q @ slash # n) = n"
  using path_base_from_skip [of "rev n" "q @ slash # n" "slash # rev q"] assms by (simp add: pathBase_def)

section \<open>What the engine leaves\<close>

lemma plain_dump:
  assumes "name_pattern app" "svc \<in> {Postgres, Redis, RabbitMQ, AIStor, MongoDB}" "list_all plain cs"
  shows "list_all plain (cs @ [app, backup_name svc (format_timestamp t)])"
  using assms name_plain plain_backup_name by simp

lemma pathBase_dump:
  assumes "svc \<in> {Postgres, Redis, RabbitMQ, AIStor, MongoDB}"
  shows "pathBase (dump_path cs app t svc) = backup_name svc (format_timestamp t)"
proof -
  have "c \<noteq> slash \<and> c \<noteq> CHR 0x5C" if "time_char c" for c
    using that by (auto simp: time_char_def is_digit_def less_eq_char_def slash_def)
  then have "\<forall>c \<in> set (format_timestamp t). c \<noteq> slash \<and> c \<noteq> CHR 0x5C"
    using format_timestamp_chars [of t] by (simp add: list_all_iff)
  then have t: "slash \<notin> set (format_timestamp t)" "CHR 0x5C \<notin> set (format_timestamp t)" by blast+
  then have "slash \<notin> set (backup_name svc (format_timestamp t))" "CHR 0x5C \<notin> set (backup_name svc (format_timestamp t))"
    unfolding backup_name_def serviceExt_def using assms
    by (elim insertE emptyE; simp add: slash_def)+
  moreover have "dump_path cs app t svc
      = (slash # join [slash] (cs @ [app])) @ slash # backup_name svc (format_timestamp t)"
    using join_append [of "cs @ [app]" "[backup_name svc (format_timestamp t)]" "[slash]"]
    by (simp add: dump_path_def rooted_path_def)
  ultimately show ?thesis by (metis pathBase_last)
qed

lemma touches_wf: "touches P D w w' \<Longrightarrow> wf_files w \<Longrightarrow> (\<And>k. k \<in> D \<Longrightarrow> clean k = k) \<Longrightarrow> wf_files w'"
  unfolding touches_def wf_files_def by metis

lemma mkdir_all_wf:
  assumes "mkdir_all h (rooted_path ds) w = (r, w')" "list_all plain ds" "wf_files w"
  shows "wf_files w'"
proof -
  have "clean d = d" if "d \<in> set (dir_chain (rooted_path ds))" for d
    using that path_prefixes_plain [OF assms(2)] by (auto simp: dir_chain_rooted [OF assms(2)])
  with assms show ?thesis
    by (auto simp: mkdir_all_def wf_files_def fmlookup_fold_dirs split: option.splits if_splits)
qed

lemma backup_services_wf:
  assumes "backup_services h (rooted_path (cs @ [app])) app (format_timestamp t) svcs w = (out, w')"
    "set svcs \<subseteq> {Postgres, Redis, RabbitMQ, AIStor, MongoDB}" "name_pattern app" "list_all plain cs" "wf_files w"
  shows "wf_files w' \<and> (\<forall>b \<in> set out. bkApp b = app \<and> bkService b \<in> set svcs
    \<and> bkPath b = dump_path cs app t (bkService b))"
  using assms(1,2,5)
proof (induction svcs arbitrary: w out)
  case (Cons svc svcs)
  obtain f w1 where 1: "backup_service h (rooted_path (cs @ [app])) app (format_timestamp t) svc w = (f, w1)" by fastforce
  obtain out1 w2 where 2: "backup_services h (rooted_path (cs @ [app])) app (format_timestamp t) svcs w1 = (out1, w')"
    using Cons.prems 1 by (auto split: prod.splits)
  have svc: "svc \<in> {Postgres, Redis, RabbitMQ, AIStor, MongoDB}" using Cons.prems by simp
  have "list_all plain (cs @ [app])" using assms(3,4) name_plain by simp
  from path_join_rooted [OF this, of "[backup_name svc (format_timestamp t)]"] plain_backup_name [OF svc, of t]
  have path: "path_join [rooted_path (cs @ [app]), backup_name svc (format_timestamp t)] = dump_path cs app t svc"
    by (simp add: dump_path_def)
  have "clean (dump_path cs app t svc) = dump_path cs app t svc"
    unfolding dump_path_def by (rule clean_rooted [OF plain_dump [OF assms(3) svc assms(4)]])
  with backup_service_touches [OF 1, of "[svc]"] path have "wf_files w1"
    by (intro touches_wf [OF _ Cons.prems(3)]) auto
  with Cons.IH [OF 2] Cons.prems have IH: "wf_files w'" "\<forall>b \<in> set out1. bkApp b = app \<and> bkService b \<in> set svcs
    \<and> bkPath b = dump_path cs app t (bkService b)" by auto
  have "\<forall>b. f = Some b \<longrightarrow> bkApp b = app \<and> bkService b = svc \<and> bkPath b = dump_path cs app t svc"
    using 1 by (auto simp: backup_service_def Let_def path split: prod.splits if_splits option.splits)
  with IH Cons.prems 1 2 show ?case by (auto split: option.splits)
qed simp

text \<open>The files a run reports.\<close>

definition dumped :: "string list \<Rightarrow> BackupFile \<Rightarrow> bool" where
  "dumped cs b =
     (name_pattern (bkApp b) \<and> bkService b \<in> {Postgres, Redis, RabbitMQ, AIStor, MongoDB}
      \<and> (\<exists>t. bkPath b = dump_path cs (bkApp b) t (bkService b)))"

lemma BackupApp_dumped:
  assumes "BackupApp h eng app services w = (r, w')" "BackupsDir eng = rooted_path cs" "list_all plain cs" "wf_files w"
  shows "wf_files w' \<and> (\<forall>out. r = Inr out \<longrightarrow> (\<forall>b \<in> set out. dumped cs b))"
proof (cases "validate_app_name app")
  case (Some e)
  with assms show ?thesis by (auto simp: BackupApp_def)
next
  case None
  then have n: "name_pattern app" by (simp add: validate_app_name_def app_name_pattern_def split: if_splits)
  then have d: "path_join [BackupsDir eng, app] = rooted_path (cs @ [app])" "list_all plain (cs @ [app])"
    using assms(2,3) name_plain path_join_rooted [of cs "[app]"] by simp_all
  show ?thesis
  proof (cases "wf_files w' \<and> (\<exists>e. r = Inl e)")
    case False
    then obtain entry w1 out where 1:
      "mkdir_all h (rooted_path (cs @ [app])) w = (None, w1)"
      "backup_services h (rooted_path (cs @ [app])) app (format_timestamp (time_now h w1))
         (chooseBackupServices entry services) w1 = (out, w')" "r = Inr out"
      using assms(1,4) mkdir_all_wf [OF _ d(2)]
      by (auto simp: BackupApp_def None Let_def d(1) timestamp_def split: sum.splits option.splits if_splits prod.splits)
    have "set (chooseBackupServices entry services) \<subseteq> {Postgres, Redis, RabbitMQ, AIStor, MongoDB}"
      by (rule subsetI, drule backup_services_valid) simp
    note b = backup_services_wf [OF 1(2) this n assms(3) mkdir_all_wf [OF 1(1) d(2) assms(4)]]
    have "dumped cs b" if "b \<in> set out" for b
    proof -
      have "bkService b \<in> {Postgres, Redis, RabbitMQ, AIStor, MongoDB}"
        using b that backup_services_valid [of "bkService b" entry services] by simp
      moreover have "bkApp b = app" "bkPath b = dump_path cs app (time_now h w1) (bkService b)" using b that by auto
      ultimately show ?thesis using n unfolding dumped_def by metis
    qed
    with b 1(3) show ?thesis by simp
  qed auto
qed

lemma emit_wf [simp]: "wf_files (emit l m w) = wf_files w"
  by (simp add: wf_files_def emit_def)

lemma backup_each_dumped:
  assumes "backup_each h eng services names w = (out, w')" "BackupsDir eng = rooted_path cs" "list_all plain cs" "wf_files w"
  shows "wf_files w' \<and> (\<forall>b \<in> set out. dumped cs b)"
  using assms(1,4)
proof (induction names arbitrary: w out)
  case (Cons name names)
  obtain r w1 where 1: "BackupApp h eng name services (emit Title (''backing up '' @ quote name) w) = (r, w1)" by fastforce
  have "wf_files w1" "\<forall>out. r = Inr out \<longrightarrow> (\<forall>b \<in> set out. dumped cs b)"
    using BackupApp_dumped [OF 1 assms(2,3)] Cons.prems by simp_all
  with 1 Cons show ?case by (cases r) (auto split: prod.splits)
qed simp

lemma engine_backup_dumped:
  assumes "engine_backup h ord s app all services w = (Inr out, w')" "BackupsDir (svEngine s) = rooted_path cs"
    "list_all plain cs" "wf_files w"
  shows "wf_files w' \<and> (\<forall>b \<in> set out. dumped cs b)"
proof (cases all)
  case True
  with assms show ?thesis
    by (auto simp: engine_backup_def BackupAll_def split: sum.splits if_splits prod.splits
        dest!: backup_each_dumped [OF _ assms(2,3)])
next
  case False
  with assms BackupApp_dumped [OF _ assms(2-4)] show ?thesis by (simp add: engine_backup_def)
qed

section \<open>The mirror\<close>

text \<open>What an object store documents: an accepted write is what the next read of that key finds, an
  accepted deletion leaves nothing under it, and neither changes another key.\<close>

definition honest :: "'b store_api \<Rightarrow> ('b \<Rightarrow> string \<times> string \<Rightarrow> string option) \<Rightarrow> bool" where
  "honest api get =
     ((\<forall>b bkt k body b'. put_object api b bkt k body = (None, b') \<longrightarrow> get b' = (get b)((bkt, k) := Some body))
      \<and> (\<forall>b bkt k b'. delete_object api b bkt k = (None, b') \<longrightarrow> get b' = (get b)((bkt, k) := None)))"

lemma UploadMany_step:
  assumes "UploadMany h api (Some cfg) w (f # fs) b = ((us, None), b')" "Enabled (Some cfg)"
  obtains body b1 us1 where "read_file h w (bfPath f) = Inr body"
    "put_object api b (s3cBucket cfg) (s3_key cfg f) body = (None, b1)"
    "UploadMany h api (Some cfg) w fs b1 = ((us1, None), b')"
proof -
  obtain r b1 where 1: "Upload h api (Some cfg) w f b = (r, b1)" by fastforce
  with assms obtain u where u: "r = Inr u" by (cases r) auto
  with 1 assms obtain us1 where "UploadMany h api (Some cfg) w fs b1 = ((us1, None), b')"
    by (auto split: prod.splits)
  moreover from 1 u assms obtain body where "read_file h w (bfPath f) = Inr body"
    "put_object api b (s3cBucket cfg) (s3_key cfg f) body = (None, b1)"
    by (auto simp: Upload_def split: sum.splits prod.splits option.splits)
  ultimately show ?thesis using that by blast
qed

lemma UploadMany_frame:
  assumes "honest api get" "Enabled (Some cfg)" "UploadMany h api (Some cfg) w fs b = ((us, None), b')"
    "k \<notin> s3_key cfg ` set fs"
  shows "get b' (s3cBucket cfg, k) = get b (s3cBucket cfg, k)"
  using assms(3,4)
proof (induction fs arbitrary: b us)
  case (Cons f fs)
  from UploadMany_step [OF Cons.prems(1) assms(2)] obtain body b1 us1 where
    "put_object api b (s3cBucket cfg) (s3_key cfg f) body = (None, b1)"
    "UploadMany h api (Some cfg) w fs b1 = ((us1, None), b')" by blast
  moreover from this(1) have "get b1 (s3cBucket cfg, k) = get b (s3cBucket cfg, k)"
    using assms(1) Cons.prems(2) by (auto simp: honest_def)
  ultimately show ?case using Cons.IH [of b1 us1] Cons.prems(2) by simp
qed simp

lemma UploadMany_get:
  assumes "honest api get" "Enabled (Some cfg)" "UploadMany h api (Some cfg) w fs b = ((us, None), b')"
    "\<forall>f \<in> set fs. \<forall>g \<in> set fs. s3_key cfg f = s3_key cfg g \<longrightarrow> bfPath f = bfPath g" "f \<in> set fs"
  shows "\<exists>body. read_file h w (bfPath f) = Inr body \<and> get b' (s3cBucket cfg, s3_key cfg f) = Some body"
  using assms(3-5)
proof (induction fs arbitrary: b us f)
  case (Cons g fs)
  from UploadMany_step [OF Cons.prems(1) assms(2)] obtain body b1 us1 where
    1: "put_object api b (s3cBucket cfg) (s3_key cfg g) body = (None, b1)"
    "read_file h w (bfPath g) = Inr body" "UploadMany h api (Some cfg) w fs b1 = ((us1, None), b')" by blast
  show ?case
  proof (cases "s3_key cfg f \<in> s3_key cfg ` set fs")
    case True
    then obtain f' where f': "f' \<in> set fs" "s3_key cfg f' = s3_key cfg f" by auto
    have "bfPath f' = bfPath f"
      using Cons.prems(2) [rule_format, of f' f] f'(1) Cons.prems(3) f'(2) by simp
    moreover have "\<exists>body. read_file h w (bfPath f') = Inr body
        \<and> get b' (s3cBucket cfg, s3_key cfg f') = Some body"
      by (rule Cons.IH [OF 1(3) _ f'(1)]) (use Cons.prems(2) in \<open>meson list.set_intros(2)\<close>)
    ultimately show ?thesis using f'(2) by simp
  next
    case False
    with Cons.prems(3) have "f = g" by auto
    moreover have "get b1 (s3cBucket cfg, s3_key cfg g) = Some body" using 1(1) assms(1) by (auto simp: honest_def)
    ultimately show ?thesis using UploadMany_frame [OF assms(1,2) 1(3) False] 1(2) by simp
  qed
qed simp

lemma delete_objects_get:
  assumes "honest api get" "delete_objects api cfg fs b = (None, b')"
  shows "get b' (bkt, k) = (if bkt = s3cBucket cfg \<and> k \<in> s3_key cfg ` set fs then None else get b (bkt, k))"
  using assms(2)
proof (induction fs arbitrary: b)
  case (Cons f fs)
  then obtain b1 where "delete_object api b (s3cBucket cfg) (s3_key cfg f) = (None, b1)"
    "delete_objects api cfg fs b1 = (None, b')" by (auto split: prod.splits option.splits)
  moreover from this(1) have "get b1 = (get b)((s3cBucket cfg, s3_key cfg f) := None)"
    using assms(1) by (auto simp: honest_def)
  ultimately show ?case using Cons.IH [of b1] by auto
qed simp

lemma Prune_outcome:
  assumes "no_faults h" "wf_files w" "list_all plain cs" "\<And>ks. set (visit ks) = set ks"
    "Prune h visit (rooted_path cs) opts w = ((deleted, None), w')"
  shows "(\<forall>g \<in> set deleted. backup_at w cs g) \<and> without (bfPath ` set deleted) w w'"
proof (cases "prKeepDays opts \<le> 0 \<and> prKeepCount opts \<le> 0")
  case True
  with assms(5) show ?thesis by (simp add: Prune_def)
next
  case False
  with assms(5) obtain fs where fs: "ListFiles h (rooted_path cs) w = Inr fs"
    by (auto simp: Prune_def split: sum.splits)
  have "0 < prKeepDays opts \<or> 0 < prKeepCount opts" using False by auto
  with Prune_all [OF assms(1-4) _ fs, of opts] assms(5) ListFiles_dir [OF assms(1) fs assms(3,2)]
  show ?thesis by auto
qed

text \<open>The retention removes the same files from the disk and from the bucket.\<close>

lemma applyRetention_ok:
  assumes "applyRetention h api ord s rep retention st = ((rep', None), st')"
    "honest api get" "svClient s = Some cfg" "Enabled (Some cfg)" "svBackupsDir s = rooted_path cs"
    "no_faults h" "wf_files (machine st)" "list_all plain cs" "\<And>ks. set (ordGroups ord ks) = set ks"
  shows "\<exists>deleted. (\<forall>g \<in> set deleted. backup_at (machine st) cs g)
    \<and> without (bfPath ` set deleted) (machine st) (machine st')
    \<and> (\<forall>k. get (bucket st') (s3cBucket cfg, k) =
         (if k \<in> s3_key cfg ` set deleted then None else get (bucket st) (s3cBucket cfg, k)))"
proof -
  obtain deleted w1 where p: "Prune h (ordGroups ord) (rooted_path cs) retention (machine st) = ((deleted, None), w1)"
    "machine st' = w1" "deleted = [] \<and> bucket st' = bucket st
       \<or> delete_objects api cfg deleted (bucket st) = (None, bucket st')"
    using assms(1,3,4,5)
    by (auto simp: applyRetention_def DeleteMany_def split: prod.splits option.splits if_splits)
  note o = Prune_outcome [OF assms(6-9) p(1)]
  have "get (bucket st') (s3cBucket cfg, k) =
      (if k \<in> s3_key cfg ` set deleted then None else get (bucket st) (s3cBucket cfg, k))" for k
    using p(3) delete_objects_get [OF assms(2), of cfg deleted "bucket st" "bucket st'" "s3cBucket cfg" k] by auto
  with o p(2) show ?thesis by auto
qed

section \<open>A whole run\<close>

lemma dumped_facts:
  assumes "dumped cs b" "list_all plain cs"
  shows "name_pattern (bkApp b)" "plain (bkApp b)" "plain (pathBase (bkPath b))"
    "bkPath b = rooted_path (cs @ [bkApp b, pathBase (bkPath b)])" "clean (bkPath b) = bkPath b"
proof -
  obtain t where t: "name_pattern (bkApp b)" "bkService b \<in> {Postgres, Redis, RabbitMQ, AIStor, MongoDB}"
    "bkPath b = dump_path cs (bkApp b) t (bkService b)" using assms(1) by (auto simp: dumped_def)
  note n = pathBase_dump [OF t(2), of cs "bkApp b" t, folded t(3)]
  show "name_pattern (bkApp b)" "plain (bkApp b)" "plain (pathBase (bkPath b))"
    using t(1) name_plain [OF t(1)] plain_backup_name [OF t(2)] n by simp_all
  show p: "bkPath b = rooted_path (cs @ [bkApp b, pathBase (bkPath b)])"
    unfolding n by (subst t(3)) (simp add: dump_path_def)
  show "clean (bkPath b) = bkPath b"
    by (subst (1 2) t(3)) (simp only: dump_path_def clean_rooted [OF plain_dump [OF t(1,2) assms(2)]])
qed

lemma convert_file_sel [simp]:
  "bfApp (convert_file f) = bkApp f" "bfName (convert_file f) = pathBase (bkPath f)"
  "bfPath (convert_file f) = bkPath f" "bfService (convert_file f) = bkService f"
  by (simp_all add: convert_file_def)

lemma dump_keys:
  assumes "dumped cs f" "list_all plain cs"
  shows "backup_at w cs g \<Longrightarrow> s3_key cfg (convert_file f) = s3_key cfg g \<Longrightarrow> bkPath f = bfPath g"
    and "dumped cs f' \<Longrightarrow> s3_key cfg (convert_file f) = s3_key cfg (convert_file f') \<Longrightarrow> bkPath f = bkPath f'"
proof -
  assume g: "backup_at w cs g" "s3_key cfg (convert_file f) = s3_key cfg g"
  have "plain (bfApp g)" "plain (bfName g)" "bfPath g = rooted_path (cs @ [bfApp g, bfName g])"
    using g(1) name_plain by (auto simp: backup_at_def)
  with s3_key_inj [of "convert_file f" g cfg] dumped_facts [OF assms] g(2) show "bkPath f = bfPath g" by simp
next
  assume "dumped cs f'" "s3_key cfg (convert_file f) = s3_key cfg (convert_file f')"
  with s3_key_inj [of "convert_file f" "convert_file f'" cfg] dumped_facts [OF assms]
    dumped_facts [OF _ assms(2), of f'] show "bkPath f = bkPath f'" by simp
qed

text \<open>
  After an upload and a retention, from the world \<open>w1\<close> of the dumps to \<open>w2\<close> with the bucket \<open>b2\<close>: a dump that is
  still there has its object, and a backup that is gone has none.
\<close>

lemma dump_mirrored:
  assumes store: "honest api get" "Enabled (Some cfg)"
    and up: "UploadMany h api (Some cfg) w1 (convertFiles fs) b = ((us, None), b1)"
    and dumps: "\<forall>f \<in> set fs. dumped cs f" "list_all plain cs"
    and gone: "\<forall>g \<in> set ds. backup_at w1 cs g" "without (bfPath ` set ds) w1 w2"
      "\<forall>k. get b2 (s3cBucket cfg, k) = (if k \<in> s3_key cfg ` set ds then None else get b1 (s3cBucket cfg, k))"
    and f: "f \<in> set fs" "lookup_file w2 (bkPath f) \<noteq> None"
  shows "\<exists>body t. lookup_file w2 (bkPath f) = Some (File body t)
    \<and> get b2 (s3cBucket cfg, s3_key cfg (convert_file f)) = Some body"
proof -
  have paths: "\<forall>x \<in> set (convertFiles fs). \<forall>y \<in> set (convertFiles fs). s3_key cfg x = s3_key cfg y \<longrightarrow> bfPath x = bfPath y"
  proof (intro ballI impI)
    fix x y assume xy: "x \<in> set (convertFiles fs)" "y \<in> set (convertFiles fs)" "s3_key cfg x = s3_key cfg y"
    then obtain p q where "p \<in> set fs" "x = convert_file p" "q \<in> set fs" "y = convert_file q"
      by (auto simp: convertFiles_def)
    with dump_keys(2) [of cs p q] dumps xy(3) show "bfPath x = bfPath y" by simp
  qed
  have keep: "bkPath f \<notin> bfPath ` set ds" using f(2) by (auto simp: without_lookup [OF gone(2)])
  have "\<exists>body. read_file h w1 (bkPath f) = Inr body \<and> get b1 (s3cBucket cfg, s3_key cfg (convert_file f)) = Some body"
    by (rule UploadMany_get [OF store up paths, of "convert_file f", unfolded convert_file_sel])
      (use f in \<open>simp add: convertFiles_def\<close>)
  then obtain body where b: "read_file h w1 (bkPath f) = Inr body"
    "get b1 (s3cBucket cfg, s3_key cfg (convert_file f)) = Some body" by blast
  have "s3_key cfg (convert_file f) \<notin> s3_key cfg ` set ds"
    using dump_keys(1) [of cs f] dumps f(1) gone(1) keep by blast
  with gone(3) b(2) have "get b2 (s3cBucket cfg, s3_key cfg (convert_file f)) = Some body" by simp
  moreover have "lookup_file w2 (bkPath f) = lookup_file w1 (bkPath f)"
    using f(2) by (auto simp: without_lookup [OF gone(2)])
  moreover have "\<exists>t. lookup_file w1 (bkPath f) = Some (File body t)"
    using b(1) by (auto simp: read_file_def split: option.splits fnode.splits)
  ultimately show ?thesis by auto
qed

lemma deletion_mirrored:
  assumes "\<forall>g \<in> set ds. backup_at w1 cs g" "without (bfPath ` set ds) w1 w2" "list_all plain cs"
    "\<forall>k \<in> s3_key cfg ` set ds. get b2 (bk, k) = None" "backup_at w1 cs g" "lookup_file w2 (bfPath g) = None"
  shows "get b2 (bk, s3_key cfg g) = None"
proof -
  have "lookup_file w1 (bfPath g) \<noteq> None" using assms(5) by (auto simp: backup_at_def)
  then have "clean (bfPath g) \<in> clean ` bfPath ` set ds"
    using assms(6) by (auto simp: without_lookup [OF assms(2)] split: if_splits)
  then obtain f where "f \<in> set ds" "clean (bfPath f) = clean (bfPath g)" by auto
  moreover with assms(1) backup_at_same [OF _ assms(5,3)] have "f = g" by blast
  ultimately show ?thesis using assms(4) by simp
qed

lemma mirror_run:
  assumes run: "BackupWithRetention h api ord s app all services retention st = ((res, None), st')"
    and store: "honest api get" "svClient s = Some cfg" "s3cBucket cfg \<noteq> []"
    and dir: "BackupsDir (svEngine s) = rooted_path cs" "svBackupsDir s = rooted_path cs" "list_all plain cs"
    and disk: "no_faults h" "wf_files (machine st)" "\<And>ks. set (ordGroups ord ks) = set ks"
  shows "\<exists>w1. engine_backup h ord s app all services (machine st) = (Inr (rrFiles res), w1)
    \<and> (\<forall>f \<in> set (rrFiles res). lookup_file (machine st') (bkPath f) \<noteq> None \<longrightarrow>
         (\<exists>body t. lookup_file (machine st') (bkPath f) = Some (File body t)
           \<and> get (bucket st') (s3cBucket cfg, s3_key cfg (convert_file f)) = Some body))
    \<and> (\<forall>g. backup_at w1 cs g \<and> lookup_file (machine st') (bfPath g) = None \<longrightarrow>
         get (bucket st') (s3cBucket cfg, s3_key cfg g) = None)"
proof -
  have en: "Enabled (Some cfg)" using store(3) by (simp add: Enabled_def)
  obtain fs w1 rep where e: "engine_backup h ord s app all services (machine st) = (Inr fs, w1)" "rrFiles res = fs"
    "finish_backup h api ord s retention fs (captured (machine st) w1) (st\<lparr>machine := w1\<rparr>) = ((rep, None), st')"
    using run by (auto simp: BackupWithRetention_def split: sum.splits prod.splits)
  note d = engine_backup_dumped [OF e(1) dir(1,3) disk(2)]
  obtain us b1 rep1 where u: "fs \<noteq> [] \<Longrightarrow> UploadMany h api (Some cfg) w1 (convertFiles fs) (bucket st) = ((us, None), b1)"
    "applyRetention h api ord s rep1 retention \<lparr>machine = w1, bucket = (if fs = [] then bucket st else b1)\<rparr> = ((rep, None), st')"
    using e(3) en store(2) by (cases "fs = []"; cases st) (auto simp: finish_backup_def split: prod.splits option.splits)
  from applyRetention_ok [OF u(2) store(1,2) en dir(2) disk(1) _ dir(3) disk(3)] d obtain deleted where r:
    "\<forall>g \<in> set deleted. backup_at w1 cs g" "without (bfPath ` set deleted) w1 (machine st')"
    "\<forall>k. get (bucket st') (s3cBucket cfg, k) = (if k \<in> s3_key cfg ` set deleted then None
       else get (if fs = [] then bucket st else b1) (s3cBucket cfg, k))" by auto
  have up: "\<exists>body t. lookup_file (machine st') (bkPath f) = Some (File body t)
      \<and> get (bucket st') (s3cBucket cfg, s3_key cfg (convert_file f)) = Some body"
    if f: "f \<in> set fs" "lookup_file (machine st') (bkPath f) \<noteq> None" for f
  proof -
    from f(1) have ne: "fs \<noteq> []" by auto
    have "\<forall>x \<in> set fs. dumped cs x" using d by simp
    moreover have "\<forall>k. get (bucket st') (s3cBucket cfg, k)
        = (if k \<in> s3_key cfg ` set deleted then None else get b1 (s3cBucket cfg, k))" using r(3) ne by simp
    ultimately show ?thesis by (rule dump_mirrored [OF store(1) en u(1) [OF ne] _ dir(3) r(1,2) _ f])
  qed
  have "\<forall>k \<in> s3_key cfg ` set deleted. get (bucket st') (s3cBucket cfg, k) = None" using r(3) by simp
  then have down: "get (bucket st') (s3cBucket cfg, s3_key cfg g) = None"
    if "backup_at w1 cs g" "lookup_file (machine st') (bfPath g) = None" for g
    using that by (rule deletion_mirrored [OF r(1,2) dir(3)])
  show ?thesis using e(1,2) up down by blast
qed

lemma run_succeeds:
  assumes "BackupApp h (svEngine s) app services (machine st) = (Inr out, w1)"
    "svClient s = Some cfg" "s3cBucket cfg \<noteq> []" "BackupsDir (svEngine s) = rooted_path cs" "list_all plain cs"
    "no_faults h" "\<And>b bkt k body. fst (put_object api b bkt k body) = None"
  shows "\<exists>res st'. BackupWithRetention h api ord s app False services no_retention st = ((res, None), st')"
proof -
  have up: "\<exists>us b'. UploadMany h api (Some cfg) w1 fs b = ((us, None), b')"
    if "\<forall>f \<in> set fs. \<exists>c t. lookup_file w1 (bfPath f) = Some (File c t)" for fs b
    using that
  proof (induction fs arbitrary: b)
    case (Cons f fs)
    then obtain c t where c: "lookup_file w1 (bfPath f) = Some (File c t)" by auto
    obtain b1 where b1: "put_object api b (s3cBucket cfg) (s3_key cfg f) c = (None, b1)"
      using assms(7) by (metis prod.collapse)
    obtain us b' where "UploadMany h api (Some cfg) w1 fs b1 = ((us, None), b')" using Cons by fastforce
    with c b1 assms(3,6) show ?case
      by (simp add: Upload_def Enabled_def read_file_ok [OF no_faults_reads])
  qed simp
  have "\<forall>f \<in> set (convertFiles out). \<exists>c t. lookup_file w1 (bfPath f) = Some (File c t)"
    using BackupApp_spec [OF assms(1,4,5)] by (auto simp: convertFiles_def)
  from up [OF this] obtain us b' where
    "UploadMany h api (Some cfg) w1 (convertFiles out) (bucket st) = ((us, None), b')" by blast
  then show ?thesis
    using assms(1,2,3)
    by (simp add: BackupWithRetention_def engine_backup_def finish_backup_def Enabled_def applyRetention_def
        Prune_def no_retention_def)
qed

section \<open>An outage\<close>

lemma down_no_file:
  assumes "\<And>d args i. trim_space (stdout (fst (docker_run h d args i))) \<noteq> ''true''"
  shows "fst (backup_service h appDir app ts svc w) = None"
    and "fst (backup_services h appDir app ts svcs w) = []"
proof -
  have "\<not> fst (IsContainerRunning h c w)" for c w
    using assms [of "daemon w" "[''inspect'', ''--format={{.State.Running}}'', c]" None]
    by (auto simp: IsContainerRunning_def run_docker_def split: prod.split)
  note down = this
  show one: "fst (backup_service h appDir app ts svc w) = None" for svc w
  proof -
    obtain b w1 where "IsContainerRunning h (serviceContainer svc) w = (b, w1)" by fastforce
    with down [of "serviceContainer svc" w] show ?thesis by (simp add: backup_service_def)
  qed
  show "fst (backup_services h appDir app ts svcs w) = []"
  proof (induction svcs arbitrary: w)
    case (Cons svc svcs)
    obtain f w1 where "backup_service h appDir app ts svc w = (f, w1)" by fastforce
    moreover from this one [of svc w] have "f = None" by simp
    ultimately show ?case using Cons [of w1] by (auto split: prod.split)
  qed simp
qed

lemma down_BackupApp:
  assumes "\<And>d args i. trim_space (stdout (fst (docker_run h d args i))) \<noteq> ''true''"
    "BackupApp h eng app services w = (Inr out, w')"
  shows "out = []"
  using assms(2) down_no_file(2) [OF assms(1)]
  by (auto simp: BackupApp_def Let_def split: option.splits sum.splits if_splits prod.splits) (metis fst_conv)

lemma down_backup_each:
  assumes "\<And>d args i. trim_space (stdout (fst (docker_run h d args i))) \<noteq> ''true''"
  shows "fst (backup_each h eng services names w) = []"
proof (induction names arbitrary: w)
  case (Cons name names)
  obtain r w1 where 1: "BackupApp h eng name services (emit Title (''backing up '' @ quote name) w) = (r, w1)" by fastforce
  then have "\<forall>out. r = Inr out \<longrightarrow> out = []" using down_BackupApp [OF assms] by blast
  with 1 Cons show ?case by (auto split: prod.split sum.split) (metis fst_conv)+
qed simp

lemma down_engine:
  assumes "\<And>d args i. trim_space (stdout (fst (docker_run h d args i))) \<noteq> ''true''"
    "engine_backup h ord s app all services w = (Inr out, w')"
  shows "out = []"
proof (cases all)
  case True
  with assms(2) down_backup_each [OF assms(1)] show ?thesis
    by (auto simp: engine_backup_def BackupAll_def split: sum.splits if_splits prod.splits) (metis fst_conv)
next
  case False
  with assms(2) down_BackupApp [OF assms(1)] show ?thesis by (simp add: engine_backup_def)
qed

section \<open>Properties\<close>

text \<open>C18: after a successful run with an object store that keeps its word, every dump of the run that the
  retention left on disk is in the bucket under its key with the same bytes, and every backup the
  retention removed from disk is gone from the bucket: no two backups share a key, whatever the prefix.\<close>

theorem run_mirrored:
  assumes "BackupWithRetention h api ord s app all services retention st = ((res, None), st')"
    "honest api get" "svClient s = Some cfg" "s3cBucket cfg \<noteq> []"
    "BackupsDir (svEngine s) = rooted_path cs" "svBackupsDir s = rooted_path cs" "list_all plain cs"
    "no_faults h" "wf_files (machine st)" "\<And>ks. set (ordGroups ord ks) = set ks"
  shows "\<exists>w1. engine_backup h ord s app all services (machine st) = (Inr (rrFiles res), w1)
    \<and> (\<forall>f \<in> set (rrFiles res). lookup_file (machine st') (bkPath f) \<noteq> None \<longrightarrow>
         (\<exists>body t. lookup_file (machine st') (bkPath f) = Some (File body t)
           \<and> get (bucket st') (s3cBucket cfg, s3_key cfg (convert_file f)) = Some body))
    \<and> (\<forall>g. backup_at w1 cs g \<and> lookup_file (machine st') (bfPath g) = None \<longrightarrow>
         get (bucket st') (s3cBucket cfg, s3_key cfg g) = None)"
  by (rule mirror_run [OF assms])

text \<open>A bucket that is the map it holds, and a service over the demo disk.\<close>

definition demo_store :: "(string \<times> string \<Rightarrow> string option) store_api" where
  "demo_store = \<lparr>put_object = (\<lambda>b bkt k body. (None, b((bkt, k) := Some body))),
                 delete_object = (\<lambda>b bkt k. (None, b((bkt, k) := None)))\<rparr>"

definition demo_orders :: orders where
  "demo_orders = \<lparr>ordApps = rev, ordGroups = rev\<rparr>"

definition demo_s3 :: S3Config where
  "demo_s3 = \<lparr>s3cBucket = ''shelf'', s3cRegion = [], s3cPrefix = ''/nightly/'', s3cEndpoint = [],
     s3cForcePathStyle = False, s3cAccessKeyID = [], s3cSecretAccessKey = [], s3cSessionToken = []\<rparr>"

definition demo_service :: Service where
  "demo_service = \<lparr>svEngine = demo_engine, svBackupsDir = ''/d/backups'', svClient = Some demo_s3\<rparr>"

definition demo_site :: "(unit, string \<times> string \<Rightarrow> string option) site" where
  "demo_site = \<lparr>machine = demo_saved, bucket = (\<lambda>_. None)\<rparr>"

lemma demo_service_facts:
  "honest demo_store (\<lambda>b. b)" "svClient demo_service = Some demo_s3" "s3cBucket demo_s3 \<noteq> []"
  "BackupsDir (svEngine demo_service) = rooted_path [''d'', ''backups'']"
  "svBackupsDir demo_service = rooted_path [''d'', ''backups'']" "list_all plain [''d'', ''backups'']"
  "set (ordGroups demo_orders ks) = set ks"
  using demo_backups_dir
  by (simp_all add: honest_def demo_store_def demo_service_def demo_s3_def demo_orders_def demo_engine_def)

lemma put_file_wf: "wf_files w \<Longrightarrow> clean (clean p) = clean p \<Longrightarrow> wf_files (put_file p n w)"
  by (auto simp: wf_files_def put_file_def split: if_splits)

lemma drop_file_wf: "wf_files w \<Longrightarrow> wf_files (drop_file p w)"
  by (auto simp: wf_files_def drop_file_def)

lemma tick_wf [simp]: "wf_files (w\<lparr>tick := t\<rparr>) = wf_files w"
  by (simp add: wf_files_def)

lemma atomicWrite_wf:
  assumes "path_dir path = rooted_path ds" "list_all plain ds" "clean (clean path) = clean path"
    "clean (clean (path @ ''.tmp'')) = clean (path @ ''.tmp'')" "wf_files w"
  shows "wf_files (snd (atomicWrite h path payload w))"
proof -
  obtain e w1 where 1: "mkdir_all h (path_dir path) w = (e, w1)" by fastforce
  have w1: "wf_files w1" using mkdir_all_wf [OF 1 [unfolded assms(1)] assms(2,5)] .
  obtain e2 w2 where 2: "write_file h (path @ ''.tmp'') payload w1 = (e2, w2)" by fastforce
  have w2: "wf_files w2"
    using 2 w1 put_file_wf [OF w1 assms(4)]
    by (auto simp: write_file_def split: option.splits fnode.splits)
  obtain e3 w3 where 3: "rename_file h (path @ ''.tmp'') path w2 = (e3, w3)" by fastforce
  have w3: "wf_files w3"
    using 3 w2 put_file_wf [OF drop_file_wf [OF w2] assms(3)]
    by (auto simp: rename_file_def split: option.splits fnode.splits)
  have "wf_files (snd (remove_file h (path @ ''.tmp'') w3))"
    using w3 drop_file_wf [OF w3] by (simp add: remove_file_def split: option.splits fnode.splits)
  with 1 2 3 w1 w2 w3 show ?thesis by (simp add: atomicWrite_def split: option.splits)
qed

lemma demo_saved_wf: "wf_files demo_saved"
proof -
  have c: "path_dir ''/d/apps.json'' = rooted_path [''d'']" "clean (clean ''/d/apps.json'') = clean ''/d/apps.json''"
    "clean (clean (''/d/apps.json'' @ ''.tmp'')) = clean (''/d/apps.json'' @ ''.tmp'')" "list_all plain [''d'']"
    by code_simp+
  have [simp]: "wf_files demo_world" by (simp add: wf_files_def demo_world_def)
  have a: "wf_files (snd (atomicWrite h ''/d/apps.json'' payload (demo_world\<lparr>tick := t\<rparr>)))"
    "wf_files (snd (atomicWrite h ''/d/apps.json'' payload demo_world))" for h :: "unit host" and payload t
    by (intro atomicWrite_wf [OF c(1,4,2,3)]; simp)+
  show ?thesis
    unfolding demo_saved_def store_save_def Let_def
    using a by (auto split: sum.split prod.split dest!: encryptRegistry_sel(3))
qed

theorem run_mirrored_witness:
  "\<exists>res st'. BackupWithRetention demo_host demo_store demo_orders demo_service ''shop'' False [] no_retention demo_site
       = ((res, None), st')
     \<and> (\<forall>f \<in> set (rrFiles res). lookup_file (machine st') (bkPath f) \<noteq> None \<longrightarrow>
          bucket st' (''shelf'', s3_key demo_s3 (convert_file f)) \<noteq> None)"
proof -
  obtain out w1 where "BackupApp demo_host (svEngine demo_service) ''shop'' [] (machine demo_site) = (Inr out, w1)"
    using demo_BackupApp by (auto simp: demo_service_def demo_site_def)
  from run_succeeds [OF this demo_service_facts(2-4,6) demo_facts(1), of demo_store demo_orders] obtain res st' where
    r: "BackupWithRetention demo_host demo_store demo_orders demo_service ''shop'' False [] no_retention demo_site
       = ((res, None), st')" by (auto simp: demo_store_def)
  have "wf_files (machine demo_site)" using demo_saved_wf by (simp add: demo_site_def)
  from run_mirrored [OF r demo_service_facts(1-6) demo_facts(1) this demo_service_facts(7)] r show ?thesis
    by (auto simp: demo_s3_def)
qed

text \<open>C19: deleting a backup removes one file and one object: the two addressed by its app and name.\<close>

theorem delete_everywhere:
  assumes "service_delete h api s app name st = ((f, None), st')" "honest api get" "svClient s = Some cfg"
    "s3cBucket cfg \<noteq> []" "is_abs (svBackupsDir s)"
  shows "bfApp f = app \<and> bfName f = name
    \<and> (\<forall>q. lookup_file (machine st') q = (if clean q = bfPath f then None else lookup_file (machine st) q))
    \<and> get (bucket st') = (get (bucket st))((s3cBucket cfg, s3_key cfg f) := None)
    \<and> (\<exists>cs. path_abs h (svBackupsDir s) = Inr (rooted_path cs) \<and> bfPath f = rooted_path (cs @ [app, name]))"
proof -
  have en: "Enabled (Some cfg)" using assms(4) by (simp add: Enabled_def)
  obtain w1 where 1: "DeleteFile h (svBackupsDir s) app name (machine st) = (Inr f, w1)" "machine st' = w1"
    "DeleteMany api (Some cfg) [f] (bucket st) = (None, bucket st')"
    using assms(1,3) en by (auto simp: service_delete_def split: prod.splits sum.splits)
  then obtain path where p: "Resolve h (svBackupsDir s) app name (machine st) = Inr path" "bfPath f = path"
    "bfApp f = app" "bfName f = name" "remove_file h path (machine st) = (None, w1)"
    by (auto simp: DeleteFile_def split: sum.splits prod.splits option.splits)
  from Resolve_Inr [OF p(1)] assms(5) obtain cs where cs: "list_all plain cs"
    "path_abs h (svBackupsDir s) = Inr (rooted_path cs)" "path = rooted_path (cs @ [app, name])" "name_pattern app" "plain name"
    by auto
  then have cl: "clean path = path" using name_plain by simp
  have "w1 = drop_file path (machine st)"
    using p(5) by (auto simp: remove_file_def split: option.splits fnode.splits if_splits)
  then have "lookup_file (machine st') q = (if clean q = bfPath f then None else lookup_file (machine st) q)" for q
    using 1(2) p(2) cl by (auto simp: lookup_drop_file)
  moreover have "get (bucket st') = (get (bucket st))((s3cBucket cfg, s3_key cfg f) := None)"
    using 1(3) en assms(2) by (auto simp: DeleteMany_def honest_def split: prod.splits option.splits)
  ultimately show ?thesis using p cs by blast
qed

theorem delete_everywhere_witness:
  "\<exists>f st'. service_delete demo_host demo_store (demo_service\<lparr>svBackupsDir := ''/b''\<rparr>) ''shop'' ''redis_1.json''
       (demo_site\<lparr>machine := demo_backups\<rparr>) = ((f, None), st')
     \<and> lookup_file (machine st') ''/b/shop/redis_1.json'' = None
     \<and> lookup_file (machine st') ''/b/shop/redis_2.json'' = Some (File ''{}'' 2)"
proof -
  have j: "path_join [''/b'', ''shop'', ''redis_1.json''] = ''/b/shop/redis_1.json''"
    "path_rel ''/b'' ''/b/shop/redis_1.json'' = Inr ''shop/redis_1.json''"
    "path_base ''redis_1.json'' = ''redis_1.json''" "DetectService ''redis_1.json'' = ''redis''"
    "is_abs ''/b''" "is_abs ''/b/shop/redis_1.json''" "\<not> has_prefix ''shop/redis_1.json'' ''..''"
    by code_simp+
  have "Resolve demo_host ''/b'' ''shop'' ''redis_1.json'' demo_backups = Inr ''/b/shop/redis_1.json''"
    by (simp add: Resolve_def j path_abs_def stat_def fails_def lookup_file_def demo_backups_clean demo_backups_lookup
        char_class_defs)
  then obtain f st' where d: "service_delete demo_host demo_store (demo_service\<lparr>svBackupsDir := ''/b''\<rparr>) ''shop''
      ''redis_1.json'' (demo_site\<lparr>machine := demo_backups\<rparr>) = ((f, None), st')" "bfPath f = ''/b/shop/redis_1.json''"
    by (simp add: service_delete_def DeleteFile_def stat_def fails_def lookup_file_def demo_backups_clean
        demo_backups_lookup remove_file_def demo_service_def demo_s3_def Enabled_def DeleteMany_def demo_store_def)
  have i: "is_abs (svBackupsDir (demo_service\<lparr>svBackupsDir := ''/b''\<rparr>))" using j(5) by simp
  have c: "svClient (demo_service\<lparr>svBackupsDir := ''/b''\<rparr>) = Some demo_s3" using demo_service_facts(2) by simp
  from delete_everywhere [OF d(1) demo_service_facts(1) c demo_service_facts(3) i]
  have "\<forall>q. lookup_file (machine st') q
      = (if clean q = ''/b/shop/redis_1.json'' then None else lookup_file demo_backups q)"
    using d(2) by simp
  with d(1) show ?thesis
    by (auto simp: demo_backups_clean) (simp add: lookup_file_def demo_backups_clean demo_backups_lookup)
qed



end
