(* ===== verification/Manager.thy ===== *)
theory Manager
  imports ScheduleStore BackupService
begin

text \<open>
  The scheduler (\<open>internal/web/scheduler/manager.go\<close>): which schedules are cron jobs, and what a run of
  one does to the history.

  The cron library and the time zone database are a parameter, \<open>cron_api\<close>: whether an expression is
  accepted, the next time it names in a location, and the name of the location a zone loads.  Its
  jobs are the list \<open>mgCron\<close>, each with the key of the schedule its closure captured.  \<open>BackupRunner\<close>
  is the interface of the same name: any function from a backup request to a result, an error and
  the state it acts on; \<open>backup_runner\<close> states what the manager may expect of one.  \<open>mgActive\<close> are the
  runs in progress, with the job that started them (\<open>None\<close> for a run started by hand): a goroutine
  is between its \<open>StartRun\<close> and its \<open>FinishRun\<close>.  Messages to the process log are not modelled.
\<close>

section \<open>State\<close>

record cron_api =
  crParse :: "string \<Rightarrow> error option"
  crNext :: "string \<Rightarrow> string \<Rightarrow> int \<Rightarrow> int"
  crLocation :: "string \<Rightarrow> string result"

record job =
  jbEntry :: int
  jbSpec :: string
  jbSchedule :: int

record active =
  acJob :: "int option"
  acRun :: int
  acSchedule :: Schedule

record 's manager =
  mgSite :: 's
  mgDb :: db
  mgLocation :: string
  mgCron :: "job list"
  mgNextEntry :: int
  mgEntries :: "(int, int) fmap"
  mgActive :: "active list"

type_synonym 's BackupRunner =
  "string \<Rightarrow> bool \<Rightarrow> string list \<Rightarrow> PruneOptions \<Rightarrow> 's \<Rightarrow> (RunResult \<times> error option) \<times> 's"

definition NewManager :: "cron_api \<Rightarrow> 's \<Rightarrow> db \<Rightarrow> string \<Rightarrow> 's manager result" where
  "NewManager cr site d timezone =
     (case crLocation cr timezone of
        Inl e \<Rightarrow> Inl e
      | Inr location \<Rightarrow>
          Inr \<lparr>mgSite = site, mgDb = d, mgLocation = location, mgCron = [], mgNextEntry = 1,
               mgEntries = fmempty, mgActive = []\<rparr>)"

definition Validate :: "cron_api \<Rightarrow> string \<Rightarrow> error option" where
  "Validate cr expr = crParse cr expr"

section \<open>Jobs\<close>

definition cron_add :: "string \<Rightarrow> int \<Rightarrow> 's manager \<Rightarrow> int \<times> 's manager" where
  "cron_add spec sid m =
     (mgNextEntry m,
      m\<lparr>mgCron := mgCron m @ [\<lparr>jbEntry = mgNextEntry m, jbSpec = spec, jbSchedule = sid\<rparr>],
        mgNextEntry := mgNextEntry m + 1\<rparr>)"

definition job_spec :: "'s manager \<Rightarrow> string \<Rightarrow> string \<Rightarrow> string" where
  "job_spec m location expr =
     (if location \<noteq> mgLocation m then ''CRON_TZ='' @ location @ '' '' @ expr else expr)"

definition addSchedule :: "sql_env \<Rightarrow> cron_api \<Rightarrow> Schedule \<Rightarrow> 's manager \<Rightarrow> error option \<times> 's manager" where
  "addSchedule e cr sch m =
     (case crLocation cr (shTimezone sch) of
        Inl er \<Rightarrow> (Some er, m)
      | Inr location \<Rightarrow>
          (let spec = job_spec m location (shCronExpr sch) in
           case crParse cr spec of
             Some er \<Rightarrow> (Some er, m)
           | None \<Rightarrow>
               (case cron_add spec (shID sch) m of
                  (entry, m1) \<Rightarrow>
                    (let m2 = m1\<lparr>mgEntries := fmupd (shID sch) entry (mgEntries m1)\<rparr> in
                     if crParse cr (shCronExpr sch) = None
                     then (None, m2\<lparr>mgDb := snd (UpdateNextRun e (shID sch)
                            (crNext cr (shCronExpr sch) location (sqClock e (dbTick (mgDb m2)))) (mgDb m2))\<rparr>)
                     else (None, m2)))))"

fun add_enabled :: "sql_env \<Rightarrow> cron_api \<Rightarrow> Schedule list \<Rightarrow> 's manager \<Rightarrow> 's manager" where
  "add_enabled e cr [] m = m"
| "add_enabled e cr (sch # schs) m =
     (if \<not> shEnabled sch then add_enabled e cr schs m
      else add_enabled e cr schs (snd (addSchedule e cr sch m)))"

definition remove_jobs :: "'s manager \<Rightarrow> 's manager" where
  "remove_jobs m =
     m\<lparr>mgCron := filter (\<lambda>j. jbEntry j |\<notin>| fmran (mgEntries m)) (mgCron m), mgEntries := fmempty\<rparr>"

definition Reload :: "sql_env \<Rightarrow> cron_api \<Rightarrow> 's manager \<Rightarrow> error option \<times> 's manager" where
  "Reload e cr m =
     (let m1 = remove_jobs m in
      case ListSchedules e (mgDb m1) of
        (Inl er, d1) \<Rightarrow> (Some er, m1\<lparr>mgDb := d1\<rparr>)
      | (Inr schs, d1) \<Rightarrow> (None, add_enabled e cr schs (m1\<lparr>mgDb := d1\<rparr>)))"

section \<open>Runs\<close>

definition all_apps :: "Schedule \<Rightarrow> bool" where
  "all_apps sch = (shAppName sch = ''*'')"

definition retention_of :: "Schedule \<Rightarrow> PruneOptions" where
  "retention_of sch =
     \<lparr>prAppName = shAppName sch, prAll = all_apps sch, prServices = shServices sch,
      prKeepDays = shRetentionDays sch, prKeepCount = shRetentionCount sch\<rparr>"

definition run_status :: "error option \<Rightarrow> string" where
  "run_status err = (case err of None \<Rightarrow> ''success'' | Some _ \<Rightarrow> ''failed'')"

definition run_output :: "RunResult \<Rightarrow> error option \<Rightarrow> string" where
  "run_output res err =
     (case err of
        None \<Rightarrow> rrLog res
      | Some er \<Rightarrow> (if rrLog res \<noteq> [] then rrLog res @ newline else rrLog res) @ err_text er)"

definition begin_run :: "sql_env \<Rightarrow> Schedule \<Rightarrow> db \<Rightarrow> int result \<times> db" where
  "begin_run e sch d = StartRun e (Some (shID sch)) (shAppName sch) (shServices sch) d"

definition do_run :: "'s BackupRunner \<Rightarrow> Schedule \<Rightarrow> 's \<Rightarrow> (RunResult \<times> error option) \<times> 's" where
  "do_run runner sch st =
     runner (if all_apps sch then [] else shAppName sch) (all_apps sch) (shServices sch) (retention_of sch) st"

definition end_run :: "sql_env \<Rightarrow> int \<Rightarrow> Schedule \<Rightarrow> RunResult \<Rightarrow> error option \<Rightarrow> db \<Rightarrow> db" where
  "end_run e runID sch res err d =
     (let d1 = snd (FinishRun e runID (run_status err) (trim_space (run_output res err)) d) in
      snd (MarkScheduleRun e (shID sch) (run_status err) (BriefOutput (run_output res err))
        (sqClock e (dbTick d1)) d1))"

definition run_schedule :: "'s BackupRunner \<Rightarrow> sql_env \<Rightarrow> Schedule \<Rightarrow> 's manager \<Rightarrow> 's manager" where
  "run_schedule runner e sch m =
     (case begin_run e sch (mgDb m) of
        (Inl er, d1) \<Rightarrow> m\<lparr>mgDb := d1\<rparr>
      | (Inr runID, d1) \<Rightarrow>
          (case do_run runner sch (mgSite m) of
             ((res, err), st) \<Rightarrow> m\<lparr>mgSite := st, mgDb := end_run e runID sch res err d1\<rparr>))"

text \<open>What a cron job does when it fires, and \<open>RunNow\<close> with its goroutine run to the end.\<close>

definition runSchedule :: "'s BackupRunner \<Rightarrow> sql_env \<Rightarrow> int \<Rightarrow> 's manager \<Rightarrow> 's manager" where
  "runSchedule runner e i m =
     (case GetSchedule e i (mgDb m) of
        (Inl er, d1) \<Rightarrow> m\<lparr>mgDb := d1\<rparr>
      | (Inr sch, d1) \<Rightarrow> run_schedule runner e sch (m\<lparr>mgDb := d1\<rparr>))"

definition RunNow :: "'s BackupRunner \<Rightarrow> sql_env \<Rightarrow> int \<Rightarrow> 's manager \<Rightarrow> error option \<times> 's manager" where
  "RunNow runner e i m =
     (case GetSchedule e i (mgDb m) of
        (Inl er, d1) \<Rightarrow> (Some er, m\<lparr>mgDb := d1\<rparr>)
      | (Inr sch, d1) \<Rightarrow> (None, run_schedule runner e sch (m\<lparr>mgDb := d1\<rparr>)))"

section \<open>Texts\<close>

definition DisplayTarget :: "string \<Rightarrow> string" where
  "DisplayTarget app = (if app = ''*'' then ''all apps'' else app)"

definition DisplayServices :: "string list \<Rightarrow> string" where
  "DisplayServices svcs = (if svcs = [] then ''all services'' else join '', '' svcs)"

definition Describe :: "Schedule \<Rightarrow> string" where
  "Describe sch = DisplayTarget (shAppName sch) @ '' / '' @ DisplayServices (shServices sch) @ '' / '' @ shCronExpr sch"

section \<open>Interleavings\<close>

text \<open>
  One step of the running scheduler: a statement of the web server on the schedules, a reload, a run
  that starts (fired by a job that is not still running, or by hand), or one that ends.  A run that
  cannot be recorded does not start.
\<close>

inductive mgr_step :: "'s BackupRunner \<Rightarrow> sql_env \<Rightarrow> cron_api \<Rightarrow> 's manager \<Rightarrow> 's manager \<Rightarrow> bool"
  for runner e cr where
  create: "CreateSchedule e input (mgDb m) = (r, d1) \<Longrightarrow> mgr_step runner e cr m (m\<lparr>mgDb := d1\<rparr>)"
| enable: "SetScheduleEnabled e i b (mgDb m) = (x, d1) \<Longrightarrow> mgr_step runner e cr m (m\<lparr>mgDb := d1\<rparr>)"
| delete: "DeleteSchedule e i (mgDb m) = (x, d1) \<Longrightarrow> mgr_step runner e cr m (m\<lparr>mgDb := d1\<rparr>)"
| list_schedules: "ListSchedules e (mgDb m) = (rs, d1) \<Longrightarrow> mgr_step runner e cr m (m\<lparr>mgDb := d1\<rparr>)"
| list_runs: "ListRuns e scan limit (mgDb m) = (runs, d1) \<Longrightarrow> mgr_step runner e cr m (m\<lparr>mgDb := d1\<rparr>)"
| reload: "Reload e cr m = (x, m') \<Longrightarrow> mgr_step runner e cr m m'"
| fire: "j \<in> set (mgCron m) \<Longrightarrow> Some (jbEntry j) \<notin> acJob ` set (mgActive m) \<Longrightarrow>
    GetSchedule e (jbSchedule j) (mgDb m) = (Inr sch, d1) \<Longrightarrow> begin_run e sch d1 = (Inr runID, d2) \<Longrightarrow>
    mgr_step runner e cr m
      (m\<lparr>mgDb := d2, mgActive := mgActive m @ [\<lparr>acJob = Some (jbEntry j), acRun = runID, acSchedule = sch\<rparr>]\<rparr>)"
| run_now: "GetSchedule e i (mgDb m) = (Inr sch, d1) \<Longrightarrow> begin_run e sch d1 = (Inr runID, d2) \<Longrightarrow>
    mgr_step runner e cr m
      (m\<lparr>mgDb := d2, mgActive := mgActive m @ [\<lparr>acJob = None, acRun = runID, acSchedule = sch\<rparr>]\<rparr>)"
| not_started: "GetSchedule e i (mgDb m) = (Inr sch, d1) \<Longrightarrow> begin_run e sch d1 = (Inl er, d2) \<Longrightarrow>
    mgr_step runner e cr m (m\<lparr>mgDb := d2\<rparr>)"
| not_found: "GetSchedule e i (mgDb m) = (Inl er, d1) \<Longrightarrow> mgr_step runner e cr m (m\<lparr>mgDb := d1\<rparr>)"
| finish: "mgActive m = before @ a # after \<Longrightarrow> do_run runner (acSchedule a) (mgSite m) = ((res, err), st) \<Longrightarrow>
    mgr_step runner e cr m
      (m\<lparr>mgSite := st, mgDb := end_run e (acRun a) (acSchedule a) res err (mgDb m), mgActive := before @ after\<rparr>)"

section \<open>What a runner promises\<close>

text \<open>The log of a run comes trimmed, and the log of a failed run ends with the error (when that is a text
  with nothing to trim).\<close>

definition solid :: "string \<Rightarrow> bool" where
  "solid s = (s \<noteq> [] \<and> graphic (hd s) \<and> graphic (last s))"

locale backup_runner =
  fixes runner :: "'s BackupRunner"
  assumes log_trimmed: "runner app all svcs ret st = ((res, err), st') \<Longrightarrow> trim_space (rrLog res) = rrLog res"
    and error_last: "runner app all svcs ret st = ((res, Some er), st') \<Longrightarrow> solid (err_text er) \<Longrightarrow>
      has_suffix (rrLog res) (err_text er)"
begin

lemma success_output:
  assumes "runner app all svcs ret st = ((res, None), st')"
  shows "trim_space (run_output res None) = rrLog res"
  using log_trimmed [OF assms] by (simp add: run_output_def)

lemma failure_output:
  assumes "runner app all svcs ret st = ((res, Some er), st')" "solid (err_text er)"
  shows "\<exists>pre. trim_space (run_output res (Some er)) = pre @ err_text er @ newline @ err_text er"
proof -
  from error_last [OF assms] obtain pre where pre: "rrLog res = pre @ err_text er" by (auto simp: has_suffix_iff)
  let ?t = "err_text er @ newline @ err_text er"
  have "?t \<noteq> []" "graphic (hd ?t)" "graphic (last ?t)" using assms(2) by (auto simp: solid_def)
  from trim_space_ends [OF this, of pre] show ?thesis
    using pre assms(2) by (auto simp: run_output_def solid_def has_suffix_iff)
qed

end

text \<open>The backup service keeps the promise.\<close>

lemma join_last: "join sep (ss @ [s]) = (if ss = [] then s else join sep ss @ sep @ s)"
  by (induction sep ss rule: join.induct) auto

lemma log_ends_with:
  assumes "solid t"
  shows "has_suffix (log_string (append_line b t)) t"
proof -
  have "trim_space t = t" using assms by (auto simp: solid_def intro: trim_space_graphic)
  then have "log_string (append_line b t) = trim_space ((if b = [] then [] else join newline b @ newline) @ t)"
    using assms by (simp add: log_string_def append_line_def Let_def solid_def join_last)
  then show ?thesis using trim_space_ends [of t] assms by (simp add: solid_def)
qed

lemma finish_backup_log:
  assumes "finish_backup h api ord s retention fs rep st = ((rep', Some er), st')"
  shows "\<exists>b. rep' = append_line b (err_text er)"
  using assms
  by (auto simp: finish_backup_def applyRetention_def split: if_splits prod.splits option.splits)

interpretation service_runner: backup_runner "\<lambda>app all svcs ret st. BackupWithRetention h api ord s app all svcs ret st"
  for h :: "'d host" and api :: "'b store_api" and ord s
proof unfold_locales
  fix app all svcs ret st res err st'
  assume "BackupWithRetention h api ord s app all svcs ret st = ((res, err), st')"
  then show "trim_space (rrLog res) = rrLog res"
    by (auto simp: BackupWithRetention_def log_string_trimmed split: sum.splits prod.splits)
next
  fix app all svcs ret st res er st'
  assume a: "BackupWithRetention h api ord s app all svcs ret st = ((res, Some er), st')" "solid (err_text er)"
  then show "has_suffix (rrLog res) (err_text er)"
    using log_ends_with [OF a(2)]
    by (auto simp: BackupWithRetention_def split: sum.splits prod.splits dest!: finish_backup_log)
qed

section \<open>The jobs\<close>

text \<open>Each entry of the table is one cron job of that schedule, and there are no others.\<close>

definition jobs_ok :: "'s manager \<Rightarrow> bool" where
  "jobs_ok m =
     (distinct (map jbEntry (mgCron m)) \<and> (\<forall>j \<in> set (mgCron m). jbEntry j < mgNextEntry m)
      \<and> (\<forall>i en. fmlookup (mgEntries m) i = Some en \<longleftrightarrow> (\<exists>j \<in> set (mgCron m). jbEntry j = en \<and> jbSchedule j = i)))"

lemma jobs_ok_unique:
  assumes "jobs_ok m"
  shows "distinct (map jbSchedule (mgCron m))"
proof -
  have "inj_on jbSchedule (set (mgCron m))"
  proof (rule inj_onI)
    fix j k assume jk: "j \<in> set (mgCron m)" "k \<in> set (mgCron m)" "jbSchedule j = jbSchedule k"
    with assms have "fmlookup (mgEntries m) (jbSchedule j) = Some (jbEntry j)"
      "fmlookup (mgEntries m) (jbSchedule j) = Some (jbEntry k)" unfolding jobs_ok_def by metis+
    then have "jbEntry j = jbEntry k" by simp
    with assms jk(1,2) show "j = k" unfolding jobs_ok_def distinct_map inj_on_def by blast
  qed
  moreover have "distinct (mgCron m)" using assms by (auto simp: jobs_ok_def distinct_map)
  ultimately show ?thesis by (simp add: distinct_map)
qed

lemma remove_jobs_empty:
  assumes "jobs_ok m"
  shows "mgCron (remove_jobs m) = []" "mgEntries (remove_jobs m) = fmempty"
  using assms by (auto simp: remove_jobs_def jobs_ok_def filter_empty_conv fmlookup_ran_iff)

lemma remove_jobs_ok: "jobs_ok m \<Longrightarrow> jobs_ok (remove_jobs m)"
  unfolding jobs_ok_def [of "remove_jobs m"] by (simp add: remove_jobs_empty)

lemma jobs_ok_db [simp]: "jobs_ok (m\<lparr>mgDb := d\<rparr>) = jobs_ok m" "jobs_ok (m\<lparr>mgSite := st\<rparr>) = jobs_ok m"
  "jobs_ok (m\<lparr>mgActive := xs\<rparr>) = jobs_ok m"
  by (simp_all add: jobs_ok_def)

text \<open>The job a schedule asks for.\<close>

definition job_for :: "cron_api \<Rightarrow> 's manager \<Rightarrow> Schedule \<Rightarrow> (int \<times> string) option" where
  "job_for cr m sch =
     (if \<not> shEnabled sch then None
      else
        (case crLocation cr (shTimezone sch) of
           Inl _ \<Rightarrow> None
         | Inr location \<Rightarrow>
             (let spec = job_spec m location (shCronExpr sch) in
              if crParse cr spec = None then Some (shID sch, spec) else None)))"

lemma addSchedule_cases:
  assumes "addSchedule e cr sch m = (r, m')" "shEnabled sch"
  shows "mgActive m' = mgActive m \<and> mgSite m' = mgSite m \<and> mgLocation m' = mgLocation m \<and> keeps (mgDb m) (mgDb m')
    \<and> dbRuns (mgDb m') = dbRuns (mgDb m)
    \<and> (case job_for cr m sch of
         None \<Rightarrow> m' = m \<and> r \<noteq> None
       | Some (i, spec) \<Rightarrow> r = None
           \<and> mgCron m' = mgCron m @ [\<lparr>jbEntry = mgNextEntry m, jbSpec = spec, jbSchedule = i\<rparr>]
           \<and> mgNextEntry m' = mgNextEntry m + 1 \<and> mgEntries m' = fmupd i (mgNextEntry m) (mgEntries m))"
proof -
  have u: "keeps d d'" "dbRuns d' = dbRuns d" if "snd (UpdateNextRun e i t d) = d'" for i t d d'
    using that UpdateNextRun_keeps [of e i t d]
    by (auto simp: UpdateNextRun_def sql_do_def exec_only_def update_schedules_def Let_def
        split: option.splits sum.splits prod.splits)
  show ?thesis
    using assms u [OF refl]
    by (auto simp: addSchedule_def job_for_def cron_add_def Let_def split: sum.splits option.splits if_splits)
qed

lemma fmupd_entries:
  assumes "jobs_ok m" "fmlookup (mgEntries m) i = None"
    "mgCron m' = mgCron m @ [\<lparr>jbEntry = mgNextEntry m, jbSpec = spec, jbSchedule = i\<rparr>]"
    "mgNextEntry m' = mgNextEntry m + 1" "mgEntries m' = fmupd i (mgNextEntry m) (mgEntries m)"
  shows "jobs_ok m'"
proof -
  have bound: "\<forall>j \<in> set (mgCron m). jbEntry j < mgNextEntry m" and dist: "distinct (map jbEntry (mgCron m))"
    and lk: "\<And>k en. fmlookup (mgEntries m) k = Some en \<longleftrightarrow> (\<exists>j \<in> set (mgCron m). jbEntry j = en \<and> jbSchedule j = k)"
    using assms(1) by (simp_all add: jobs_ok_def)
  have "distinct (map jbEntry (mgCron m'))" using bound dist by (auto simp: assms(3))
  moreover have "\<forall>j \<in> set (mgCron m'). jbEntry j < mgNextEntry m'" using bound by (auto simp: assms(3,4))
  moreover have none: "jbSchedule j \<noteq> i" if "j \<in> set (mgCron m)" for j
    using lk [of i "jbEntry j"] that assms(2) by auto
  have "fmlookup (mgEntries m') k = Some en \<longleftrightarrow> (\<exists>j \<in> set (mgCron m'). jbEntry j = en \<and> jbSchedule j = k)" for k en
    using lk [of k en] none by (auto simp: assms(3,5))
  ultimately show ?thesis unfolding jobs_ok_def by blast
qed

lemma job_for_cong: "mgLocation m' = mgLocation m \<Longrightarrow> job_for cr m' = job_for cr m"
  by (intro ext) (simp add: job_for_def job_spec_def split: sum.split)

lemma job_for_id: "job_for cr m sch = Some (i, spec) \<Longrightarrow> i = shID sch \<and> shEnabled sch"
  by (auto simp: job_for_def Let_def split: if_splits sum.splits)

lemma add_enabled_jobs:
  assumes "jobs_ok m" "distinct (map shID schs)" "\<forall>sch \<in> set schs. fmlookup (mgEntries m) (shID sch) = None"
  shows "jobs_ok (add_enabled e cr schs m)
    \<and> map (\<lambda>j. (jbSchedule j, jbSpec j)) (mgCron (add_enabled e cr schs m))
        = map (\<lambda>j. (jbSchedule j, jbSpec j)) (mgCron m) @ List.map_filter (job_for cr m) schs
    \<and> mgActive (add_enabled e cr schs m) = mgActive m \<and> mgSite (add_enabled e cr schs m) = mgSite m
    \<and> mgNextEntry m \<le> mgNextEntry (add_enabled e cr schs m)
    \<and> keeps (mgDb m) (mgDb (add_enabled e cr schs m)) \<and> dbRuns (mgDb (add_enabled e cr schs m)) = dbRuns (mgDb m)"
  using assms
proof (induction schs arbitrary: m)
  case (Cons sch schs)
  show ?case
  proof (cases "shEnabled sch")
    case False
    then have "job_for cr m sch = None" by (simp add: job_for_def)
    with False Cons.IH [OF Cons.prems(1)] Cons.prems(2,3) show ?thesis by (simp add: List.map_filter_simps)
  next
    case True
    obtain r m1 where 1: "addSchedule e cr sch m = (r, m1)" by fastforce
    note c = addSchedule_cases [OF 1 True]
    have jf: "job_for cr m1 = job_for cr m" using c by (intro job_for_cong) simp
    show ?thesis
    proof (cases "job_for cr m sch")
      case None
      with c have "m1 = m" by simp
      with None True 1 Cons.IH [OF Cons.prems(1)] Cons.prems(2,3) show ?thesis by (simp add: List.map_filter_simps)
    next
      case (Some p)
      then obtain spec where p: "job_for cr m sch = Some (shID sch, spec)" using job_for_id by (cases p) fastforce
      with c have m1: "mgCron m1 = mgCron m @ [\<lparr>jbEntry = mgNextEntry m, jbSpec = spec, jbSchedule = shID sch\<rparr>]"
        "mgNextEntry m1 = mgNextEntry m + 1" "mgEntries m1 = fmupd (shID sch) (mgNextEntry m) (mgEntries m)" by simp_all
      have "jobs_ok m1" by (rule fmupd_entries [OF Cons.prems(1) _ m1]) (use Cons.prems(3) in simp)
      moreover have "\<forall>s \<in> set schs. fmlookup (mgEntries m1) (shID s) = None"
        using Cons.prems(2,3) by (auto simp: m1(3) image_iff)
      ultimately have IH: "jobs_ok (add_enabled e cr schs m1)
        \<and> map (\<lambda>j. (jbSchedule j, jbSpec j)) (mgCron (add_enabled e cr schs m1))
            = map (\<lambda>j. (jbSchedule j, jbSpec j)) (mgCron m1) @ List.map_filter (job_for cr m) schs
        \<and> mgActive (add_enabled e cr schs m1) = mgActive m1 \<and> mgSite (add_enabled e cr schs m1) = mgSite m1
        \<and> mgNextEntry m1 \<le> mgNextEntry (add_enabled e cr schs m1)
        \<and> keeps (mgDb m1) (mgDb (add_enabled e cr schs m1)) \<and> dbRuns (mgDb (add_enabled e cr schs m1)) = dbRuns (mgDb m1)"
        using Cons.IH [of m1] Cons.prems(2) unfolding jf by simp
      have "keeps (mgDb m) (mgDb (add_enabled e cr schs m1))" using c IH keeps_trans by blast
      with IH c m1 p True 1 show ?thesis by (simp add: List.map_filter_simps)
    qed
  qed
qed (simp add: List.map_filter_simps)

text \<open>The schedules a reload reads, in the order of the list page.\<close>

definition listed :: "db \<Rightarrow> Schedule list" where
  "listed d = map scanSchedule (sort_key (\<lambda>r. - scEnabled r) (sort_key (\<lambda>r. - scID r) (dbSchedules d)))"

lemma listed_ids: "db_ok d \<Longrightarrow> distinct (map shID (listed d))"
proof -
  assume "db_ok d"
  then have "distinct (map scID (dbSchedules d))" by (simp add: db_ok_def)
  then have "distinct (map scID (sort_key (\<lambda>r. - scEnabled r) (sort_key (\<lambda>r. - scID r) (dbSchedules d))))"
    by (simp add: distinct_map)
  then show ?thesis by (simp add: listed_def comp_def scanSchedule_def)
qed

lemma set_listed: "set (listed d) = scanSchedule ` set (dbSchedules d)"
  by (simp add: listed_def)

lemma ListSchedules_listed:
  "ListSchedules e d = (r, d') \<Longrightarrow> d' = d\<lparr>dbTick := Suc (dbTick d)\<rparr> \<and> (\<forall>schs. r = Inr schs \<longrightarrow> schs = listed d)"
  by (auto simp: ListSchedules_def sql_do_def Let_def listed_def split: option.splits)

lemma Reload_all:
  assumes "Reload e cr m = (r, m')" "jobs_ok m" "db_ok (mgDb m)"
  shows "jobs_ok m' \<and> mgActive m' = mgActive m \<and> mgSite m' = mgSite m \<and> mgNextEntry m \<le> mgNextEntry m'
    \<and> keeps (mgDb m) (mgDb m') \<and> dbRuns (mgDb m') = dbRuns (mgDb m)
    \<and> map (\<lambda>j. (jbSchedule j, jbSpec j)) (mgCron m')
        = (if r = None then List.map_filter (job_for cr m) (listed (mgDb m)) else [])"
proof -
  obtain x d1 where 1: "ListSchedules e (mgDb m) = (x, d1)" by fastforce
  note d1 = ListSchedules_listed [OF 1]
  let ?m = "(remove_jobs m)\<lparr>mgDb := d1\<rparr>"
  have m: "jobs_ok ?m" "mgCron ?m = []" "mgEntries ?m = fmempty" "mgActive ?m = mgActive m" "mgSite ?m = mgSite m"
    "mgNextEntry ?m = mgNextEntry m" "mgLocation ?m = mgLocation m"
    using remove_jobs_ok [OF assms(2)] remove_jobs_empty [OF assms(2)] by (simp_all add: remove_jobs_def)
  have k: "keeps (mgDb m) d1" "dbRuns d1 = dbRuns (mgDb m)" using d1 by simp_all
  have db: "mgDb (remove_jobs m) = mgDb m" by (simp add: remove_jobs_def)
  show ?thesis
  proof (cases x)
    case (Inl er)
    then have "r = Some er" "m' = ?m" using assms(1) 1 db by (simp_all add: Reload_def)
    with m k show ?thesis by simp
  next
    case (Inr schs)
    then have r: "r = None" "m' = add_enabled e cr (listed (mgDb m)) ?m"
      using assms(1) 1 d1 db by (simp_all add: Reload_def)
    note a = add_enabled_jobs [OF m(1) listed_ids [OF assms(3)], of e cr]
    have jf: "job_for cr ?m = job_for cr m" by (rule job_for_cong) (simp add: m)
    have "keeps d1 (mgDb m')" using a m(3) r by simp
    then have "keeps (mgDb m) (mgDb m')" using k(1) keeps_trans by blast
    with a m k r jf show ?thesis by simp
  qed
qed

section \<open>The runs in progress\<close>

definition run_view :: "db \<Rightarrow> (int \<times> string \<times> string option) list" where
  "run_view d = map (\<lambda>r. (ruID r, ruStatus r, ruFinished r)) (dbRuns d)"

lemma run_ids_view: "run_ids d = fst ` set (run_view d)"
  by (auto simp: run_ids_def run_view_def image_image)

definition active_ok :: "'s manager \<Rightarrow> bool" where
  "active_ok m =
     (distinct (map acRun (mgActive m))
      \<and> (\<forall>a \<in> set (mgActive m). (acRun a, ''running'', None) \<in> set (run_view (mgDb m)))
      \<and> distinct (List.map_filter acJob (mgActive m))
      \<and> (\<forall>a \<in> set (mgActive m). \<forall>en. acJob a = Some en \<longrightarrow> en < mgNextEntry m))"

text \<open>A run marked running is in progress, or is one of \<open>old\<close>: those an earlier process left behind.\<close>

definition running_ids :: "db \<Rightarrow> int set" where
  "running_ids d = ruID ` {r \<in> set (dbRuns d). ruStatus r = ''running''}"

definition none_forgotten :: "int set \<Rightarrow> 's manager \<Rightarrow> bool" where
  "none_forgotten old m = (running_ids (mgDb m) \<subseteq> acRun ` set (mgActive m) \<union> old)"

lemma running_ids_view: "i \<in> running_ids d \<longleftrightarrow> (\<exists>f. (i, ''running'', f) \<in> set (run_view d))"
  by (force simp: running_ids_def run_view_def)

lemma none_forgotten_view:
  "none_forgotten old m
     \<longleftrightarrow> (\<forall>(i, st, fin) \<in> set (run_view (mgDb m)). st = ''running'' \<longrightarrow> i \<in> acRun ` set (mgActive m) \<union> old)"
  by (auto simp: none_forgotten_def running_ids_view subset_iff)

definition mgr_ok :: "bool \<Rightarrow> int set \<Rightarrow> 's manager \<Rightarrow> bool" where
  "mgr_ok healthy old m = (db_ok (mgDb m) \<and> jobs_ok m \<and> active_ok m \<and> (healthy \<longrightarrow> none_forgotten old m))"

lemma mgr_ok_same_runs:
  assumes "mgr_ok healthy old m" "keeps (mgDb m) d1" "run_view d1 = run_view (mgDb m)"
  shows "mgr_ok healthy old (m\<lparr>mgDb := d1\<rparr>)"
  using assms by (auto simp: mgr_ok_def keeps_def active_ok_def none_forgotten_view)

lemma schedule_statements_view:
  "GetSchedule e i d = (r, d') \<Longrightarrow> run_view d' = run_view d"
  "CreateSchedule e input d = (r, d') \<Longrightarrow> run_view d' = run_view d"
  "SetScheduleEnabled e i b d = (x, d') \<Longrightarrow> run_view d' = run_view d"
  "DeleteSchedule e i d = (x, d') \<Longrightarrow> run_view d' = run_view d"
  "ListSchedules e d = (rs, d') \<Longrightarrow> run_view d' = run_view d"
  "ListRuns e scan limit d = (runs, d') \<Longrightarrow> run_view d' = run_view d"
  "MarkScheduleRun e i st msg t d = (x, d') \<Longrightarrow> run_view d' = run_view d"
proof -
  show get: "GetSchedule e i d = (r, d') \<Longrightarrow> run_view d' = run_view d" for i d r d'
    by (auto simp: GetSchedule_def sql_do_def Let_def run_view_def split: option.splits)
  show "CreateSchedule e input d = (r, d') \<Longrightarrow> run_view d' = run_view d"
    by (auto simp: CreateSchedule_def sql_do_def insert_schedule_def Let_def split: option.splits if_splits dest!: get)
      (simp_all add: run_view_def)
  show "SetScheduleEnabled e i b d = (x, d') \<Longrightarrow> run_view d' = run_view d"
    by (auto simp: SetScheduleEnabled_def exec_checked_def sql_do_def update_schedules_def Let_def run_view_def split: option.splits)
  show "DeleteSchedule e i d = (x, d') \<Longrightarrow> run_view d' = run_view d"
    by (auto simp: DeleteSchedule_def exec_checked_def sql_do_def delete_schedules_def Let_def run_view_def split: option.splits)
  show "ListSchedules e d = (rs, d') \<Longrightarrow> run_view d' = run_view d"
    by (auto simp: ListSchedules_def sql_do_def Let_def run_view_def split: option.splits)
  show "ListRuns e scan limit d = (runs, d') \<Longrightarrow> run_view d' = run_view d"
    by (auto simp: ListRuns_def sql_do_def Let_def run_view_def split: option.splits)
  show "MarkScheduleRun e i st msg t d = (x, d') \<Longrightarrow> run_view d' = run_view d"
    by (auto simp: MarkScheduleRun_def exec_only_def sql_do_def update_schedules_def Let_def run_view_def split: option.splits)
qed

lemma StartRun_view:
  assumes "StartRun e sch app svcs d = (r, d')"
  shows "keeps d d' \<and> (case r of Inl _ \<Rightarrow> run_view d' = run_view d
    | Inr i \<Rightarrow> run_view d' = run_view d @ [(i, ''running'', None)] \<and> i = dbRunSeq d + 1)"
proof -
  have "keeps d d'" using assms by (rule StartRun_keeps)
  moreover have "case r of Inl _ \<Rightarrow> run_view d' = run_view d
      | Inr i \<Rightarrow> run_view d' = run_view d @ [(i, ''running'', None)] \<and> i = dbRunSeq d + 1"
    using assms
    by (auto simp: StartRun_def sql_do_def insert_run_def new_run_row_def Let_def run_view_def
        split: option.splits if_splits)
  ultimately show ?thesis ..
qed

lemma begin_run_view:
  assumes "begin_run e sch d = (r, d')"
  shows "keeps d d' \<and> (case r of Inl _ \<Rightarrow> run_view d' = run_view d
    | Inr i \<Rightarrow> run_view d' = run_view d @ [(i, ''running'', None)] \<and> i = dbRunSeq d + 1)"
  by (rule StartRun_view) (use assms in \<open>simp add: begin_run_def\<close>)

lemma FinishRun_view:
  assumes "FinishRun e i outcome out d = (x, d')"
  shows "run_view d' = run_view d \<and> sqFault e (dbTick d) \<noteq> None
    \<or> (\<exists>t. run_view d' = map (\<lambda>(k, st, fin). if k = i then (k, outcome, Some t) else (k, st, fin)) (run_view d))"
  using assms
  by (auto simp: FinishRun_def exec_checked_def sql_do_def update_runs_def Let_def run_view_def comp_def split: option.splits)

lemma end_run_view:
  "keeps d (end_run e i sch res err d) \<and> (run_view (end_run e i sch res err d) = run_view d
     \<and> sqFault e (dbTick d) \<noteq> None
   \<or> (\<exists>t. run_view (end_run e i sch res err d)
       = map (\<lambda>(k, st, fin). if k = i then (k, run_status err, Some t) else (k, st, fin)) (run_view d)))"
proof -
  obtain x d1 where 1: "FinishRun e i (run_status err) (trim_space (run_output res err)) d = (x, d1)" by fastforce
  obtain y d2 where 2: "MarkScheduleRun e (shID sch) (run_status err) (BriefOutput (run_output res err))
      (sqClock e (dbTick d1)) d1 = (y, d2)" by fastforce
  have "end_run e i sch res err d = d2" using 1 2 by (simp add: end_run_def)
  moreover have "keeps d d2" using FinishRun_keeps [OF 1] MarkScheduleRun_keeps [OF 2] by (rule keeps_trans)
  moreover have "run_view d2 = run_view d1" by (rule schedule_statements_view(7) [OF 2])
  ultimately show ?thesis using FinishRun_view [OF 1] by simp
qed

lemma run_view_fresh: "db_ok d \<Longrightarrow> (i, st, fin) \<in> set (run_view d) \<Longrightarrow> i < dbRunSeq d + 1"
proof -
  assume "db_ok d" "(i, st, fin) \<in> set (run_view d)"
  then have "i \<in> run_ids d" "run_ids d \<subseteq> {0<..dbRunSeq d}"
    by (force simp: run_ids_view, simp add: db_ok_def)
  then show ?thesis by auto
qed

lemma begin_ok:
  assumes ok: "mgr_ok healthy old m" and b: "begin_run e sch (mgDb m) = (Inr i, d2)"
    and j: "\<forall>en. job = Some en \<longrightarrow> en < mgNextEntry m \<and> en \<notin> set (List.map_filter acJob (mgActive m))"
  shows "mgr_ok healthy old (m\<lparr>mgDb := d2, mgActive := mgActive m @ [\<lparr>acJob = job, acRun = i, acSchedule = sch\<rparr>]\<rparr>)"
proof -
  have v: "keeps (mgDb m) d2" "run_view d2 = run_view (mgDb m) @ [(i, ''running'', None)]" "i = dbRunSeq (mgDb m) + 1"
    using begin_run_view [OF b] by simp_all
  have parts: "db_ok (mgDb m)" "jobs_ok m" "active_ok m" "healthy \<longrightarrow> none_forgotten old m"
    using ok by (simp_all add: mgr_ok_def)
  have "acRun a < i" if "a \<in> set (mgActive m)" for a
    using parts(3) that run_view_fresh [OF parts(1)] unfolding active_ok_def v(3) by blast
  then have new: "i \<notin> acRun ` set (mgActive m)" by auto
  have d: "distinct (List.map_filter acJob (mgActive m @ [\<lparr>acJob = job, acRun = i, acSchedule = sch\<rparr>]))"
    using parts(3) j by (cases job) (simp_all add: active_ok_def List.map_filter_def)
  have "active_ok (m\<lparr>mgDb := d2, mgActive := mgActive m @ [\<lparr>acJob = job, acRun = i, acSchedule = sch\<rparr>]\<rparr>)"
    using parts(3) new d j unfolding active_ok_def by (simp add: v(2))
  moreover have "healthy \<longrightarrow> none_forgotten old (m\<lparr>mgDb := d2, mgActive := mgActive m @ [\<lparr>acJob = job, acRun = i, acSchedule = sch\<rparr>]\<rparr>)"
    using parts(4) by (auto simp: none_forgotten_view v(2))
  ultimately show ?thesis using parts v(1) by (simp add: mgr_ok_def keeps_def)
qed

lemma view_update:
  "k \<noteq> i \<Longrightarrow> (k, s, f) \<in> set (map (\<lambda>(k, st, fin). if k = i then (k, x, y) else (k, st, fin)) xs) \<longleftrightarrow> (k, s, f) \<in> set xs"
  by (induction xs) (auto split: if_splits)

lemma end_run_others:
  "k \<noteq> i \<Longrightarrow> (k, s, f) \<in> set (run_view (end_run e i sch res err d)) \<longleftrightarrow> (k, s, f) \<in> set (run_view d)"
  using end_run_view [of d e i sch res err] view_update [of k i s f "run_status err" _ "run_view d"] by fastforce

lemma finish_ok:
  assumes ok: "mgr_ok healthy old m" and a: "mgActive m = before @ a # after"
    and h: "healthy \<longrightarrow> sqFault e (dbTick (mgDb m)) = None"
  shows "mgr_ok healthy old (m\<lparr>mgSite := st, mgDb := end_run e (acRun a) sch res err (mgDb m), mgActive := before @ after\<rparr>)"
    (is "mgr_ok healthy old ?m")
proof -
  let ?d = "end_run e (acRun a) sch res err (mgDb m)"
  have parts: "db_ok (mgDb m)" "jobs_ok m" "active_ok m" "healthy \<longrightarrow> none_forgotten old m"
    using ok by (simp_all add: mgr_ok_def)
  note v = end_run_view [of "mgDb m" e "acRun a" sch res err]
  note keep = end_run_others [of _ "acRun a" _ _ e sch res err "mgDb m"]
  have apart: "acRun b \<noteq> acRun a" if "b \<in> set (before @ after)" for b
  proof
    assume "acRun b = acRun a"
    with that have "acRun a \<in> acRun ` set (before @ after)" by (metis image_eqI)
    moreover have "distinct (map acRun (before @ a # after))" using parts(3) by (simp add: active_ok_def a)
    ultimately show False by auto
  qed
  have "set (before @ after) \<subseteq> set (mgActive m)" by (auto simp: a)
  moreover have "distinct (map acRun (before @ after))" "distinct (List.map_filter acJob (before @ after))"
    using parts(3) by (auto simp: active_ok_def a List.map_filter_def split: if_splits)
  ultimately have "active_ok ?m"
    using parts(3) keep [OF apart] unfolding active_ok_def by simp blast
  moreover have "healthy \<longrightarrow> none_forgotten old ?m"
  proof
    assume healthy
    with h have "sqFault e (dbTick (mgDb m)) = None" by simp
    with v have "\<exists>t. run_view ?d
        = map (\<lambda>(k, st, fin). if k = acRun a then (k, run_status err, Some t) else (k, st, fin)) (run_view (mgDb m))"
      by simp
    then obtain t where t: "run_view ?d
        = map (\<lambda>(k, st, fin). if k = acRun a then (k, run_status err, Some t) else (k, st, fin)) (run_view (mgDb m))" ..
    have "k \<in> acRun ` set (before @ after) \<union> old" if "(k, ''running'', f) \<in> set (run_view ?d)" for k f
    proof -
      have "k \<noteq> acRun a" using that by (auto simp: t run_status_def split: option.splits if_splits)
      moreover have "k \<in> acRun ` set (mgActive m) \<union> old"
        using parts(4) \<open>healthy\<close> that keep [OF calculation] by (auto simp: none_forgotten_view)
      ultimately show ?thesis by (auto simp: a)
    qed
    then show "none_forgotten old ?m" by (auto simp: none_forgotten_view)
  qed
  ultimately show ?thesis using parts v by (simp add: mgr_ok_def keeps_def)
qed

lemma mgr_step_ok:
  assumes "mgr_step runner e cr m m'" "mgr_ok healthy old m" "healthy \<longrightarrow> (\<forall>t. sqFault e t = None)"
  shows "mgr_ok healthy old m'"
  using assms(1,2)
proof (induction rule: mgr_step.induct)
  case (reload m x m')
  then show ?case
    using Reload_all [OF reload.hyps]
    by (fastforce simp: mgr_ok_def active_ok_def none_forgotten_view keeps_def run_view_def)
next
  case (fire j m sch d1 runID d2)
  have g: "keeps (mgDb m) d1" "run_view d1 = run_view (mgDb m)"
    using GetSchedule_keeps [OF fire.hyps(3)] schedule_statements_view(1) [OF fire.hyps(3)] .
  have "mgr_ok healthy old (m\<lparr>mgDb := d1\<rparr>)" by (rule mgr_ok_same_runs [OF fire.prems g])
  moreover have "jbEntry j < mgNextEntry m" using fire.prems fire.hyps(1) by (auto simp: mgr_ok_def jobs_ok_def)
  moreover have "jbEntry j \<notin> set (List.map_filter acJob (mgActive m))"
    using fire.hyps(2) by (force simp: set_map_filter)
  ultimately show ?case
    using begin_ok [of healthy old "m\<lparr>mgDb := d1\<rparr>" e sch runID d2 "Some (jbEntry j)"] fire.hyps(4) by simp
next
  case (run_now i m sch d1 runID d2)
  have g: "keeps (mgDb m) d1" "run_view d1 = run_view (mgDb m)"
    using GetSchedule_keeps [OF run_now.hyps(1)] schedule_statements_view(1) [OF run_now.hyps(1)] .
  have "mgr_ok healthy old (m\<lparr>mgDb := d1\<rparr>)" by (rule mgr_ok_same_runs [OF run_now.prems g])
  then show ?case
    using begin_ok [of healthy old "m\<lparr>mgDb := d1\<rparr>" e sch runID d2 None] run_now.hyps(2) by simp
next
  case (not_started i m sch d1 er d2)
  have g: "keeps (mgDb m) d1" "run_view d1 = run_view (mgDb m)"
    using GetSchedule_keeps [OF not_started.hyps(1)] schedule_statements_view(1) [OF not_started.hyps(1)] .
  have "mgr_ok healthy old (m\<lparr>mgDb := d1\<rparr>)" by (rule mgr_ok_same_runs [OF not_started.prems g])
  moreover have "keeps d1 d2" "run_view d2 = run_view d1" using begin_run_view [OF not_started.hyps(2)] by simp_all
  ultimately show ?case using mgr_ok_same_runs [of healthy old "m\<lparr>mgDb := d1\<rparr>" d2] by simp
next
  case (finish m before a after res err st)
  show ?case by (rule finish_ok [OF finish.prems finish.hyps(1)]) (use assms(3) in simp)
qed (blast intro: mgr_ok_same_runs store_keeps schedule_statements_view)+

lemma mgr_steps_ok:
  assumes "(mgr_step runner e cr)\<^sup>*\<^sup>* m m'" "mgr_ok healthy old m" "healthy \<longrightarrow> (\<forall>t. sqFault e t = None)"
  shows "mgr_ok healthy old m'"
  using assms(1) by (induction rule: rtranclp_induct) (rule assms(2), erule (1) mgr_step_ok [OF _ _ assms(3)])

lemma new_manager_ok:
  assumes "NewManager cr site d tz = Inr m" "db_ok d"
  shows "mgr_ok healthy (running_ids d) m"
  using assms
  by (auto simp: NewManager_def mgr_ok_def jobs_ok_def active_ok_def none_forgotten_def
      List.map_filter_simps split: sum.splits)

section \<open>Properties\<close>

text \<open>However requests, reloads, firing jobs and ending runs interleave, and whichever statements fail, a
  schedule has at most one cron job and a job at most one run in progress, every run in progress is
  recorded as running under a key of its own, and, when no statement failed, no run is left marked
  running once all have ended.\<close>

theorem manager_invariant:
  assumes "NewManager cr site d tz = Inr m" "db_ok d" "\<forall>r \<in> set (dbRuns d). ruStatus r \<noteq> ''running''"
    "(mgr_step runner e cr)\<^sup>*\<^sup>* m m'"
  shows "db_ok (mgDb m') \<and> distinct (map jbSchedule (mgCron m')) \<and> active_ok m'
    \<and> ((\<forall>t. sqFault e t = None) \<and> mgActive m' = [] \<longrightarrow> (\<forall>r \<in> set (dbRuns (mgDb m')). ruStatus r \<noteq> ''running''))"
proof -
  have none: "running_ids d = {}" using assms(3) by (auto simp: running_ids_def)
  have ok: "mgr_ok healthy {} m'" if "healthy \<longrightarrow> (\<forall>t. sqFault e t = None)" for healthy
    by (rule mgr_steps_ok [OF assms(4) new_manager_ok [OF assms(1,2), unfolded none] that])
  have "mgr_ok False {} m'" by (rule ok) simp
  moreover have "\<forall>r \<in> set (dbRuns (mgDb m')). ruStatus r \<noteq> ''running''"
    if "\<forall>t. sqFault e t = None" "mgActive m' = []"
    using ok [of True] that by (auto simp: mgr_ok_def none_forgotten_def running_ids_def)
  ultimately show ?thesis using jobs_ok_unique [of m'] by (simp add: mgr_ok_def)
qed

definition demo_cron :: cron_api where
  "demo_cron = \<lparr>crParse = (\<lambda>_. None), crNext = (\<lambda>_ _ t. t + day_ns), crLocation = Inr\<rparr>"

definition demo_runner :: "(unit, string \<times> string \<Rightarrow> string option) site BackupRunner" where
  "demo_runner app all svcs ret st = BackupWithRetention demo_host demo_store demo_orders demo_service app all svcs ret st"

definition demo_manager :: "(unit, string \<times> string \<Rightarrow> string option) site manager" where
  "demo_manager = \<lparr>mgSite = demo_site, mgDb = fresh_db, mgLocation = ''UTC'', mgCron = [], mgNextEntry = 1,
     mgEntries = fmempty, mgActive = []\<rparr>"

definition demo_created :: db where
  "demo_created = snd (CreateSchedule demo_env demo_input fresh_db)"

definition demo_loaded :: "(unit, string \<times> string \<Rightarrow> string option) site manager" where
  "demo_loaded = snd (Reload demo_env demo_cron (demo_manager\<lparr>mgDb := demo_created\<rparr>))"

lemma demo_manager_new: "NewManager demo_cron demo_site fresh_db ''UTC'' = Inr demo_manager"
  by (simp add: NewManager_def demo_cron_def demo_manager_def)

lemma demo_steps: "(mgr_step demo_runner demo_env demo_cron)\<^sup>*\<^sup>* demo_manager demo_loaded"
proof -
  obtain r where c: "CreateSchedule demo_env demo_input (mgDb demo_manager) = (r, demo_created)"
    by (simp add: demo_manager_def demo_created_def) (metis prod.collapse)
  obtain x where l: "Reload demo_env demo_cron (demo_manager\<lparr>mgDb := demo_created\<rparr>) = (x, demo_loaded)"
    unfolding demo_loaded_def by (metis prod.collapse)
  show ?thesis
    by (rule rtranclp.rtrancl_into_rtrancl [OF r_into_rtranclp [of "mgr_step demo_runner demo_env demo_cron",
        OF mgr_step.create [OF c]] mgr_step.reload [OF l]])
qed

theorem manager_invariant_witness:
  "db_ok (mgDb demo_loaded) \<and> distinct (map jbSchedule (mgCron demo_loaded)) \<and> active_ok demo_loaded"
  using manager_invariant [OF demo_manager_new fresh_ok _ demo_steps] by (simp add: fresh_db_def)

text \<open>C25: a reload that can read the schedules replaces every job: afterwards there is exactly one for each
  enabled schedule whose time zone loads and whose expression the cron library accepts, in the zone of the
  schedule; one that cannot leaves no job at all.\<close>

theorem reload_jobs:
  assumes "Reload e cr m = (r, m')" "jobs_ok m" "db_ok (mgDb m)"
  shows "jobs_ok m' \<and> dbRuns (mgDb m') = dbRuns (mgDb m) \<and> mgActive m' = mgActive m
    \<and> (r \<noteq> None \<longrightarrow> mgCron m' = [])
    \<and> (r = None \<longrightarrow> (\<forall>i spec. (\<exists>j \<in> set (mgCron m'). jbSchedule j = i \<and> jbSpec j = spec) \<longleftrightarrow>
         (\<exists>row \<in> set (dbSchedules (mgDb m)). job_for cr m (scanSchedule row) = Some (i, spec))))"
proof -
  note a = Reload_all [OF assms]
  have "(\<exists>j \<in> set (mgCron m'). jbSchedule j = i \<and> jbSpec j = spec) \<longleftrightarrow>
      (\<exists>row \<in> set (dbSchedules (mgDb m)). job_for cr m (scanSchedule row) = Some (i, spec))" if "r = None" for i spec
  proof -
    have "(i, spec) \<in> set (map (\<lambda>j. (jbSchedule j, jbSpec j)) (mgCron m'))
        \<longleftrightarrow> (i, spec) \<in> set (List.map_filter (job_for cr m) (listed (mgDb m)))" using a that by simp
    then show ?thesis by (auto simp: set_map_filter set_listed)
  qed
  moreover have "mgCron m' = []" if "r \<noteq> None" using a that by simp
  ultimately show ?thesis using a by simp
qed

theorem reload_jobs_witness:
  "\<exists>j \<in> set (mgCron demo_loaded). jbSchedule j = 1 \<and> jbSpec j = ''@daily''"
proof -
  obtain r where l: "Reload demo_env demo_cron (demo_manager\<lparr>mgDb := demo_created\<rparr>) = (r, demo_loaded)"
    unfolding demo_loaded_def by (metis prod.collapse)
  have j: "jobs_ok (demo_manager\<lparr>mgDb := demo_created\<rparr>)" by (simp add: jobs_ok_def demo_manager_def)
  have c: "dbSchedules demo_created = [new_schedule_row demo_input (format_rfc3339 0) 1]"
    by (simp add: demo_created_def CreateSchedule_def GetSchedule_def sql_do_def insert_schedule_def Let_def demo_env_def
        fresh_db_def max_rowid_def new_schedule_row_def sql_now_def)
  have "db_ok demo_created"
    using CreateSchedule_keeps [of demo_env demo_input fresh_db, OF prod.collapse [symmetric]]
    by (simp add: demo_created_def keeps_def)
  then have d: "db_ok (mgDb (demo_manager\<lparr>mgDb := demo_created\<rparr>))" by simp
  have "r = None" using l by (auto simp: Reload_def ListSchedules_def sql_do_def demo_env_def Let_def)
  with reload_jobs [OF l j d] have "\<forall>i spec. (\<exists>j \<in> set (mgCron demo_loaded). jbSchedule j = i \<and> jbSpec j = spec) \<longleftrightarrow>
      job_for demo_cron (demo_manager\<lparr>mgDb := demo_created\<rparr>) (scanSchedule (new_schedule_row demo_input (format_rfc3339 0) 1))
        = Some (i, spec)" by (simp add: c)
  moreover have "job_for demo_cron (demo_manager\<lparr>mgDb := demo_created\<rparr>)
      (scanSchedule (new_schedule_row demo_input (format_rfc3339 0) 1)) = Some (1, ''@daily'')"
    by (simp add: job_for_def job_spec_def demo_cron_def demo_manager_def scanSchedule_def new_schedule_row_def
        demo_input_def boolInt_def)
  ultimately show ?thesis by blast
qed

text \<open>C26: a run leaves one row in the history, finished, with the outcome the runner returned and its trimmed
  output, and the outcome with at most 303 bytes of the output on its schedule; nothing else of the
  history or of the other schedules changes.\<close>

theorem run_recorded:
  assumes "\<And>t. sqFault e t = None" "db_ok (mgDb m)" "shID sch \<in> schedule_ids (mgDb m)"
    "dbRunSeq (mgDb m) < max_rowid" "do_run runner sch (mgSite m) = ((res, err), st)"
  shows "\<exists>row. dbRuns (mgDb (run_schedule runner e sch m)) = dbRuns (mgDb m) @ [row]
    \<and> ruID row \<notin> run_ids (mgDb m) \<and> ruSchedule row = Some (shID sch)
    \<and> ruStatus row = run_status err \<and> ruOutput row = trim_space (run_output res err) \<and> ruFinished row \<noteq> None
    \<and> map (\<lambda>r. (scLastStatus r, scLastMessage r)) (filter (\<lambda>r. scID r = shID sch) (dbSchedules (mgDb (run_schedule runner e sch m))))
        = [(run_status err, BriefOutput (run_output res err))]
    \<and> length (BriefOutput (run_output res err)) \<le> 303
    \<and> filter (\<lambda>r. scID r \<noteq> shID sch) (dbSchedules (mgDb (run_schedule runner e sch m)))
        = filter (\<lambda>r. scID r \<noteq> shID sch) (dbSchedules (mgDb m))
    \<and> mgSite (run_schedule runner e sch m) = st"
proof -
  let ?d = "mgDb m" and ?i = "dbRunSeq (mgDb m) + 1"
  have new: "?i \<notin> run_ids ?d" using assms(2) by (auto simp: db_ok_def)
  have olds: "map (\<lambda>r. if ruID r = ?i then f r else r) (dbRuns ?d) = dbRuns ?d" for f
  proof (rule map_idI)
    fix r assume "r \<in> set (dbRuns ?d)"
    with new have "ruID r \<noteq> ?i" by (metis image_eqI run_ids_def)
    then show "(if ruID r = ?i then f r else r) = r" by simp
  qed
  have one: "length (filter (\<lambda>r. scID r = shID sch) (dbSchedules ?d)) = 1"
    using assms(2,3) filter_key_length [of scID "dbSchedules ?d" "shID sch"] by (simp add: db_ok_def schedule_ids_def)
  have upd: "map (\<lambda>r. (scLastStatus r, scLastMessage r)) (filter (\<lambda>r. scID r = k)
        (map (\<lambda>r. if scID r = k then r\<lparr>scLastRun := a, scLastStatus := s, scLastMessage := t, scUpdated := u\<rparr> else r) xs))
      = map (\<lambda>_. (s, t)) (filter (\<lambda>r. scID r = k) xs)"
    "filter (\<lambda>r. scID r \<noteq> k)
        (map (\<lambda>r. if scID r = k then r\<lparr>scLastRun := a, scLastStatus := s, scLastMessage := t, scUpdated := u\<rparr> else r) xs)
      = filter (\<lambda>r. scID r \<noteq> k) xs" for k a s t u and xs :: "sched_row list"
    by (induction xs) auto
  have const: "map (\<lambda>_. p) xs = [p]" if "length xs = 1" for p :: "string \<times> string" and xs :: "sched_row list"
    using that by (cases xs) auto
  have brief: "length (BriefOutput t) \<le> 303" for t by (simp add: BriefOutput_def Let_def)
  show ?thesis
    using assms(3,4) new olds brief const [OF one]
    by (simp add: run_schedule_def begin_run_def StartRun_def sql_do_def insert_run_def new_run_row_def Let_def assms(1,5)
        schedule_ids_def end_run_def FinishRun_def MarkScheduleRun_def update_runs_def update_schedules_def
        exec_checked_def exec_only_def upd)
qed

theorem run_recorded_witness:
  "\<exists>row. dbRuns (mgDb (run_schedule (\<lambda>_ _ _ _ st. ((\<lparr>rrFiles = [], rrLog = ''done''\<rparr>, None), st)) demo_env
       (scanSchedule (new_schedule_row demo_input [] 1)) (demo_manager\<lparr>mgDb := demo_created\<rparr>))) = [row]
     \<and> ruStatus row = ''success'' \<and> ruOutput row = ''done''"
proof -
  let ?sch = "scanSchedule (new_schedule_row demo_input [] 1)"
  let ?run = "\<lambda>_ _ _ _ st. ((\<lparr>rrFiles = [], rrLog = ''done''\<rparr>, None), st)"
  have c: "schedule_ids demo_created = {1}" "dbRunSeq demo_created = 0" "dbRuns demo_created = []"
    by (simp_all add: demo_created_def CreateSchedule_def GetSchedule_def sql_do_def insert_schedule_def Let_def
        demo_env_def fresh_db_def max_rowid_def new_schedule_row_def sql_now_def schedule_ids_def)
  have "db_ok demo_created"
    using CreateSchedule_keeps [of demo_env demo_input fresh_db, OF prod.collapse [symmetric]]
    by (simp add: demo_created_def keeps_def)
  then have p: "db_ok (mgDb (demo_manager\<lparr>mgDb := demo_created\<rparr>))"
    "shID ?sch \<in> schedule_ids (mgDb (demo_manager\<lparr>mgDb := demo_created\<rparr>))"
    "dbRunSeq (mgDb (demo_manager\<lparr>mgDb := demo_created\<rparr>)) < max_rowid"
    by (simp_all add: c scanSchedule_def new_schedule_row_def max_rowid_def)
  have t: "trim_space ''done'' = ''done''" by (rule trim_space_name) (simp add: char_class_defs)
  have "do_run ?run ?sch (mgSite (demo_manager\<lparr>mgDb := demo_created\<rparr>))
      = ((\<lparr>rrFiles = [], rrLog = ''done''\<rparr>, None), mgSite (demo_manager\<lparr>mgDb := demo_created\<rparr>))"
    by (simp add: do_run_def)
  from run_recorded [OF _ p this, of demo_env] show ?thesis
    by (auto simp: demo_env_def run_status_def run_output_def t c)
qed

text \<open>The recorded output of a failed run ends with its error twice: the service has already put it at the
  end of the log that the manager extends with it.\<close>

theorem failure_shown_twice:
  assumes "BackupWithRetention h api ord s app all svcs ret st = ((res, Some er), st')" "solid (err_text er)"
  shows "\<exists>pre. trim_space (run_output res (Some er)) = pre @ err_text er @ newline @ err_text er"
  by (rule service_runner.failure_output [OF assms])

theorem failure_shown_twice_witness:
  "\<exists>res er st' pre. BackupWithRetention demo_host demo_store demo_orders demo_service ''?'' False [] no_retention demo_site
       = ((res, Some er), st')
     \<and> trim_space (run_output res (Some er)) = pre @ err_text er @ newline @ err_text er"
proof -
  have v: "validate_app_name ''?'' = Some (errorf (''invalid app name '' @ quote ''?''))"
    by (simp add: validate_app_name_def app_name_pattern_def char_class_defs)
  let ?er = "errorf (''invalid app name '' @ quote ''?'')"
  have "\<exists>res st'. BackupWithRetention demo_host demo_store demo_orders demo_service ''?'' False [] no_retention
      demo_site = ((res, Some ?er), st')"
    by (simp add: BackupWithRetention_def engine_backup_def BackupApp_def v)
  then obtain res st' where b: "BackupWithRetention demo_host demo_store demo_orders demo_service ''?'' False [] no_retention
      demo_site = ((res, Some ?er), st')" by blast
  have "solid (err_text ?er)" by (simp add: solid_def graphic_def less_eq_char_def quote_def)
  from failure_shown_twice [OF b this] b show ?thesis by blast
qed

end
