(* ===== verification/AppPage.thy ===== *)
theory AppPage
  imports Registry ScheduleStore
begin

text \<open>
  What the app page shows of an app (\<open>internal/registry/registry.go\<close>): one \<open>ServiceInfo\<close> per service it
  has, with its label, its block of the \<open>.env\<close> file and how it is backed up.  The UTF-8 dash of the
  texts is written as its three bytes.
\<close>

record ServiceInfo =
  inName :: string
  inLabel :: string
  inEnvBody :: string
  inBackupGlob :: string
  inBackupHow :: string
  inRestoreNote :: string
  inBackupable :: bool
  inIsAddon :: bool

definition dash :: string where
  "dash = [char_of (226::nat), char_of (128::nat), char_of (148::nat)]"

text \<open>A Go map of texts: the empty text for a key it lacks.\<close>

definition lookup_text :: "(string \<times> string) list \<Rightarrow> string \<Rightarrow> string" where
  "lookup_text m k = (case map_of m k of None \<Rightarrow> [] | Some v \<Rightarrow> v)"

definition serviceLabels :: "(string \<times> string) list" where
  "serviceLabels =
     [(Postgres, ''PostgreSQL''), (Redis, ''Redis''), (RabbitMQ, ''RabbitMQ''), (AIStor, ''AIStor''),
      (MongoDB, ''MongoDB''), (Signoz, ''SignOz'')]"

definition serviceBackupHow :: "(string \<times> string) list" where
  "serviceBackupHow =
     [(Postgres, ''pg_dump --clean --if-exists of the dedicated database '' @ dash
        @ '' captures schema + data; restore is a drop-and-reimport via psql.''),
      (Redis, ''Logical snapshot via Lua: iterates KEYS '' @ [CHR 0x27] @ ''<app>:*'' @ [CHR 0x27]
        @ '' and serializes strings/hashes/lists/sets/zsets to JSON; restore rewrites the keys.''),
      (RabbitMQ, ''rabbitmqctl export_definitions filtered by vhost '' @ dash
        @ '' definitions only (queues/exchanges/bindings/policies/users). In-flight messages are NOT saved.''),
      (AIStor, ''mc mirror local/<bucket> to a temp directory + tar streaming '' @ dash
        @ '' preserves every object. Restore extracts the tar and runs mc mirror --overwrite --remove to match the snapshot state.''),
      (MongoDB, ''mongodump --archive --gzip of the dedicated database '' @ dash
        @ '' captures collections, documents and indexes. Restore is a drop-and-reimport via mongorestore --drop.''),
      (Signoz, ''No per-app backup '' @ dash
        @ '' telemetry lives in the shared ClickHouse and expires via the SignOz retention policy.'')]"

definition serviceRestoreNote :: "(string \<times> string) list" where
  "serviceRestoreNote =
     [(Postgres, ''psql -d <app> reimports the dump; ownership and privileges are reapplied to the app'' @ [CHR 0x27]
        @ ''s role.''),
      (Redis, ''Reads the JSON and applies SET/HSET/RPUSH/SADD/ZADD per key; does not delete keys absent from the snapshot.''),
      (RabbitMQ, ''rabbitmqctl import_definitions recreates the vhost'' @ [CHR 0x27] @ ''s objects (idempotent).''),
      (AIStor, ''Overwrites the entire bucket with the tar contents (--remove deletes objects that disappeared between the snapshots).''),
      (MongoDB, ''mongorestore --archive --gzip --drop reimports the database; each snapshot collection is dropped and recreated (idempotent). The app''
        @ [CHR 0x27] @ ''s user is reapplied by reconcile, not by restore.''),
      (Signoz, dash)]"

definition serviceBackupGlob :: "(string \<times> string) list" where
  "serviceBackupGlob =
     [(Postgres, ''postgres_<ts>.sql''), (Redis, ''redis_<ts>.json''), (RabbitMQ, ''rabbitmq_<ts>.json''),
      (AIStor, ''aistor_<ts>.tar''), (MongoDB, ''mongodb_<ts>.archive''), (Signoz, [])]"

text \<open>The blocks go into a map by their label: a later block of a label replaces an earlier one.\<close>

definition service_info :: "AppEntry \<Rightarrow> string \<Rightarrow> ServiceInfo" where
  "service_info e s =
     \<lparr>inName = s, inLabel = lookup_text serviceLabels s,
      inEnvBody = lookup_text (rev (env_blocks e)) (lookup_text serviceLabels s),
      inBackupGlob = lookup_text serviceBackupGlob s, inBackupHow = lookup_text serviceBackupHow s,
      inRestoreNote = lookup_text serviceRestoreNote s, inBackupable = (\<not> non_backupable s), inIsAddon = addon s\<rparr>"

definition buildServiceInfos :: "App \<Rightarrow> (string \<Rightarrow> bool) \<Rightarrow> ServiceInfo list" where
  "buildServiceInfos a P =
     map (service_info (Entry a)) (filter (\<lambda>s. app_has_service (Entry a) s \<and> P s) service_catalog)"

definition ServiceInfos :: "App \<Rightarrow> ServiceInfo list" where
  "ServiceInfos a = buildServiceInfos a (\<lambda>s. \<not> addon s)"

definition AddonInfos :: "App \<Rightarrow> ServiceInfo list" where
  "AddonInfos a = buildServiceInfos a addon"

definition CreatedAtTime :: "App \<Rightarrow> int" where
  "CreatedAtTime a = (case parse_rfc3339 (AppCreatedAt a) of None \<Rightarrow> zero_time | Some t \<Rightarrow> t)"

lemma catalog_filter:
  "filter (\<lambda>s. app_has_service e s \<and> \<not> addon s) service_catalog @ filter (\<lambda>s. app_has_service e s \<and> addon s) service_catalog
     = filter (app_has_service e) service_catalog"
  by (simp add: service_catalog_def addon_def)

text \<open>The block of each service the app has, under the service's label.\<close>

definition service_block :: "AppEntry \<Rightarrow> string \<Rightarrow> string" where
  "service_block e s =
     (if s = Postgres then postgres_env (the (svcPostgres (Svcs e)))
      else if s = Redis then redis_env (the (svcRedis (Svcs e)))
      else if s = RabbitMQ then rabbitmq_env (the (svcRabbitMQ (Svcs e)))
      else if s = AIStor then aistor_env (the (svcAIStor (Svcs e)))
      else if s = MongoDB then mongodb_env (the (svcMongoDB (Svcs e)))
      else signoz_env (the (svcSignoz (Svcs e))))"

lemma catalog_labels:
  "map (lookup_text serviceLabels) service_catalog
     = [''PostgreSQL'', ''Redis'', ''RabbitMQ'', ''AIStor'', ''MongoDB'', ''SignOz'']"
  by code_simp

lemma distinct_labels: "distinct (map (lookup_text serviceLabels) service_catalog)"
  unfolding catalog_labels by simp

lemma labels:
  "lookup_text serviceLabels Postgres = ''PostgreSQL''" "lookup_text serviceLabels Redis = ''Redis''"
  "lookup_text serviceLabels RabbitMQ = ''RabbitMQ''" "lookup_text serviceLabels AIStor = ''AIStor''"
  "lookup_text serviceLabels MongoDB = ''MongoDB''" "lookup_text serviceLabels Signoz = ''SignOz''"
  by code_simp+

lemma env_blocks_map:
  "env_blocks e = map (\<lambda>s. (lookup_text serviceLabels s, service_block e s)) (filter (app_has_service e) service_catalog)"
  by (auto simp: env_blocks_def opt_block_def service_catalog_def app_has_service_def service_block_def labels
      split: option.splits)

lemma lookup_own:
  assumes "distinct (map f xs)" "x \<in> set xs"
  shows "lookup_text (rev (map (\<lambda>s. (f s, g s)) xs)) (f x) = g x"
proof -
  have "map_of (rev (map (\<lambda>s. (f s, g s)) xs)) (f x) = Some (g x)"
    using assms by (subst map_of_eq_Some_iff) (auto simp: rev_map [symmetric] comp_def)
  then show ?thesis by (simp add: lookup_text_def)
qed

lemma service_info_block:
  assumes "s \<in> set (filter (app_has_service e) service_catalog)"
  shows "inLabel (service_info e s) = lookup_text serviceLabels s \<and> inEnvBody (service_info e s) = service_block e s"
proof -
  have "distinct (map (lookup_text serviceLabels) (filter (app_has_service e) service_catalog))"
    using distinct_labels by (simp add: distinct_map inj_on_def)
  from lookup_own [OF this assms, of "service_block e"] show ?thesis
    by (simp add: service_info_def env_blocks_map)
qed

text \<open>C27: the two tables of the app page show every service of the app once, add-ons apart, each with its own
  block of the \<open>.env\<close> file, and no block is left out.\<close>

theorem infos_show_blocks:
  "map inName (ServiceInfos a @ AddonInfos a) = service_names a
   \<and> set (map (\<lambda>i. (inLabel i, inEnvBody i)) (ServiceInfos a @ AddonInfos a)) = set (env_blocks (Entry a))"
proof -
  have all: "ServiceInfos a @ AddonInfos a = map (service_info (Entry a)) (filter (app_has_service (Entry a)) service_catalog)"
    unfolding ServiceInfos_def AddonInfos_def buildServiceInfos_def map_append [symmetric] catalog_filter ..
  have "map inName (map (service_info (Entry a)) ss) = ss" for ss
    by (induction ss) (simp_all add: service_info_def)
  then have "map inName (ServiceInfos a @ AddonInfos a) = service_names a"
    unfolding all by (simp add: service_names_eq)
  moreover have "set (map (\<lambda>i. (inLabel i, inEnvBody i)) (ServiceInfos a @ AddonInfos a)) = set (env_blocks (Entry a))"
    unfolding all env_blocks_map map_map comp_def using service_info_block [of _ "Entry a"]
    by (intro arg_cong [where f = set] map_cong refl) simp
  ultimately show ?thesis ..
qed

end
