(* ===== verification/Strconv.thy ===== *)
theory Strconv
  imports GoJson
begin

text \<open>
  The numbers of a command line, a form or a path: what \<open>strconv\<close> reads of them, with its errors.
\<close>

text \<open>\<open>strconv.ParseInt(s, 10, 64)\<close> and \<open>strconv.Atoi\<close>: an optional sign and digits within 64 bits.\<close>

definition num_error :: "string \<Rightarrow> string \<Rightarrow> string \<Rightarrow> error" where
  "num_error fn s why = errorf (''strconv.'' @ fn @ '': parsing '' @ quote s @ '': '' @ why)"

definition parse_decimal :: "string \<Rightarrow> string \<Rightarrow> int result" where
  "parse_decimal fn s =
     (let ds = (if s \<noteq> [] \<and> (hd s = CHR ''+'' \<or> hd s = CHR ''-'') then tl s else s);
          i = (if s \<noteq> [] \<and> hd s = CHR ''-'' then - digits_value ds else digits_value ds) in
      if ds = [] \<or> \<not> list_all is_digit ds then Inl (num_error fn s ''invalid syntax'')
      else if \<not> int64 i then Inl (num_error fn s ''value out of range'') else Inr i)"

lemma parse_decimal_int64: "parse_decimal fn s = Inr i \<Longrightarrow> int64 i"
  by (auto simp: parse_decimal_def Let_def split: if_splits)

end
