(* ===== verification/WebServer.thy ===== *)
theory WebServer
  imports Manager AppPage Envspec Strconv
begin

text \<open>
  The web server (\<open>internal/web/server/server.go\<close>, \<open>internal/web/auth/basic.go\<close>): its routes, the guard
  in front of them, and every handler as a function of a request and the state of the program.

  A request is what \<open>net/http\<close> hands over: the method, the decoded segments of the path, the credentials
  of its \<open>Authorization\<close> header, the form (or the error of parsing it), the query and the referer.  A
  response is what the handler decides: a redirection to a target, a page with its data, a file, an
  error.  WebAnswer adds the headers; the HTML the templates make of a page's data, the headers net/http adds, and its
  cleaning of a redirection's target are not modelled.  The state is the manager's: its tables, its jobs, and the
  machine and bucket of its site.
\<close>

section \<open>Requests and responses\<close>

record request =
  rqMethod :: string
  rqSegments :: "string list"
  rqCredentials :: "(string \<times> string) option"
  rqFormError :: "error option"
  rqForm :: "string \<Rightarrow> string list"
  rqQuery :: "string \<Rightarrow> string"
  rqReferer :: string

record Flash =
  flKind :: string
  flMessage :: string

record PageData =
  pdTitle :: string
  pdActive :: string
  pdFlash :: Flash
  pdConfig :: Config
  pdApps :: "App list"
  pdApp :: "App option"
  pdEnvBlocks :: "(string \<times> string) list"
  pdEnvFile :: string
  pdBackups :: "BFile list"
  pdStatuses :: "Status list"
  pdSchedules :: "Schedule list"
  pdRuns :: "Run list"
  pdSelectedApp :: string
  pdSelectedFile :: string
  pdSelectedService :: string
  pdBackupApps :: "string list"
  pdBackupServices :: "string list"
  pdBackupCount :: nat
  pdScheduleCount :: nat
  pdS3Enabled :: bool
  pdS3Destination :: string

datatype response =
    SeeOther string
  | Moved string
  | Render string PageData
  | ServerError string
  | NotFoundPage
  | MethodNotAllowed
  | TextFile string string
  | SendFile string string
  | StaticFile "string list"
  | LogoutPage
  | Unauthorized

text \<open>What the server was made with, and the parameters of the model.\<close>

record ('d, 'b) webenv =
  weHost :: "'d host"
  weStore :: "'b store_api"
  weOrders :: orders
  weSql :: sql_env
  weCron :: cron_api
  weScan :: "run_row list \<Rightarrow> run_row list"
  weAuthority :: "string \<Rightarrow> bool"
  weConfig :: Config
  weClient :: client

type_synonym ('d, 'b) state = "('d, 'b) site manager"

definition web_engine :: "('d, 'b) webenv \<Rightarrow> Engine" where
  "web_engine env = \<lparr>StorePath = cfgRegistryPath (weConfig env), BackupsDir = cfgBackupsDir (weConfig env)\<rparr>"

definition web_service :: "('d, 'b) webenv \<Rightarrow> Service" where
  "web_service env =
     \<lparr>svEngine = web_engine env, svBackupsDir = cfgBackupsDir (weConfig env), svClient = weClient env\<rparr>"

definition web_runner :: "('d, 'b) webenv \<Rightarrow> ('d, 'b) site BackupRunner" where
  "web_runner env app all svcs ret st =
     BackupWithRetention (weHost env) (weStore env) (weOrders env) (web_service env) app all svcs ret st"

definition the_world :: "('d, 'b) state \<Rightarrow> 'd world" where
  "the_world st = machine (mgSite st)"

definition set_world :: "'d world \<Rightarrow> ('d, 'b) state \<Rightarrow> ('d, 'b) state" where
  "set_world w st = st\<lparr>mgSite := (mgSite st)\<lparr>machine := w\<rparr>\<rparr>"

definition form_value :: "request \<Rightarrow> string \<Rightarrow> string" where
  "form_value req k = (case rqForm req k of [] \<Rightarrow> [] | v # _ \<Rightarrow> v)"

section \<open>Helpers\<close>

definition redirect :: "string \<Rightarrow> string \<Rightarrow> string \<Rightarrow> response" where
  "redirect target kind message =
     SeeOther (if message \<noteq> []
       then target @ (if CHR ''?'' \<in> set target then ''&'' else ''?'') @ query_escape kind @ ''='' @ query_escape message
       else target)"

definition withOutput :: "error \<Rightarrow> string \<Rightarrow> string" where
  "withOutput err out =
     (let t = trim_space out in if t = [] then err_text err else err_text err @ '': '' @ BriefOutput t)"

definition flashFromQuery :: "request \<Rightarrow> Flash" where
  "flashFromQuery req =
     (if rqQuery req ''success'' \<noteq> [] then \<lparr>flKind = ''success'', flMessage = rqQuery req ''success''\<rparr>
      else if rqQuery req ''error'' \<noteq> [] then \<lparr>flKind = ''error'', flMessage = rqQuery req ''error''\<rparr>
      else \<lparr>flKind = [], flMessage = []\<rparr>)"

definition pathID :: "string \<Rightarrow> int result" where
  "pathID s = parse_decimal ''ParseInt'' s"

definition parseNonNegativeInt :: "string \<Rightarrow> int \<Rightarrow> int" where
  "parseNonNegativeInt value fallback =
     (let v = trim_space value in
      if v = [] then fallback
      else (case parse_decimal ''Atoi'' v of Inl _ \<Rightarrow> fallback | Inr i \<Rightarrow> if i < 0 then fallback else i))"

definition parseEnvsField :: "string \<Rightarrow> Options result" where
  "parseEnvsField value =
     (let raw = trim_space value in
      if raw = [] then Inr \<lparr>optEnvs = [], optEnv = []\<rparr>
      else if CHR '','' \<notin> set raw then
        (case ParseSingleEnv raw of Inl e \<Rightarrow> Inl e | Inr env \<Rightarrow> Inr \<lparr>optEnvs = [], optEnv = env\<rparr>)
      else (case ParseEnvs raw of Inl e \<Rightarrow> Inl e | Inr envs \<Rightarrow> Inr \<lparr>optEnvs = envs, optEnv = []\<rparr>))"

definition firstBackups :: "BFile list \<Rightarrow> nat \<Rightarrow> BFile list" where
  "firstBackups fs limit = (if length fs \<le> limit then fs else take limit fs)"

definition serviceLabel :: "string \<Rightarrow> string" where
  "serviceLabel s =
     (if s = Postgres then ''PostgreSQL'' else if s = Redis then ''Redis'' else if s = RabbitMQ then ''RabbitMQ''
      else if s = AIStor then ''AIStor'' else if s = MongoDB then ''MongoDB'' else if s = Signoz then ''SignOz'' else s)"

definition statusClass :: "string \<Rightarrow> string" where
  "statusClass s =
     (if s = ''running'' then ''running'' else if s = ''exited'' \<or> s = ''dead'' then ''stopped''
      else if s = [] then ''missing'' else ''warning'')"

definition displayRetention :: "int \<Rightarrow> int \<Rightarrow> string" where
  "displayRetention days kept =
     (let parts = (if 0 < days then [dec_int days @ ''d''] else []) @ (if 0 < kept then [dec_int kept @ '' files''] else []) in
      if parts = [] then ''keep forever'' else join '' / '' parts)"

text \<open>The unit is a power of two, so the quotient of a size below \<open>2^53\<close> is exact and \<open>%.1f\<close> rounds it to the
  nearest tenth, a tie to the even one.\<close>

fun byte_unit :: "nat \<Rightarrow> int \<Rightarrow> int \<Rightarrow> nat \<Rightarrow> int \<times> nat" where
  "byte_unit 0 n div_by e = (div_by, e)"
| "byte_unit (Suc k) n div_by e =
     (if 1024 \<le> n then byte_unit k (n div 1024) (div_by * 1024) (Suc e) else (div_by, e))"

definition formatBytes :: "int \<Rightarrow> string" where
  "formatBytes bytes =
     (if bytes < 1024 then dec_int bytes @ '' B''
      else
        (case byte_unit 6 (bytes div 1024) 1024 0 of
           (d, e) \<Rightarrow>
             (let q = 10 * bytes div d; r = 10 * bytes mod d;
                  t = (if d < 2 * r \<or> d = 2 * r \<and> odd q then q + 1 else q) in
              dec_int (t div 10) @ ''.'' @ dec_int (t mod 10) @ '' '' @ [''KMGTPE'' ! e] @ ''iB'')))"

section \<open>Where a referer leads back to\<close>

text \<open>
  \<open>url.Parse\<close> as far as its path and raw query go.  What \<open>net/url\<close> accepts as an authority (user, host,
  port) is the argument \<open>ok\<close>.
\<close>

definition hex_digit_value :: "char \<Rightarrow> nat option" where
  "hex_digit_value c =
     (let n = of_char c :: nat in
      if 48 \<le> n \<and> n \<le> 57 then Some (n - 48)
      else if 97 \<le> n \<and> n \<le> 102 then Some (n - 87)
      else if 65 \<le> n \<and> n \<le> 70 then Some (n - 55) else None)"

function path_unescape :: "string \<Rightarrow> string option" where
  "path_unescape [] = Some []"
| "path_unescape (c # cs) =
     (if c = CHR ''%'' then
        (case cs of
           a # b # rest \<Rightarrow>
             (case (hex_digit_value a, hex_digit_value b) of
                (Some x, Some y) \<Rightarrow> map_option ((#) (char_of (16 * x + y))) (path_unescape rest)
              | _ \<Rightarrow> None)
         | _ \<Rightarrow> None)
      else map_option ((#) c) (path_unescape cs))"
  by pat_completeness auto
termination
  by (relation "measure length") auto

definition scheme_char :: "char \<Rightarrow> bool" where
  "scheme_char c = (is_lower c \<or> CHR ''A'' \<le> c \<and> c \<le> CHR ''Z'')"

fun find_scheme :: "bool \<Rightarrow> string \<Rightarrow> string \<Rightarrow> (string \<times> string) option" where
  "find_scheme start seen [] = Some ([], rev seen)"
| "find_scheme start seen (c # cs) =
     (if scheme_char c then find_scheme False (c # seen) cs
      else if is_digit c \<or> c \<in> {CHR ''+'', CHR ''-'', CHR ''.''}
        then (if start then Some ([], rev seen @ c # cs) else find_scheme False (c # seen) cs)
      else if c = CHR '':'' then (if start then None else Some (rev seen, cs))
      else Some ([], rev seen @ c # cs))"

definition before_mark :: "char \<Rightarrow> string \<Rightarrow> string" where
  "before_mark c s = takeWhile (\<lambda>x. x \<noteq> c) s"

definition after_mark :: "char \<Rightarrow> string \<Rightarrow> string" where
  "after_mark c s = tl (dropWhile (\<lambda>x. x \<noteq> c) s)"

definition url_path_query :: "(string \<Rightarrow> bool) \<Rightarrow> string \<Rightarrow> (string \<times> string) option" where
  "url_path_query ok raw =
     (let u = before_mark (CHR ''#'') raw; frag = after_mark (CHR ''#'') raw in
      if list_ex (\<lambda>c. of_char c < (32::nat) \<or> of_char c = (127::nat)) u then None
      else if path_unescape frag = None then None
      else if u = ''*'' then Some (''*'', [])
      else
        (case find_scheme True [] u of
           None \<Rightarrow> None
         | Some (scheme, rest) \<Rightarrow>
             (let path = before_mark (CHR ''?'') rest; query = after_mark (CHR ''?'') rest in
              if \<not> has_prefix path ''/'' then
                (if scheme \<noteq> [] then Some ([], query)
                 else if CHR '':'' \<in> set (before_mark slash path) then None
                 else map_option (\<lambda>p. (p, query)) (path_unescape path))
              else if (scheme \<noteq> [] \<or> \<not> has_prefix path ''///'') \<and> has_prefix path ''//'' then
                (let a = drop 2 path in
                 if ok (before_mark slash a)
                 then map_option (\<lambda>p. (p, query)) (path_unescape (dropWhile (\<lambda>x. x \<noteq> slash) a)) else None)
              else map_option (\<lambda>p. (p, query)) (path_unescape path))))"

definition safeRedirectTarget :: "(string \<Rightarrow> bool) \<Rightarrow> string \<Rightarrow> string" where
  "safeRedirectTarget ok referer =
     (if referer = [] then ''/''
      else
        (case url_path_query ok referer of
           None \<Rightarrow> ''/''
         | Some (path, query) \<Rightarrow>
             (if path = [] \<or> hd path \<noteq> slash then ''/''
              else if query \<noteq> [] then path @ ''?'' @ query else path)))"

section \<open>Pages\<close>

definition page :: "('d, 'b) webenv \<Rightarrow> request \<Rightarrow> string \<Rightarrow> string \<Rightarrow> PageData" where
  "page env req title act =
     \<lparr>pdTitle = title, pdActive = act, pdFlash = flashFromQuery req, pdConfig = weConfig env, pdApps = [],
      pdApp = None, pdEnvBlocks = [], pdEnvFile = [], pdBackups = [], pdStatuses = [], pdSchedules = [], pdRuns = [],
      pdSelectedApp = [], pdSelectedFile = [], pdSelectedService = [],
      pdBackupApps = [], pdBackupServices = [], pdBackupCount = 0,
      pdScheduleCount = 0, pdS3Enabled = S3Enabled (web_service env), pdS3Destination = S3Destination (web_service env)\<rparr>"

definition renderError :: "error \<Rightarrow> response" where
  "renderError e = ServerError (err_text e)"

text \<open>The handlers that read a container's state advance the machine; the others only read.\<close>

definition list_status :: "('d, 'b) webenv \<Rightarrow> ('d, 'b) state \<Rightarrow> Status list \<times> ('d, 'b) state" where
  "list_status env st =
     (case ListStatus (weHost env) (the_world st) of (ss, w) \<Rightarrow> (ss, set_world w st))"

definition dashboard :: "('d, 'b) webenv \<Rightarrow> request \<Rightarrow> ('d, 'b) state \<Rightarrow> response \<times> ('d, 'b) state" where
  "dashboard env req st =
     (case list_apps (weHost env) (cfgRegistryPath (weConfig env)) (the_world st) of
        Inl e \<Rightarrow> (renderError e, st)
      | Inr apps \<Rightarrow>
     (case ListFiles (weHost env) (cfgBackupsDir (weConfig env)) (the_world st) of
        Inl e \<Rightarrow> (renderError e, st)
      | Inr backups \<Rightarrow>
     (case ListSchedules (weSql env) (mgDb st) of
        (Inl e, d1) \<Rightarrow> (renderError e, st\<lparr>mgDb := d1\<rparr>)
      | (Inr schedules, d1) \<Rightarrow>
     (case ListRuns (weSql env) (weScan env) 8 d1 of
        (Inl e, d2) \<Rightarrow> (renderError e, st\<lparr>mgDb := d2\<rparr>)
      | (Inr runs, d2) \<Rightarrow>
          (case list_status env (st\<lparr>mgDb := d2\<rparr>) of
             (statuses, st1) \<Rightarrow>
               (Render ''dashboard.html''
                  ((page env req ''Dashboard'' ''dashboard'')\<lparr>pdApps := apps, pdStatuses := statuses,
                     pdBackups := firstBackups backups 8, pdRuns := runs, pdBackupCount := length backups,
                     pdScheduleCount := length schedules\<rparr>), st1))))))"

definition appsPage :: "('d, 'b) webenv \<Rightarrow> request \<Rightarrow> ('d, 'b) state \<Rightarrow> response \<times> ('d, 'b) state" where
  "appsPage env req st =
     (case list_apps (weHost env) (cfgRegistryPath (weConfig env)) (the_world st) of
        Inl e \<Rightarrow> (renderError e, st)
      | Inr apps \<Rightarrow>
          (case list_status env st of
             (statuses, st1) \<Rightarrow>
               (Render ''apps.html'' ((page env req ''Apps'' ''apps'')\<lparr>pdApps := apps, pdStatuses := statuses\<rparr>), st1)))"

definition appDetail :: "('d, 'b) webenv \<Rightarrow> request \<Rightarrow> string \<Rightarrow> ('d, 'b) state \<Rightarrow> response \<times> ('d, 'b) state" where
  "appDetail env req name st =
     (case get_app (weHost env) (cfgRegistryPath (weConfig env)) name (the_world st) of
        Inl e \<Rightarrow> (renderError e, st)
      | Inr None \<Rightarrow> (NotFoundPage, st)
      | Inr (Some app) \<Rightarrow>
          (case ListForApp (weHost env) (cfgBackupsDir (weConfig env)) name (the_world st) of
             Inl e \<Rightarrow> (renderError e, st)
           | Inr backups \<Rightarrow>
               (Render ''app_detail.html''
                  ((page env req name ''apps'')\<lparr>pdApp := Some app, pdBackups := backups, pdEnvFile := env_file (Entry app)\<rparr>),
                st)))"

definition downloadEnv :: "('d, 'b) webenv \<Rightarrow> string \<Rightarrow> ('d, 'b) state \<Rightarrow> response" where
  "downloadEnv env name st =
     (case get_app (weHost env) (cfgRegistryPath (weConfig env)) name (the_world st) of
        Inl e \<Rightarrow> renderError e
      | Inr None \<Rightarrow> NotFoundPage
      | Inr (Some app) \<Rightarrow> TextFile (name @ ''.env'') (env_file (Entry app) @ newline))"

definition backupsPage :: "('d, 'b) webenv \<Rightarrow> request \<Rightarrow> ('d, 'b) state \<Rightarrow> response" where
  "backupsPage env req st =
     (case ListFiles (weHost env) (cfgBackupsDir (weConfig env)) (the_world st) of
        Inl e \<Rightarrow> renderError e
      | Inr all \<Rightarrow>
          (let appFilter = trim_space (rqQuery req ''app''); serviceFilter = trim_space (rqQuery req ''service'') in
           Render ''backups.html''
             ((page env req ''Backups'' ''backups'')\<lparr>pdBackups := FilterFiles all appFilter serviceFilter,
                pdBackupApps := AppsOf all, pdBackupServices := ServicesOf all, pdSelectedApp := appFilter,
                pdSelectedService := serviceFilter\<rparr>)))"

definition downloadBackup :: "('d, 'b) webenv \<Rightarrow> string \<Rightarrow> string \<Rightarrow> ('d, 'b) state \<Rightarrow> response" where
  "downloadBackup env app file st =
     (case Resolve (weHost env) (cfgBackupsDir (weConfig env)) app file (the_world st) of
        Inl _ \<Rightarrow> NotFoundPage
      | Inr path \<Rightarrow> SendFile (path_base path) path)"

definition schedulesPage :: "('d, 'b) webenv \<Rightarrow> request \<Rightarrow> ('d, 'b) state \<Rightarrow> response \<times> ('d, 'b) state" where
  "schedulesPage env req st =
     (case list_apps (weHost env) (cfgRegistryPath (weConfig env)) (the_world st) of
        Inl e \<Rightarrow> (renderError e, st)
      | Inr apps \<Rightarrow>
     (case ListSchedules (weSql env) (mgDb st) of
        (Inl e, d1) \<Rightarrow> (renderError e, st\<lparr>mgDb := d1\<rparr>)
      | (Inr schedules, d1) \<Rightarrow>
     (case ListRuns (weSql env) (weScan env) 20 d1 of
        (Inl e, d2) \<Rightarrow> (renderError e, st\<lparr>mgDb := d2\<rparr>)
      | (Inr runs, d2) \<Rightarrow>
          (Render ''schedules.html''
             ((page env req ''Schedules'' ''schedules'')\<lparr>pdApps := apps, pdSchedules := schedules, pdRuns := runs\<rparr>),
           st\<lparr>mgDb := d2\<rparr>))))"

definition statusFragment :: "('d, 'b) webenv \<Rightarrow> request \<Rightarrow> ('d, 'b) state \<Rightarrow> response \<times> ('d, 'b) state" where
  "statusFragment env req st =
     (case list_status env st of
        (statuses, st1) \<Rightarrow>
          (Render ''status_grid.html'' ((page env req ''Status'' ''dashboard'')\<lparr>pdStatuses := statuses\<rparr>), st1))"

section \<open>Changing apps\<close>

text \<open>What the engine said since \<open>w\<close>, as the log of its run.\<close>

definition engine_log :: "'d world \<Rightarrow> 'd world \<Rightarrow> string" where
  "engine_log w w' = log_string (captured w w')"

definition app_target :: "string \<Rightarrow> string" where
  "app_target name = ''/apps/'' @ path_escape name"

definition createApp :: "('d, 'b) webenv \<Rightarrow> request \<Rightarrow> ('d, 'b) state \<Rightarrow> response \<times> ('d, 'b) state" where
  "createApp env req st =
     (case rqFormError req of
        Some e \<Rightarrow> (redirect ''/apps'' ''error'' (err_text e), st)
      | None \<Rightarrow>
     (let appName = trim_space (form_value req ''app_name'') in
      case parse_services (rqForm req ''services'') of
        Inl e \<Rightarrow> (redirect ''/apps'' ''error'' (err_text e), st)
      | Inr services \<Rightarrow>
     (if validate_app_name appName \<noteq> None then (redirect ''/apps'' ''error'' ''invalid app name'', st)
      else if services = [] then (redirect ''/apps'' ''error'' ''select at least one service'', st)
      else
     (case parseEnvsField (form_value req ''envs'') of
        Inl e \<Rightarrow> (redirect ''/apps'' ''error'' (err_text e), st)
      | Inr opts \<Rightarrow>
     (case SetupApp (weHost env) (web_engine env) appName
             \<lparr>soServices = services, soEnvs = optEnvs opts, soEnv = optEnv opts, soFullAccess = False\<rparr> (the_world st) of
        ((_, Some e), w1) \<Rightarrow>
          (redirect ''/apps'' ''error'' (withOutput e (engine_log (the_world st) w1)), set_world w1 st)
      | ((_, None), w1) \<Rightarrow>
          (let landing = (if optEnvs opts \<noteq> [] then appName @ ''-'' @ hd (optEnvs opts) else appName) in
           (redirect (app_target landing) ''success'' ''app provisioned'', set_world w1 st)))))))"

text \<open>The command runs in the root directory of the settings, which a recorded process does not show; what it wrote is
  taken as its output followed by its errors, where \<open>CombinedOutput\<close> interleaves the two.\<close>

definition startInfrastructure :: "('d, 'b) webenv \<Rightarrow> request \<Rightarrow> ('d, 'b) state \<Rightarrow> response \<times> ('d, 'b) state" where
  "startInfrastructure env req st =
     (let target = safeRedirectTarget (weAuthority env) (rqReferer req) in
      case run_docker (weHost env) [''compose'', ''--env-file'', ''.env'', ''up'', ''-d''] None (the_world st) of
        (r, w1) \<Rightarrow>
          (case exit_error (status r) of
             None \<Rightarrow> (redirect target ''success'' ''infrastructure started'', set_world w1 st)
           | Some e \<Rightarrow> (redirect target ''error'' (withOutput e (trim_space (stdout r @ stderr r))), set_world w1 st)))"

definition addServices :: "('d, 'b) webenv \<Rightarrow> request \<Rightarrow> string \<Rightarrow> ('d, 'b) state \<Rightarrow> response \<times> ('d, 'b) state" where
  "addServices env req name st =
     (case get_app (weHost env) (cfgRegistryPath (weConfig env)) name (the_world st) of
        Inl e \<Rightarrow> (redirect (app_target name) ''error'' (err_text e), st)
      | Inr None \<Rightarrow> (NotFoundPage, st)
      | Inr (Some _) \<Rightarrow>
     (case rqFormError req of
        Some e \<Rightarrow> (redirect (app_target name) ''error'' (err_text e), st)
      | None \<Rightarrow>
     (case parse_services (rqForm req ''services'') of
        Inl e \<Rightarrow> (redirect (app_target name) ''error'' (err_text e), st)
      | Inr services \<Rightarrow>
     (if services = [] then (redirect (app_target name) ''error'' ''select at least one service'', st)
      else
     (case AddServices (weHost env) (web_engine env) name \<lparr>aoServices = services, aoEnvs = [], aoEnv = []\<rparr> (the_world st) of
        ((_, Some e), w1) \<Rightarrow>
          (redirect (app_target name) ''error'' (withOutput e (engine_log (the_world st) w1)), set_world w1 st)
      | ((_, None), w1) \<Rightarrow> (redirect (app_target name) ''success'' ''services attached'', set_world w1 st))))))"

definition detachAddon :: "('d, 'b) webenv \<Rightarrow> string \<Rightarrow> string \<Rightarrow> ('d, 'b) state \<Rightarrow> response \<times> ('d, 'b) state" where
  "detachAddon env name add_on st =
     (if add_on \<notin> set valid_services then (redirect (app_target name) ''error'' ''invalid addon'', st)
      else
        (case DetachServices (weHost env) (web_engine env) name [add_on] (the_world st) of
           (Some e, w1) \<Rightarrow>
             (redirect (app_target name) ''error'' (withOutput e (engine_log (the_world st) w1)), set_world w1 st)
         | (None, w1) \<Rightarrow> (redirect (app_target name) ''success'' (add_on @ '' detached''), set_world w1 st)))"

definition removeApp :: "('d, 'b) webenv \<Rightarrow> string \<Rightarrow> ('d, 'b) state \<Rightarrow> response \<times> ('d, 'b) state" where
  "removeApp env name st =
     (case RemoveApp (weHost env) (web_engine env) name (the_world st) of
        (Some e, w1) \<Rightarrow>
          (redirect (app_target name) ''error'' (withOutput e (engine_log (the_world st) w1)), set_world w1 st)
      | (None, w1) \<Rightarrow> (redirect ''/apps'' ''success'' ''app removed'', set_world w1 st))"

section \<open>Backups\<close>

definition runManualBackup ::
  "('d, 'b) webenv \<Rightarrow> string \<Rightarrow> bool \<Rightarrow> string list \<Rightarrow> ('d, 'b) state
     \<Rightarrow> (RunResult \<times> error option) \<times> ('d, 'b) state" where
  "runManualBackup env appName all services st =
     (let recordName = (if all then ''*'' else appName) in
      case StartRun (weSql env) None recordName services (mgDb st) of
        (Inl e, d1) \<Rightarrow> ((\<lparr>rrFiles = [], rrLog = []\<rparr>, Some e), st\<lparr>mgDb := d1\<rparr>)
      | (Inr runID, d1) \<Rightarrow>
          (case Backup (weHost env) (weStore env) (weOrders env) (web_service env) appName all services (mgSite st) of
             ((res, runErr), s1) \<Rightarrow>
               (case FinishRun (weSql env) runID (run_status runErr) (trim_space (run_output res runErr)) d1 of
                  (e, d2) \<Rightarrow>
                    ((res, if e \<noteq> None \<and> runErr = None then e else runErr), st\<lparr>mgSite := s1, mgDb := d2\<rparr>))))"

definition backupApp :: "('d, 'b) webenv \<Rightarrow> request \<Rightarrow> string \<Rightarrow> ('d, 'b) state \<Rightarrow> response \<times> ('d, 'b) state" where
  "backupApp env req name st =
     (case rqFormError req of
        Some e \<Rightarrow> (redirect (app_target name) ''error'' (err_text e), st)
      | None \<Rightarrow>
     (case parse_services (rqForm req ''services'') of
        Inl e \<Rightarrow> (redirect (app_target name) ''error'' (err_text e), st)
      | Inr services \<Rightarrow>
     (case runManualBackup env name False services st of
        ((res, Some e), st1) \<Rightarrow> (redirect (app_target name) ''error'' (withOutput e (rrLog res)), st1)
      | ((res, None), st1) \<Rightarrow> (redirect (app_target name) ''success'' ''backup completed'', st1))))"

definition backupAll :: "('d, 'b) webenv \<Rightarrow> request \<Rightarrow> ('d, 'b) state \<Rightarrow> response \<times> ('d, 'b) state" where
  "backupAll env req st =
     (case rqFormError req of
        Some e \<Rightarrow> (redirect ''/backups'' ''error'' (err_text e), st)
      | None \<Rightarrow>
     (case parse_services (rqForm req ''services'') of
        Inl e \<Rightarrow> (redirect ''/backups'' ''error'' (err_text e), st)
      | Inr services \<Rightarrow>
     (case runManualBackup env ''*'' True services st of
        ((res, Some e), st1) \<Rightarrow> (redirect ''/backups'' ''error'' (withOutput e (rrLog res)), st1)
      | ((res, None), st1) \<Rightarrow> (redirect ''/backups'' ''success'' ''backup completed'', st1))))"

definition syncBackupsToS3 :: "('d, 'b) webenv \<Rightarrow> ('d, 'b) state \<Rightarrow> response \<times> ('d, 'b) state" where
  "syncBackupsToS3 env st =
     (case UploadAll (weHost env) (weStore env) (web_service env) (mgSite st) of
        ((_, Some e), s1) \<Rightarrow> (redirect ''/backups'' ''error'' (err_text e), st\<lparr>mgSite := s1\<rparr>)
      | ((uploaded, None), s1) \<Rightarrow>
          (redirect ''/backups'' ''success'' (''uploaded '' @ dec (length uploaded) @ '' backup file(s) to S3''), st\<lparr>mgSite := s1\<rparr>))"

definition restoreBackup :: "('d, 'b) webenv \<Rightarrow> string \<Rightarrow> string \<Rightarrow> ('d, 'b) state \<Rightarrow> response \<times> ('d, 'b) state" where
  "restoreBackup env app file st =
     (case Resolve (weHost env) (cfgBackupsDir (weConfig env)) app file (the_world st) of
        Inl e \<Rightarrow> (redirect ''/backups'' ''error'' (err_text e), st)
      | Inr path \<Rightarrow>
          (case RestoreFromFile (weHost env) (web_engine env) app path (the_world st) of
             (Some e, w1) \<Rightarrow>
               (redirect (app_target app) ''error'' (withOutput e (engine_log (the_world st) w1)), set_world w1 st)
           | (None, w1) \<Rightarrow> (redirect (app_target app) ''success'' ''backup restored'', set_world w1 st)))"

definition deleteBackup :: "('d, 'b) webenv \<Rightarrow> request \<Rightarrow> string \<Rightarrow> string \<Rightarrow> ('d, 'b) state \<Rightarrow> response \<times> ('d, 'b) state" where
  "deleteBackup env req app file st =
     (let target = (if rqReferer req = [] then ''/backups'' else rqReferer req) in
      case service_delete (weHost env) (weStore env) (web_service env) app file (mgSite st) of
        ((_, Some e), s1) \<Rightarrow> (redirect target ''error'' (err_text e), st\<lparr>mgSite := s1\<rparr>)
      | ((_, None), s1) \<Rightarrow> (redirect target ''success'' (''deleted '' @ file), st\<lparr>mgSite := s1\<rparr>))"

section \<open>Schedules\<close>

definition reload_then :: "('d, 'b) webenv \<Rightarrow> string \<Rightarrow> ('d, 'b) state \<Rightarrow> response \<times> ('d, 'b) state" where
  "reload_then env message st =
     (case Reload (weSql env) (weCron env) st of
        (Some e, st1) \<Rightarrow> (redirect ''/schedules'' ''error'' (err_text e), st1)
      | (None, st1) \<Rightarrow> (redirect ''/schedules'' ''success'' message, st1))"

text \<open>The checks of the form, in their order: the input of the schedule, or the message of the first that fails.\<close>

definition schedule_input :: "('d, 'b) webenv \<Rightarrow> request \<Rightarrow> 'd world \<Rightarrow> string + ScheduleInput" where
  "schedule_input env req w =
     (let raw = trim_space (form_value req ''app_name''); appName = (if raw = [] then ''*'' else raw);
          cronExpr = trim_space (form_value req ''cron_expr'');
          tz = trim_space (form_value req ''timezone''); timezone = (if tz = [] then cfgTimezone (weConfig env) else tz);
          known = get_app (weHost env) (cfgRegistryPath (weConfig env)) appName w in
      if appName \<noteq> ''*'' \<and> validate_app_name appName \<noteq> None then Inl ''invalid app name''
      else if appName \<noteq> ''*'' \<and> isl known then Inl (err_text (projl known))
      else if appName \<noteq> ''*'' \<and> known = Inr None then Inl ''app not found''
      else
        (case parse_services (rqForm req ''services'') of
           Inl e \<Rightarrow> Inl (err_text e)
         | Inr services \<Rightarrow>
             (if cronExpr = [] then Inl ''cron expression is required''
              else if Validate (weCron env) cronExpr \<noteq> None then Inl ''invalid cron expression''
              else
                (case crLocation (weCron env) timezone of
                   Inl _ \<Rightarrow> Inl ''invalid timezone''
                 | Inr _ \<Rightarrow>
                     Inr \<lparr>siAppName = appName, siServices = services, siCronExpr = cronExpr, siTimezone = timezone,
                          siRetentionDays = parseNonNegativeInt (form_value req ''retention_days'') 30,
                          siRetentionCount = parseNonNegativeInt (form_value req ''retention_count'') 0,
                          siEnabled = True\<rparr>))))"

definition createSchedule :: "('d, 'b) webenv \<Rightarrow> request \<Rightarrow> ('d, 'b) state \<Rightarrow> response \<times> ('d, 'b) state" where
  "createSchedule env req st =
     (case rqFormError req of
        Some e \<Rightarrow> (redirect ''/schedules'' ''error'' (err_text e), st)
      | None \<Rightarrow>
     (case schedule_input env req (the_world st) of
        Inl message \<Rightarrow> (redirect ''/schedules'' ''error'' message, st)
      | Inr input \<Rightarrow>
     (case CreateSchedule (weSql env) input (mgDb st) of
        (Inl e, d1) \<Rightarrow> (redirect ''/schedules'' ''error'' (err_text e), st\<lparr>mgDb := d1\<rparr>)
      | (Inr _, d1) \<Rightarrow> reload_then env ''schedule created'' (st\<lparr>mgDb := d1\<rparr>))))"

definition setScheduleEnabled :: "('d, 'b) webenv \<Rightarrow> string \<Rightarrow> bool \<Rightarrow> ('d, 'b) state \<Rightarrow> response \<times> ('d, 'b) state" where
  "setScheduleEnabled env raw enabled st =
     (case pathID raw of
        Inl e \<Rightarrow> (redirect ''/schedules'' ''error'' (err_text e), st)
      | Inr i \<Rightarrow>
          (case SetScheduleEnabled (weSql env) i enabled (mgDb st) of
             (Some e, d1) \<Rightarrow> (redirect ''/schedules'' ''error'' (err_text e), st\<lparr>mgDb := d1\<rparr>)
           | (None, d1) \<Rightarrow> reload_then env ''schedule updated'' (st\<lparr>mgDb := d1\<rparr>)))"

definition pauseSchedule :: "('d, 'b) webenv \<Rightarrow> string \<Rightarrow> ('d, 'b) state \<Rightarrow> response \<times> ('d, 'b) state" where
  "pauseSchedule env raw st = setScheduleEnabled env raw False st"

definition resumeSchedule :: "('d, 'b) webenv \<Rightarrow> string \<Rightarrow> ('d, 'b) state \<Rightarrow> response \<times> ('d, 'b) state" where
  "resumeSchedule env raw st = setScheduleEnabled env raw True st"

definition deleteSchedule :: "('d, 'b) webenv \<Rightarrow> string \<Rightarrow> ('d, 'b) state \<Rightarrow> response \<times> ('d, 'b) state" where
  "deleteSchedule env raw st =
     (case pathID raw of
        Inl e \<Rightarrow> (redirect ''/schedules'' ''error'' (err_text e), st)
      | Inr i \<Rightarrow>
          (case DeleteSchedule (weSql env) i (mgDb st) of
             (Some e, d1) \<Rightarrow> (redirect ''/schedules'' ''error'' (err_text e), st\<lparr>mgDb := d1\<rparr>)
           | (None, d1) \<Rightarrow> reload_then env ''schedule deleted'' (st\<lparr>mgDb := d1\<rparr>)))"

definition web_runSchedule :: "('d, 'b) webenv \<Rightarrow> string \<Rightarrow> ('d, 'b) state \<Rightarrow> response \<times> ('d, 'b) state" where
  "web_runSchedule env raw st =
     (case pathID raw of
        Inl e \<Rightarrow> (redirect ''/schedules'' ''error'' (err_text e), st)
      | Inr i \<Rightarrow>
          (case RunNow (web_runner env) (weSql env) i st of
             (Some e, st1) \<Rightarrow> (redirect ''/schedules'' ''error'' (err_text e), st1)
           | (None, st1) \<Rightarrow> (redirect ''/schedules'' ''success'' ''schedule started'', st1)))"

section \<open>Routes and the guard\<close>

datatype route =
    RStatic "string list" | RSlash | RDashboard | RStart | RApps | RCreateApp | RApp string | REnv string | RBackupApp string
  | RAddServices string | RDetach string string | RRemove string | RBackups | RBackupAll | RSync
  | RDownload string string | RRestore string string | RDeleteBackup string string | RSchedules | RCreateSchedule
  | RPause string | RResume string | RDeleteSchedule string | RRunSchedule string | RStatus | RLogout | RNone

text \<open>\<open>GET /\<close> matches every path no other pattern does; a wildcard matches one segment that is not empty.  The
  mux sends \<open>/static\<close> to \<open>/static/\<close>, the pattern of a directory (with the request's query, which is not
  modelled here).\<close>

definition get_route :: "string list \<Rightarrow> route" where
  "get_route segs =
     (case segs of
        [] \<Rightarrow> RDashboard
      | a # rest \<Rightarrow>
          (if a = ''static'' then (if rest = [] then RSlash else RStatic rest)
           else
             (case rest of
                [] \<Rightarrow>
                  (if a = ''apps'' then RApps else if a = ''backups'' then RBackups
                   else if a = ''schedules'' then RSchedules else if a = ''logout'' then RLogout else RDashboard)
              | [b] \<Rightarrow>
                  (if a = ''apps'' \<and> b \<noteq> [] then RApp b
                   else if a = ''fragments'' \<and> b = ''status'' then RStatus else RDashboard)
              | [b, c] \<Rightarrow> (if a = ''apps'' \<and> b \<noteq> [] \<and> c = ''env'' then REnv b else RDashboard)
              | [b, c, d] \<Rightarrow>
                  (if a = ''backups'' \<and> b \<noteq> [] \<and> c \<noteq> [] \<and> d = ''download'' then RDownload b c else RDashboard)
              | _ \<Rightarrow> RDashboard)))"

definition post_route :: "string list \<Rightarrow> route" where
  "post_route segs =
     (case segs of
        [a] \<Rightarrow> (if a = ''apps'' then RCreateApp else if a = ''schedules'' then RCreateSchedule else RNone)
      | [a, b] \<Rightarrow>
          (if a = ''infra'' \<and> b = ''start'' then RStart else if a = ''backups'' \<and> b = ''run'' then RBackupAll else RNone)
      | [a, b, c] \<Rightarrow>
          (if a = ''backups'' \<and> b = ''s3'' \<and> c = ''sync'' then RSync
           else if b = [] then RNone
           else if a = ''apps'' \<and> c = ''backup'' then RBackupApp b
           else if a = ''apps'' \<and> c = ''services'' then RAddServices b
           else if a = ''apps'' \<and> c = ''remove'' then RRemove b
           else if a = ''schedules'' \<and> c = ''pause'' then RPause b
           else if a = ''schedules'' \<and> c = ''resume'' then RResume b
           else if a = ''schedules'' \<and> c = ''delete'' then RDeleteSchedule b
           else if a = ''schedules'' \<and> c = ''run'' then RRunSchedule b
           else RNone)
      | [a, b, c, d] \<Rightarrow>
          (if b = [] \<or> c = [] then RNone
           else if a = ''backups'' \<and> d = ''restore'' then RRestore b c
           else if a = ''backups'' \<and> d = ''delete'' then RDeleteBackup b c else RNone)
      | [a, b, c, d, e] \<Rightarrow>
          (if a = ''apps'' \<and> b \<noteq> [] \<and> c = ''addons'' \<and> d \<noteq> [] \<and> e = ''detach'' then RDetach b d else RNone)
      | _ \<Rightarrow> RNone)"

text \<open>A \<open>GET\<close> pattern also serves \<open>HEAD\<close>; since \<open>GET /\<close> matches any path, a path with no pattern for the
  method is answered 405.\<close>

definition route_of :: "request \<Rightarrow> route" where
  "route_of req =
     (if rqMethod req = ''GET'' \<or> rqMethod req = ''HEAD'' then get_route (rqSegments req)
      else if rqMethod req = ''POST'' then post_route (rqSegments req) else RNone)"

definition handle :: "('d, 'b) webenv \<Rightarrow> request \<Rightarrow> ('d, 'b) state \<Rightarrow> response \<times> ('d, 'b) state" where
  "handle env req st =
     (case route_of req of
        RStatic p \<Rightarrow> (StaticFile p, st)
      | RSlash \<Rightarrow> (Moved ''/static/'', st)
      | RDashboard \<Rightarrow> dashboard env req st
      | RStart \<Rightarrow> startInfrastructure env req st
      | RApps \<Rightarrow> appsPage env req st
      | RCreateApp \<Rightarrow> createApp env req st
      | RApp n \<Rightarrow> appDetail env req n st
      | REnv n \<Rightarrow> (downloadEnv env n st, st)
      | RBackupApp n \<Rightarrow> backupApp env req n st
      | RAddServices n \<Rightarrow> addServices env req n st
      | RDetach n a \<Rightarrow> detachAddon env n a st
      | RRemove n \<Rightarrow> removeApp env n st
      | RBackups \<Rightarrow> (backupsPage env req st, st)
      | RBackupAll \<Rightarrow> backupAll env req st
      | RSync \<Rightarrow> syncBackupsToS3 env st
      | RDownload a f \<Rightarrow> (downloadBackup env a f st, st)
      | RRestore a f \<Rightarrow> restoreBackup env a f st
      | RDeleteBackup a f \<Rightarrow> deleteBackup env req a f st
      | RSchedules \<Rightarrow> schedulesPage env req st
      | RCreateSchedule \<Rightarrow> createSchedule env req st
      | RPause i \<Rightarrow> pauseSchedule env i st
      | RResume i \<Rightarrow> resumeSchedule env i st
      | RDeleteSchedule i \<Rightarrow> deleteSchedule env i st
      | RRunSchedule i \<Rightarrow> web_runSchedule env i st
      | RStatus \<Rightarrow> statusFragment env req st
      | RLogout \<Rightarrow> (LogoutPage, st)
      | RNone \<Rightarrow> (MethodNotAllowed, st))"

definition same :: "string \<Rightarrow> string \<Rightarrow> bool" where
  "same a b = (if length a \<noteq> length b then False else a = b)"

definition authorized :: "('d, 'b) webenv \<Rightarrow> request \<Rightarrow> bool" where
  "authorized env req =
     (case rqCredentials req of
        None \<Rightarrow> False
      | Some (user, pass) \<Rightarrow>
          same user (cfgUsername (weConfig env)) \<and> same pass (cfgPassword (weConfig env)))"

text \<open>\<open>auth.Basic\<close> around the routes: everything but \<open>/logout\<close> asks for the credentials.\<close>

definition serve :: "('d, 'b) webenv \<Rightarrow> request \<Rightarrow> ('d, 'b) state \<Rightarrow> response \<times> ('d, 'b) state" where
  "serve env req st =
     (if rqSegments req = [''logout''] then handle env req st
      else if \<not> authorized env req then (Unauthorized, st) else handle env req st)"

end
