(* ===== verification/WebSafety.thy ===== *)
theory WebSafety
  imports WebServer
begin

text \<open>
  What the web server promises: without the credentials nothing happens, a \<open>GET\<close> changes nothing, a form
  becomes a schedule only when the rest of the program accepts its every field, and a redirection back to
  the referer is a rooted path.
\<close>

section \<open>Reading only\<close>

text \<open>What a page asks docker for: the state of a container.\<close>

definition asks_state :: "string list \<times> string option \<Rightarrow> bool" where
  "asks_state c = (take 2 (fst c) = [''inspect'', ''--format={{.State.Status}}''] \<and> snd c = None)"

text \<open>The state differs from \<open>st\<close> by what looking at it costs: statements that read, and \<open>docker inspect\<close>.\<close>

definition only_looks :: "('d, 'b) state \<Rightarrow> ('d, 'b) state \<Rightarrow> bool" where
  "only_looks st st' =
     (\<exists>w t. ran asks_state (the_world st) w \<and>
        st' = st\<lparr>mgDb := (mgDb st)\<lparr>dbTick := t\<rparr>, mgSite := (mgSite st)\<lparr>machine := w\<rparr>\<rparr>)"

lemma only_looksI:
  "ran asks_state (the_world st) w \<Longrightarrow>
     only_looks st (st\<lparr>mgDb := (mgDb st)\<lparr>dbTick := t\<rparr>, mgSite := (mgSite st)\<lparr>machine := w\<rparr>\<rparr>)"
  by (auto simp: only_looks_def)

lemma only_looks_refl [simp]: "only_looks st st"
  using only_looksI [of st "the_world st" "dbTick (mgDb st)"] by (simp add: the_world_def)

lemma only_looks_trans [trans]: "only_looks a b \<Longrightarrow> only_looks b c \<Longrightarrow> only_looks a c"
proof -
  assume "only_looks a b" "only_looks b c"
  then obtain w1 t1 w2 t2 where "ran asks_state (the_world a) w1" "ran asks_state (the_world b) w2"
    and b: "b = a\<lparr>mgDb := (mgDb a)\<lparr>dbTick := t1\<rparr>, mgSite := (mgSite a)\<lparr>machine := w1\<rparr>\<rparr>"
    and c: "c = b\<lparr>mgDb := (mgDb b)\<lparr>dbTick := t2\<rparr>, mgSite := (mgSite b)\<lparr>machine := w2\<rparr>\<rparr>"
    unfolding only_looks_def by blast
  then have "ran asks_state (the_world a) w2" by (auto simp: the_world_def intro: ran_trans)
  from only_looksI [OF this, of t2] show ?thesis by (simp add: b c)
qed

lemma only_looks_db [simp]: "only_looks st (st\<lparr>mgDb := (mgDb st)\<lparr>dbTick := t\<rparr>\<rparr>)"
  using only_looksI [of st "the_world st" t] by (simp add: the_world_def)

lemma inspect_all_ran: "inspect_all h items w = (ss, w') \<Longrightarrow> ran asks_state w w'"
proof (induction items arbitrary: w ss)
  case (Cons i items)
  obtain s w1 where 1: "inspect_container h i w = (s, w1)" by fastforce
  obtain ss' w2 where 2: "inspect_all h items w1 = (ss', w2)" by fastforce
  obtain r where "run_docker h [''inspect'', ''--format={{.State.Status}}'', snd i] None w = (r, w1)"
    using 1 by (auto simp: inspect_container_def Let_def split: prod.splits if_splits)
  then have "ran asks_state w w1" by (rule ran_run_docker) (simp add: asks_state_def)
  with Cons 1 2 show ?case by (auto intro: ran_trans)
qed simp

lemma list_status_looks:
  assumes "list_status env st = (ss, st')"
  shows "only_looks st st'"
proof -
  obtain w where w: "ListStatus (weHost env) (the_world st) = (ss, w)" "st' = set_world w st"
    using assms by (auto simp: list_status_def split: prod.splits)
  then have "ran asks_state (the_world st) w" by (auto simp: ListStatus_def dest: inspect_all_ran)
  from only_looksI [OF this, of "dbTick (mgDb st)"] w show ?thesis by (simp add: set_world_def)
qed

lemma reads_tick:
  "ListSchedules e d = (r, d') \<Longrightarrow> \<exists>t. d' = d\<lparr>dbTick := t\<rparr>"
  "ListRuns e scan limit d = (r', d') \<Longrightarrow> \<exists>t. d' = d\<lparr>dbTick := t\<rparr>"
  by (auto simp: ListSchedules_def ListRuns_def sql_do_def Let_def split: option.splits)

lemma dashboard_looks:
  assumes "dashboard env req st = (resp, st')"
  shows "only_looks st st'"
proof -
  obtain d1 r1 where 1: "ListSchedules (weSql env) (mgDb st) = (r1, d1)" by fastforce
  obtain d2 r2 where 2: "ListRuns (weSql env) (weScan env) 8 d1 = (r2, d2)" by fastforce
  obtain ss st1 where 3: "list_status env (st\<lparr>mgDb := d2\<rparr>) = (ss, st1)" by fastforce
  have d: "only_looks st (st\<lparr>mgDb := d1\<rparr>)" "only_looks st (st\<lparr>mgDb := d2\<rparr>)"
    using reads_tick(1) [OF 1] reads_tick(2) [OF 2] by auto
  have "st' \<in> {st, st\<lparr>mgDb := d1\<rparr>, st\<lparr>mgDb := d2\<rparr>, st1}"
    using assms by (simp add: dashboard_def 1 2 3 split: sum.splits)
  with d only_looks_trans [OF d(2) list_status_looks [OF 3]] show ?thesis by auto
qed

lemma schedulesPage_looks:
  assumes "schedulesPage env req st = (resp, st')"
  shows "only_looks st st'"
proof -
  obtain d1 r1 where 1: "ListSchedules (weSql env) (mgDb st) = (r1, d1)" by fastforce
  obtain d2 r2 where 2: "ListRuns (weSql env) (weScan env) 20 d1 = (r2, d2)" by fastforce
  have "only_looks st (st\<lparr>mgDb := d1\<rparr>)" "only_looks st (st\<lparr>mgDb := d2\<rparr>)"
    using reads_tick(1) [OF 1] reads_tick(2) [OF 2] by auto
  moreover have "st' \<in> {st, st\<lparr>mgDb := d1\<rparr>, st\<lparr>mgDb := d2\<rparr>}"
    using assms by (simp add: schedulesPage_def 1 2 split: sum.splits)
  ultimately show ?thesis by auto
qed

lemma other_pages_look:
  "appsPage env req st = (resp, st') \<Longrightarrow> only_looks st st'"
  "statusFragment env req st = (resp, st') \<Longrightarrow> only_looks st st'"
  "appDetail env req n st = (resp, st') \<Longrightarrow> only_looks st st'"
  by (auto simp: appsPage_def statusFragment_def appDetail_def split: sum.splits prod.splits option.splits
      dest: list_status_looks)

fun page_route :: "route \<Rightarrow> bool" where
  "page_route RSlash = True"
| "page_route RDashboard = True"
| "page_route RApps = True"
| "page_route RBackups = True"
| "page_route RSchedules = True"
| "page_route RStatus = True"
| "page_route RLogout = True"
| "page_route (RStatic p) = True"
| "page_route (RApp n) = True"
| "page_route (REnv n) = True"
| "page_route (RDownload a f) = True"
| "page_route r = False"

lemma get_route_page: "page_route (get_route segs)"
  unfolding get_route_def by (simp split: list.split)

lemma handle_page:
  assumes "handle env req st = (resp, st')" "page_route (route_of req)"
  shows "only_looks st st'"
  using assms
  by (cases "route_of req") (simp_all add: handle_def dashboard_looks schedulesPage_looks other_pages_look)

section \<open>Redirections\<close>

lemma query_words: "query_escape ''error'' = ''error''" "query_escape ''success'' = ''success''"
  by (simp_all add: query_escape_def query_char_def is_lower_def less_eq_char_def)

lemma redirect_kinds: "redirect t ''error'' e \<noteq> redirect t ''success'' (c # cs)"
  by (simp add: redirect_def query_words)

lemma safeRedirectTarget_rooted: "\<exists>rest. safeRedirectTarget ok referer = slash # rest"
  by (auto simp: safeRedirectTarget_def slash_def neq_Nil_conv split: option.splits)

section \<open>The form of a schedule\<close>

lemma parseNonNegativeInt_nonneg: "0 \<le> fallback \<Longrightarrow> 0 \<le> parseNonNegativeInt v fallback"
  by (auto simp: parseNonNegativeInt_def Let_def split: sum.splits)

lemma parse_services_valid:
  assumes "parse_services vs = Inr services"
  shows "set services \<subseteq> set valid_services \<and> distinct services"
  using assms by (auto simp: parse_services_eq set_dedup_from distinct_dedup_from split: if_splits)

lemma valid_service_word: "set services \<subseteq> set valid_services \<Longrightarrow> list_all service_word services"
proof -
  have "list_all (\<lambda>s. CHR '','' \<notin> set s) valid_services" by code_simp
  then show "set services \<subseteq> set valid_services \<Longrightarrow> list_all service_word services"
    using valid_services_graphic by (auto simp: list_all_iff service_word_def)
qed

lemma schedule_input_checked:
  assumes "schedule_input env req w = Inr input"
  shows "(siAppName input = ''*'' \<or> name_pattern (siAppName input) \<and>
        (\<exists>app. get_app (weHost env) (cfgRegistryPath (weConfig env)) (siAppName input) w = Inr (Some app)))
    \<and> set (siServices input) \<subseteq> set valid_services \<and> distinct (siServices input)
    \<and> siCronExpr input \<noteq> [] \<and> crParse (weCron env) (siCronExpr input) = None
    \<and> (\<exists>location. crLocation (weCron env) (siTimezone input) = Inr location)
    \<and> 0 \<le> siRetentionDays input \<and> 0 \<le> siRetentionCount input \<and> siEnabled input"
proof -
  define name where "name = (if trim_space (form_value req ''app_name'') = [] then ''*'' else trim_space (form_value req ''app_name''))"
  define expr where "expr = trim_space (form_value req ''cron_expr'')"
  define zone where "zone = (if trim_space (form_value req ''timezone'') = [] then cfgTimezone (weConfig env)
      else trim_space (form_value req ''timezone''))"
  define known where "known = get_app (weHost env) (cfgRegistryPath (weConfig env)) name w"
  have u: "schedule_input env req w =
      (if name \<noteq> ''*'' \<and> validate_app_name name \<noteq> None then Inl ''invalid app name''
       else if name \<noteq> ''*'' \<and> isl known then Inl (err_text (projl known))
       else if name \<noteq> ''*'' \<and> known = Inr None then Inl ''app not found''
       else
         (case parse_services (rqForm req ''services'') of
            Inl e \<Rightarrow> Inl (err_text e)
          | Inr services \<Rightarrow>
              (if expr = [] then Inl ''cron expression is required''
               else if Validate (weCron env) expr \<noteq> None then Inl ''invalid cron expression''
               else
                 (case crLocation (weCron env) zone of
                    Inl _ \<Rightarrow> Inl ''invalid timezone''
                  | Inr _ \<Rightarrow>
                      Inr \<lparr>siAppName = name, siServices = services, siCronExpr = expr, siTimezone = zone,
                           siRetentionDays = parseNonNegativeInt (form_value req ''retention_days'') 30,
                           siRetentionCount = parseNonNegativeInt (form_value req ''retention_count'') 0,
                           siEnabled = True\<rparr>))))"
    unfolding schedule_input_def Let_def known_def name_def expr_def zone_def ..
  have app: "name = ''*'' \<or> validate_app_name name = None \<and> (\<exists>a. known = Inr (Some a))"
    using assms unfolding u by (cases known) (auto split: if_splits)
  obtain services location where s: "parse_services (rqForm req ''services'') = Inr services"
      and l: "crLocation (weCron env) zone = Inr location" and e: "expr \<noteq> []" "Validate (weCron env) expr = None"
      and i: "input = \<lparr>siAppName = name, siServices = services, siCronExpr = expr, siTimezone = zone,
            siRetentionDays = parseNonNegativeInt (form_value req ''retention_days'') 30,
            siRetentionCount = parseNonNegativeInt (form_value req ''retention_count'') 0, siEnabled = True\<rparr>"
    using assms unfolding u by (auto split: if_splits sum.splits)
  have "name = ''*'' \<or> name_pattern name \<and> (\<exists>a. known = Inr (Some a))"
    using app by (auto simp: validate_app_name_def app_name_pattern_def split: if_splits)
  then show ?thesis
    using parse_services_valid [OF s] l e
    by (auto simp: i known_def Validate_def parseNonNegativeInt_nonneg)
qed

section \<open>A schedule and its job\<close>

lemma createSchedule_success:
  assumes "createSchedule env req st = (redirect ''/schedules'' ''success'' ''schedule created'', st')"
  obtains input sch d1 where "schedule_input env req (the_world st) = Inr input"
    "CreateSchedule (weSql env) input (mgDb st) = (Inr sch, d1)"
    "Reload (weSql env) (weCron env) (st\<lparr>mgDb := d1\<rparr>) = (None, st')"
proof -
  note no = redirect_kinds [of "''/schedules''" _ "CHR ''s''" "''chedule created''"]
  show thesis
    using assms that
    by (auto simp: createSchedule_def reload_then_def no split: option.splits sum.splits prod.splits)
qed

lemma filter_map_filter:
  assumes "distinct (map k xs)" "\<And>x p. f x = Some p \<Longrightarrow> fst p = k x"
  shows "filter (\<lambda>p. fst p = i) (List.map_filter f xs)
    = (case find (\<lambda>x. k x = i) xs of None \<Rightarrow> [] | Some x \<Rightarrow> (case f x of None \<Rightarrow> [] | Some p \<Rightarrow> [p]))"
  using assms(1)
proof (induction xs)
  case (Cons x xs)
  have "filter (\<lambda>p. fst p = i) (List.map_filter f xs) = []" if "k x = i"
    using Cons.prems that assms(2) by (force simp: filter_empty_conv set_map_filter)
  with Cons show ?case
    by (auto simp: List.map_filter_simps dest: assms(2) split: option.split)
qed (simp add: List.map_filter_simps)

text \<open>The jobs of a schedule just created: its expression, in the zone of the schedule when that is not the
  scheduler's own, if the cron library takes that.\<close>

lemma created_jobs:
  assumes "createSchedule env req st = (redirect ''/schedules'' ''success'' ''schedule created'', st')"
    "jobs_ok st" "db_ok (mgDb st)"
  shows "\<exists>input location. schedule_input env req (the_world st) = Inr input
    \<and> crLocation (weCron env) (siTimezone input) = Inr location
    \<and> map jbSpec (filter (\<lambda>j. jbSchedule j = dbScheduleSeq (mgDb st) + 1) (mgCron st'))
        = (if crParse (weCron env) (job_spec st location (siCronExpr input)) = None
           then [job_spec st location (siCronExpr input)] else [])"
proof -
  obtain input sch d1 where i: "schedule_input env req (the_world st) = Inr input"
    and c: "CreateSchedule (weSql env) input (mgDb st) = (Inr sch, d1)"
    and r: "Reload (weSql env) (weCron env) (st\<lparr>mgDb := d1\<rparr>) = (None, st')"
    using createSchedule_success [OF assms(1)] by blast
  note ok = schedule_input_checked [OF i]
  obtain location where l: "crLocation (weCron env) (siTimezone input) = Inr location" using ok by blast
  note row = created_row [OF c assms(3) valid_service_word]
  have d1: "db_ok d1" using CreateSchedule_keeps [OF c] assms(3) by (simp add: keeps_def)
  have j: "jobs_ok (st\<lparr>mgDb := d1\<rparr>)" "db_ok (mgDb (st\<lparr>mgDb := d1\<rparr>))" using assms(2) d1 by simp_all
  let ?i = "dbScheduleSeq (mgDb st) + 1"
  let ?spec = "job_spec st location (siCronExpr input)"
  have jf: "job_for (weCron env) (st\<lparr>mgDb := d1\<rparr>) = job_for (weCron env) st" by (rule job_for_cong) simp
  have m: "map (\<lambda>j. (jbSchedule j, jbSpec j)) (mgCron st') = List.map_filter (job_for (weCron env) st) (listed d1)"
    using Reload_all [OF r j] by (simp add: jf)
  have sch: "sch \<in> set (listed d1)" "shID sch = ?i" using row ok by (auto simp: set_listed)
  have f: "find (\<lambda>x. shID x = ?i) (listed d1) = Some sch"
    using find_distinct [OF listed_ids [OF d1] sch(1)] sch(2) by simp
  have jb: "job_for (weCron env) st sch = (if crParse (weCron env) ?spec = None then Some (?i, ?spec) else None)"
    using row ok l by (auto simp: job_for_def Let_def)
  have "map jbSpec (filter (\<lambda>j. jbSchedule j = ?i) (mgCron st'))
      = map snd (filter (\<lambda>p. fst p = ?i) (map (\<lambda>j. (jbSchedule j, jbSpec j)) (mgCron st')))"
    by (simp add: filter_map comp_def)
  also have "filter (\<lambda>p. fst p = ?i) (map (\<lambda>j. (jbSchedule j, jbSpec j)) (mgCron st'))
      = (case job_for (weCron env) st sch of None \<Rightarrow> [] | Some p \<Rightarrow> [p])"
    unfolding m by (subst filter_map_filter [OF listed_ids [OF d1]]) (auto simp: f dest: job_for_id)
  also have "map snd \<dots> = (if crParse (weCron env) ?spec = None then [?spec] else [])" by (simp add: jb)
  finally show ?thesis using i l by blast
qed

section \<open>The form of an app\<close>

lemma parseEnvsField_names:
  assumes "parseEnvsField v = Inr opts"
  shows "list_all name_pattern (optEnvs opts) \<and> (optEnv opts = [] \<or> name_pattern (optEnv opts))"
  using assms ParseEnvs_Inr [of "trim_space v"]
  by (auto simp: parseEnvsField_def ParseSingleEnv_def env_name_pattern_def Let_def split: if_splits sum.splits)

definition app_options :: "string list \<Rightarrow> Options \<Rightarrow> SetupOptions" where
  "app_options services opts =
     \<lparr>soServices = services, soEnvs = optEnvs opts, soEnv = optEnv opts, soFullAccess = False\<rparr>"

text \<open>Where a request that is not answered with an error lands.\<close>

definition landing_of :: "request \<Rightarrow> Options \<Rightarrow> string" where
  "landing_of req opts =
     (let name = trim_space (form_value req ''app_name'') in
      if optEnvs opts \<noteq> [] then name @ ''-'' @ hd (optEnvs opts) else name)"

lemma createApp_cases:
  assumes "createApp env req st = (resp, st')" "\<And>m. resp \<noteq> redirect ''/apps'' ''error'' m"
  shows "\<exists>services opts results w1.
    parse_services (rqForm req ''services'') = Inr services
    \<and> parseEnvsField (form_value req ''envs'') = Inr opts
    \<and> SetupApp (weHost env) (web_engine env) (trim_space (form_value req ''app_name'')) (app_options services opts)
       (the_world st) = ((results, None), w1)
    \<and> resp = redirect (app_target (landing_of req opts)) ''success'' ''app provisioned'' \<and> st' = set_world w1 st"
proof -
  let ?name = "trim_space (form_value req ''app_name'')"
  have no: "createApp env req st \<noteq> (redirect ''/apps'' ''error'' m, st1)" for m st1
    using assms by auto
  have 1: "rqFormError req = None" using no by (cases "rqFormError req") (auto simp: createApp_def)
  obtain services where 2: "parse_services (rqForm req ''services'') = Inr services"
    using no 1 by (cases "parse_services (rqForm req ''services'')") (auto simp: createApp_def Let_def)
  have "\<not> (validate_app_name ?name \<noteq> None)"
  proof
    assume "validate_app_name ?name \<noteq> None"
    then have "createApp env req st = (redirect ''/apps'' ''error'' ''invalid app name'', st)"
      by (simp add: createApp_def 1 2 Let_def)
    with no show False by blast
  qed
  then have v: "validate_app_name ?name = None" by blast
  have "services \<noteq> []"
  proof
    assume "services = []"
    then have "createApp env req st = (redirect ''/apps'' ''error'' ''select at least one service'', st)"
      by (simp add: createApp_def 1 2 v Let_def)
    with no show False by blast
  qed
  note 3 = v this
  obtain opts where 4: "parseEnvsField (form_value req ''envs'') = Inr opts"
    using no 1 2 3 by (cases "parseEnvsField (form_value req ''envs'')") (auto simp: createApp_def Let_def)
  have c: "createApp env req st =
      (case SetupApp (weHost env) (web_engine env) ?name (app_options services opts) (the_world st) of
         ((_, Some e), w1) \<Rightarrow>
           (redirect ''/apps'' ''error'' (withOutput e (engine_log (the_world st) w1)), set_world w1 st)
       | ((_, None), w1) \<Rightarrow>
           (redirect (app_target (landing_of req opts)) ''success'' ''app provisioned'', set_world w1 st))"
    unfolding createApp_def landing_of_def app_options_def Let_def using 1 2 3 4 by simp
  obtain results err w1 where 5: "SetupApp (weHost env) (web_engine env) ?name (app_options services opts) (the_world st)
      = ((results, err), w1)" by (metis prod.collapse)
  have "err = None" using no c 5 by (cases err) auto
  with 2 4 5 c assms(1) show ?thesis by auto
qed

lemma app_created:
  assumes "reads_ok (weHost env)" "registry_path (cfgRegistryPath (weConfig env))"
    "ascii (getenv (weHost env) ''SIGNOZ_DEFAULT_ENV'')"
    "store_load (weHost env) (cfgRegistryPath (weConfig env)) (the_world st) = Inr reg" "storable reg"
    "createApp env req st = (resp, st')" "\<And>m. resp \<noteq> redirect ''/apps'' ''error'' m"
  shows "\<exists>services results landing app.
      parse_services (rqForm req ''services'') = Inr services
    \<and> store_load (weHost env) (cfgRegistryPath (weConfig env)) (the_world st') = Inr (saved_version (fold put_entry results reg))
    \<and> (\<forall>r \<in> set results. fmlookup (Apps reg) (trName r) = None
         \<and> set (trProvisioned r) \<union> fset (fmdom (trFailures r)) = set services)
    \<and> resp = redirect (app_target landing) ''success'' ''app provisioned''
    \<and> get_app (weHost env) (cfgRegistryPath (weConfig env)) landing (the_world st') = Inr (Some app)"
proof -
  obtain services opts results w1 where p: "parse_services (rqForm req ''services'') = Inr services"
    and o: "parseEnvsField (form_value req ''envs'') = Inr opts"
    and s: "SetupApp (weHost env) (web_engine env) (trim_space (form_value req ''app_name'')) (app_options services opts)
       (the_world st) = ((results, None), w1)"
    and r: "resp = redirect (app_target (landing_of req opts)) ''success'' ''app provisioned''"
    and st': "st' = set_world w1 st"
    using createApp_cases [OF assms(6,7)] by (elim exE conjE)
  let ?name = "trim_space (form_value req ''app_name'')" and ?so = "app_options services opts"
  let ?path = "cfgRegistryPath (weConfig env)"
  have path: "StorePath (web_engine env) = ?path" by (simp add: web_engine_def)
  have asc: "list_all ascii (soEnv ?so # soEnvs ?so)"
    using parseEnvsField_names [OF o] ascii_name by (auto simp: app_options_def list_all_iff)
  note reg = SetupApp_registers [OF assms(1) _ _ assms(5) asc assms(3) s, unfolded path, OF assms(2,4)]
  have ts: "list_all2 (answers services) (setup_list ?name ?so) results" using reg by (simp add: app_options_def)
  have ct: "check_targets reg (setup_list ?name ?so) = None"
    using SetupApp_phases [OF s] assms(4) by (auto simp: path)
  have new: "fmlookup (Apps reg) (trName x) = None \<and> set (trProvisioned x) \<union> fset (fmdom (trFailures x)) = set services"
    if "x \<in> set results" for x
  proof -
    have "\<exists>t \<in> set (setup_list ?name ?so). answers services t x"
      using ts that by (metis list_all2_conv_all_nth in_set_conv_nth)
    then obtain t where "t \<in> set (setup_list ?name ?so)" "answers services t x" by blast
    moreover have "\<forall>t \<in> set (setup_list ?name ?so). fmlookup (Apps reg) (tgName t) = None"
      using ct unfolding check_targets_None list_all_iff by blast
    ultimately show ?thesis by (simp add: answers_def)
  qed
  define landing where "landing = landing_of req opts"
  have "landing = tgName (hd (setup_list ?name ?so))"
    by (cases "optEnvs opts") (simp_all add: landing_def landing_of_def Let_def setup_list_def BuildSetupTargets_def env_target_def app_options_def)
  moreover have "map trName results = map tgName (setup_list ?name ?so)"
    using ts by (auto simp: list_all2_conv_all_nth answers_def intro: nth_equalityI)
  ultimately have "landing \<in> trName ` set results"
    by (metis hd_in_set image_eqI set_map setup_list_nonempty)
  then obtain e where "fmlookup (Apps (fold put_entry results reg)) landing = Some e"
    using lookup_put_entries(1) [of results reg landing] by auto
  then have "get_app (weHost env) ?path landing w1 = Inr (Some \<lparr>AppName = landing, AppCreatedAt = CreatedAt e, Entry = e\<rparr>)"
    using reg by (simp add: get_app_def find_app_def saved_version_def)
  with p r reg new show ?thesis by (auto simp: st' set_world_def the_world_def landing_def)
qed

section \<open>The properties\<close>

text \<open>C28: a request without exactly the configured user and password reaches no handler: it is answered 401 and
  changes nothing, whatever its method, path and form are; only the page that ends the session is open.\<close>

theorem guard_exact:
  "serve env req st =
     (if rqCredentials req = Some (cfgUsername (weConfig env), cfgPassword (weConfig env)) then handle env req st
      else if rqSegments req \<noteq> [''logout''] then (Unauthorized, st)
      else (if rqMethod req \<in> {''GET'', ''HEAD''} then LogoutPage else MethodNotAllowed, st))"
proof -
  have a: "authorized env req \<longleftrightarrow> rqCredentials req = Some (cfgUsername (weConfig env), cfgPassword (weConfig env))"
    by (auto simp: authorized_def same_def split: option.splits if_splits)
  have "handle env req st = (if rqMethod req \<in> {''GET'', ''HEAD''} then LogoutPage else MethodNotAllowed, st)"
    if "rqSegments req = [''logout'']"
    by (simp add: handle_def route_of_def that get_route_def post_route_def)
  then show ?thesis by (simp add: serve_def a)
qed

text \<open>C29: \<open>GET\<close> and \<open>HEAD\<close> are safe: whatever page is asked for, with or without the credentials, no file, no row,
  no job and no object changes, and docker is at most asked for the state of containers.\<close>

theorem get_is_safe:
  assumes "rqMethod req = ''GET'' \<or> rqMethod req = ''HEAD''" "serve env req st = (resp, st')"
  shows "\<exists>w t. st' = st\<lparr>mgDb := (mgDb st)\<lparr>dbTick := t\<rparr>, mgSite := (mgSite st)\<lparr>machine := w\<rparr>\<rparr>
    \<and> files w = files (the_world st) \<and> calls_only asks_state (the_world st) w"
proof -
  have "route_of req = get_route (rqSegments req)" using assms(1) by (auto simp: route_of_def)
  then have "only_looks st st'"
    using assms(2) handle_page [of env req st resp st'] get_route_page by (auto simp: serve_def split: if_splits)
  then show ?thesis by (auto simp: only_looks_def ran_files dest: acts_calls_only [OF ran_acts])
qed


text \<open>C31: a schedule the page reports as created has one job, in its time zone, exactly when the cron library also
  takes the expression with the zone in front of it; otherwise the page still says created and nothing will run.\<close>

theorem schedule_gets_job:
  assumes "createSchedule env req st = (redirect ''/schedules'' ''success'' ''schedule created'', st')"
    "jobs_ok st" "db_ok (mgDb st)"
  shows "\<exists>input location. schedule_input env req (the_world st) = Inr input
    \<and> crLocation (weCron env) (siTimezone input) = Inr location
    \<and> map jbSpec (filter (\<lambda>j. jbSchedule j = dbScheduleSeq (mgDb st) + 1) (mgCron st'))
        = (if crParse (weCron env) (job_spec st location (siCronExpr input)) = None
           then [job_spec st location (siCronExpr input)] else [])"
  by (rule created_jobs [OF assms])


text \<open>A redirection to the referer is a rooted path (\<open>safeRedirectTarget_rooted\<close>), but a path of two slashes is
  another host to a browser, and is let through.\<close>

lemma referer_other_host:
  "safeRedirectTarget (\<lambda>_. True) ''http://shelf//evil.example/x'' = ''//evil.example/x''"
  by code_simp

section \<open>A server to try them on\<close>

definition demo_config :: Config where
  "demo_config = \<lparr>cfgAddr = '':8080'', cfgUsername = ''admin'', cfgPassword = ''secret'', cfgUsingDefaultPassword = False,
     cfgRootDir = ''/srv'', cfgRegistryPath = ''/d/apps.json'', cfgBackupsDir = ''/d/backups'',
     cfgDatabasePath = ''/d/shelf.db'', cfgTimezone = ''utc'', cfgS3 = demo_s3\<rparr>"

text \<open>A cron library that knows the descriptors, behind at most one time zone.\<close>

definition zoned_cron :: cron_api where
  "zoned_cron = \<lparr>crParse = (\<lambda>s.
       (let body = (if has_prefix s ''CRON_TZ='' then tl (dropWhile (\<lambda>c. c \<noteq> CHR '' '') s) else s) in
        if has_prefix body ''@'' then None else Some (errorf ''expected exactly 5 fields''))),
     crNext = (\<lambda>_ _ t. t + day_ns), crLocation = Inr\<rparr>"

definition demo_webenv :: "(unit, string \<times> string \<Rightarrow> string option) webenv" where
  "demo_webenv = \<lparr>weHost = demo_host, weStore = demo_store, weOrders = demo_orders, weSql = demo_env,
     weCron = zoned_cron, weScan = (\<lambda>rows. rows), weAuthority = (\<lambda>_. True), weConfig = demo_config,
     weClient = Some demo_s3\<rparr>"

definition demo_post :: "string \<Rightarrow> request" where
  "demo_post expr = \<lparr>rqMethod = ''POST'', rqSegments = [''schedules''], rqCredentials = None, rqFormError = None,
     rqForm = (\<lambda>k. if k = ''cron_expr'' then [expr] else if k = ''timezone'' then [''tokyo''] else []),
     rqQuery = (\<lambda>_. []), rqReferer = []\<rparr>"

definition own_zone :: string where
  "own_zone = ''CRON_TZ=UTC @daily''"

definition demo_accepted :: ScheduleInput where
  "demo_accepted = \<lparr>siAppName = ''*'', siServices = [], siCronExpr = own_zone, siTimezone = ''tokyo'',
     siRetentionDays = 30, siRetentionCount = 0, siEnabled = True\<rparr>"

lemma demo_schedule_input: "schedule_input demo_webenv (demo_post own_zone) w = Inr demo_accepted"
proof -
  have z: "trim_space ''tokyo'' = ''tokyo''" by (rule trim_space_name) (simp add: char_class_defs)
  have c: "trim_space own_zone = own_zone"
    unfolding own_zone_def by (rule trim_space_graphic) (simp_all add: graphic_def less_eq_char_def)
  have p: "crParse zoned_cron own_zone = None" by (simp add: zoned_cron_def own_zone_def has_prefix_def)
  have n: "own_zone \<noteq> []" by (simp add: own_zone_def)
  have loc: "crLocation zoned_cron t = Inr t" for t by (simp add: zoned_cron_def)
  show ?thesis
    by (simp add: schedule_input_def demo_webenv_def demo_post_def form_value_def parse_services_def
        Validate_def parseNonNegativeInt_def demo_accepted_def p z c n loc Let_def)
qed


lemma demo_post_created:
  "\<exists>st'. createSchedule demo_webenv (demo_post own_zone) demo_manager
      = (redirect ''/schedules'' ''success'' ''schedule created'', st')"
proof -
  have f: "rqFormError (demo_post own_zone) = None" "weSql demo_webenv = demo_env"
    by (simp_all add: demo_post_def demo_webenv_def)
  show ?thesis
    by (simp add: createSchedule_def demo_schedule_input f reload_then_def CreateSchedule_def GetSchedule_def sql_do_def
        demo_env_def insert_schedule_def demo_manager_def fresh_db_def max_rowid_def new_schedule_row_def Let_def
        Reload_def ListSchedules_def remove_jobs_def)
qed

theorem schedule_gets_job_witness:
  "\<exists>st'. createSchedule demo_webenv (demo_post own_zone) demo_manager
      = (redirect ''/schedules'' ''success'' ''schedule created'', st')
     \<and> filter (\<lambda>j. jbSchedule j = 1) (mgCron st') = []"
proof -
  obtain st' where c: "createSchedule demo_webenv (demo_post own_zone) demo_manager
      = (redirect ''/schedules'' ''success'' ''schedule created'', st')"
    using demo_post_created by blast
  have ok: "jobs_ok demo_manager" "db_ok (mgDb demo_manager)" by (simp_all add: jobs_ok_def demo_manager_def)
  have p: "crParse (weCron demo_webenv) (job_spec demo_manager ''tokyo'' own_zone) \<noteq> None"
    by (simp add: demo_webenv_def zoned_cron_def job_spec_def own_zone_def demo_manager_def has_prefix_def)
  have l: "crLocation (weCron demo_webenv) t = Inr t" for t by (simp add: demo_webenv_def zoned_cron_def)
  have s: "dbScheduleSeq (mgDb demo_manager) = 0" by (simp add: demo_manager_def fresh_db_def)
  from schedule_gets_job [OF c ok] p have "map jbSpec (filter (\<lambda>j. jbSchedule j = 1) (mgCron st')) = []"
    by (auto simp: demo_schedule_input demo_accepted_def l s)
  with c show ?thesis by auto
qed

definition demo_get :: request where
  "demo_get = (demo_post [])\<lparr>rqMethod := ''GET'', rqCredentials := Some (''admin'', ''secret'')\<rparr>"

theorem get_is_safe_witness:
  "files (the_world (snd (serve demo_webenv demo_get demo_manager))) = files (the_world demo_manager)
     \<and> dbRuns (mgDb (snd (serve demo_webenv demo_get demo_manager))) = []"
proof -
  obtain resp st' where s: "serve demo_webenv demo_get demo_manager = (resp, st')" by fastforce
  have "rqMethod demo_get = ''GET'' \<or> rqMethod demo_get = ''HEAD''" by (simp add: demo_get_def)
  from get_is_safe [OF this s] s show ?thesis by (auto simp: the_world_def demo_manager_def fresh_db_def)
qed

definition demo_new_app :: request where
  "demo_new_app = (demo_post [])\<lparr>rqSegments := [''apps''],
     rqForm := (\<lambda>k. if k = ''app_name'' then [''shop''] else if k = ''services'' then [Signoz] else [])\<rparr>"

definition demo_empty :: "(unit, string \<times> string \<Rightarrow> string option) state" where
  "demo_empty = set_world demo_world demo_manager"

lemma demo_new_app_answer:
  "\<exists>st'. createApp demo_webenv demo_new_app demo_empty
      = (redirect (app_target ''shop'') ''success'' ''app provisioned'', st')"
proof -
  let ?so = "app_options [Signoz] \<lparr>optEnvs = [], optEnv = []\<rparr>"
  have n: "name_pattern ''shop''" and z: "trim_space ''shop'' = ''shop''"
    by (simp_all add: char_class_defs trim_space_name)
  have p: "parse_services [Signoz] = Inr [Signoz]" by code_simp
  obtain w1 where "containerCheck demo_host (soServices ?so) demo_world = (None, w1)"
    using demo_container_check by (auto simp: app_options_def)
  moreover have "check_targets empty_registry (setup_list ''shop'' ?so) = None" by code_simp
  ultimately obtain results w' where "SetupApp demo_host demo_engine ''shop'' ?so demo_world = ((results, None), w')"
    using SetupApp_ready [where eng = demo_engine and opts = ?so and reg = empty_registry and svcs = "[Signoz]"
      and w = demo_world and app = "''shop''" and h = demo_host] demo_facts n p
    by (auto simp: demo_engine_def app_options_def)
  moreover have "web_engine demo_webenv = demo_engine"
    by (simp add: web_engine_def demo_webenv_def demo_config_def demo_engine_def)
  moreover have "validate_app_name ''shop'' = None" using n by (simp add: validate_app_name_def app_name_pattern_def)
  ultimately show ?thesis
    by (simp add: createApp_def demo_new_app_def demo_post_def form_value_def z p parseEnvsField_def app_options_def
        demo_webenv_def demo_empty_def the_world_def set_world_def Let_def)
qed


end
