(* ===== verification/WebInvariant.thy ===== *)
theory WebInvariant
  imports WebSafety
begin

text \<open>
  Any request, whoever sends it and whatever it holds, keeps the tables and the jobs of the scheduler consistent
  and leaves the runs of the others alone (\<open>steady\<close>): one lemma per handler, then one for \<open>handle\<close>.  The relation
  \<open>web_step\<close> is one request; the other steps of the program (the cron jobs that fire) are those of
  \<open>Manager.mgr_step\<close>, and WebMain puts both together.
\<close>

section \<open>The history under a handler\<close>

text \<open>
  A handler leaves the runs of the others as they are; a run it adds it also ends, unless a statement failed.
\<close>

definition calm :: "sql_env \<Rightarrow> db \<Rightarrow> db \<Rightarrow> bool" where
  "calm e d d' =
     (keeps d d' \<and> (db_ok d \<longrightarrow> set (run_view d) \<subseteq> set (run_view d')
        \<and> ((\<forall>t. sqFault e t = None) \<longrightarrow> running_ids d' \<subseteq> running_ids d)))"

lemma calm_refl [simp]: "calm e d d"
  by (simp add: calm_def)

lemma calm_trans [trans]: "calm e a b \<Longrightarrow> calm e b c \<Longrightarrow> calm e a c"
  using keeps_trans [of a b c] unfolding calm_def by (auto dest: keeps_ok)

lemma calm_db_ok: "calm e d d' \<Longrightarrow> db_ok d \<Longrightarrow> db_ok d'"
  by (auto simp: calm_def dest: keeps_ok)

lemma calm_same: "keeps d d' \<Longrightarrow> run_view d' = run_view d \<Longrightarrow> calm e d d'"
  by (simp add: calm_def running_ids_view subset_iff)

lemmas calm_statements =
  calm_same [OF GetSchedule_keeps schedule_statements_view(1)]
  calm_same [OF CreateSchedule_keeps schedule_statements_view(2)]
  calm_same [OF SetScheduleEnabled_keeps schedule_statements_view(3)]
  calm_same [OF DeleteSchedule_keeps schedule_statements_view(4)]

lemma calm_tick: "calm e d (d\<lparr>dbTick := t\<rparr>)"
  by (rule calm_same) (simp_all add: run_view_def)

lemma calm_run:
  assumes b: "StartRun e sch app svcs d = (Inr i, d1)" and k: "keeps d1 d2"
    and v: "run_view d2 = run_view d1 \<and> sqFault e t \<noteq> None
      \<or> (\<exists>u. run_view d2 = map (\<lambda>(k, st, fin). if k = i then (k, run_status err, Some u) else (k, st, fin)) (run_view d1))"
  shows "calm e d d2"
proof -
  have s: "keeps d d1" "run_view d1 = run_view d @ [(i, ''running'', None)]" "i = dbRunSeq d + 1"
    using StartRun_view [OF b] by simp_all
  have "set (run_view d) \<subseteq> set (run_view d2)
      \<and> ((\<forall>t. sqFault e t = None) \<longrightarrow> running_ids d2 \<subseteq> running_ids d)" if "db_ok d"
  proof -
    have new: "(k, st, fin) \<in> set (run_view d) \<Longrightarrow> k \<noteq> i" for k st fin
      using run_view_fresh [OF that] s(3) by fastforce
    have rest: "map (\<lambda>(k, st, fin). if k = i then (k, x, u) else (k, st, fin)) (run_view d) = run_view d"
      for x :: string and u :: "string option" by (rule map_idI) (auto dest: new)
    from v show ?thesis
      by (auto simp: s(2) rest running_ids_view run_status_def split: option.splits)
  qed
  then show ?thesis using keeps_trans [OF s(1) k] by (simp add: calm_def)
qed

section \<open>Handlers\<close>

definition steady :: "('d, 'b) webenv \<Rightarrow> ('d, 'b) state \<Rightarrow> ('d, 'b) state \<Rightarrow> bool" where
  "steady env st st' =
     (calm (weSql env) (mgDb st) (mgDb st') \<and> mgActive st' = mgActive st \<and> mgLocation st' = mgLocation st
      \<and> mgNextEntry st \<le> mgNextEntry st' \<and> (jobs_ok st \<and> db_ok (mgDb st) \<longrightarrow> jobs_ok st'))"

lemma steady_refl [simp]: "steady env st st"
  by (simp add: steady_def)

lemma steady_trans [trans]: "steady env a b \<Longrightarrow> steady env b c \<Longrightarrow> steady env a c"
  using calm_trans [of "weSql env" "mgDb a" "mgDb b" "mgDb c"] by (auto simp: steady_def calm_db_ok)

lemma steady_site [simp]: "steady env st (st'\<lparr>mgSite := s\<rparr>) = steady env st st'"
  by (simp add: steady_def)

lemma steady_world [simp]: "steady env st (set_world w st') = steady env st st'"
  by (simp add: set_world_def)

lemma steady_db: "calm (weSql env) (mgDb st) d \<Longrightarrow> steady env st (st\<lparr>mgDb := d\<rparr>)"
  by (simp add: steady_def)

lemma steady_looks: "only_looks st st' \<Longrightarrow> steady env st st'"
  by (auto simp: only_looks_def steady_def jobs_ok_def calm_tick)

definition same_history :: "'s manager \<Rightarrow> 's manager \<Rightarrow> bool" where
  "same_history m m' =
     (keeps (mgDb m) (mgDb m') \<and> dbRuns (mgDb m') = dbRuns (mgDb m) \<and> mgActive m' = mgActive m
      \<and> mgLocation m' = mgLocation m \<and> mgNextEntry m \<le> mgNextEntry m')"

lemma same_history_trans: "same_history a b \<Longrightarrow> same_history b c \<Longrightarrow> same_history a c"
  unfolding same_history_def by (auto intro: keeps_trans)

lemma addSchedule_frame:
  assumes "addSchedule e cr s m = (r, m1)" "shEnabled s"
  shows "same_history m m1"
  using addSchedule_cases [OF assms] by (auto simp: same_history_def split: option.splits)

lemma add_enabled_frame: "same_history m (add_enabled e cr schs m)"
proof (induction schs arbitrary: m)
  case (Cons s schs)
  obtain r m1 where 1: "addSchedule e cr s m = (r, m1)" by fastforce
  show ?case
    using Cons.IH [of m] same_history_trans [OF addSchedule_frame [OF 1] Cons.IH [of m1]] 1 by simp
qed (simp add: same_history_def)

lemma Reload_frame:
  assumes "Reload e cr m = (r, m')"
  shows "same_history m m'"
proof -
  obtain x d1 where 1: "ListSchedules e (mgDb (remove_jobs m)) = (x, d1)" by fastforce
  have "dbRuns d1 = dbRuns (mgDb m)" "keeps (mgDb m) d1"
    using ListSchedules_listed [OF 1] ListSchedules_keeps [OF 1] by (auto simp: remove_jobs_def)
  then have k: "same_history m ((remove_jobs m)\<lparr>mgDb := d1\<rparr>)" by (simp add: same_history_def remove_jobs_def)
  show ?thesis
  proof (cases x)
    case (Inl er)
    with assms 1 k show ?thesis by (auto simp: Reload_def)
  next
    case (Inr schs)
    with assms 1 have "m' = add_enabled e cr schs ((remove_jobs m)\<lparr>mgDb := d1\<rparr>)" by (simp add: Reload_def)
    then show ?thesis using same_history_trans [OF k add_enabled_frame] by simp
  qed
qed

lemma Reload_steady:
  assumes "Reload (weSql env) cr m = (r, m')"
  shows "steady env m m'"
proof -
  have f: "same_history m m'" by (rule Reload_frame [OF assms])
  then have "calm (weSql env) (mgDb m) (mgDb m')" by (intro calm_same) (simp_all add: same_history_def run_view_def)
  with f show ?thesis using Reload_all [OF assms] by (simp add: steady_def same_history_def)
qed

lemma reload_then_steady: "reload_then env msg st = (resp, st') \<Longrightarrow> steady env st st'"
  by (auto simp: reload_then_def split: prod.splits option.splits dest: Reload_steady)

lemma run_schedule_steady: "steady env m (run_schedule runner (weSql env) sch m)"
proof -
  obtain x d1 where b: "begin_run (weSql env) sch (mgDb m) = (x, d1)" by fastforce
  note v = begin_run_view [OF b]
  show ?thesis
  proof (cases x)
    case (Inl er)
    with v have "calm (weSql env) (mgDb m) d1" by (intro calm_same) simp_all
    with b Inl show ?thesis by (simp add: run_schedule_def steady_db)
  next
    case (Inr i)
    obtain res err s where d: "do_run runner sch (mgSite m) = ((res, err), s)" by (metis prod.collapse)
    note w = end_run_view [of d1 "weSql env" i sch res err]
    have "calm (weSql env) (mgDb m) (end_run (weSql env) i sch res err d1)"
      by (rule calm_run [OF b [unfolded begin_run_def Inr], where t = "dbTick d1" and err = err]) (use w in blast)+
    then show ?thesis by (simp add: run_schedule_def b Inr d) (simp add: steady_def)
  qed
qed

lemma RunNow_steady:
  assumes "RunNow runner (weSql env) i m = (r, m')"
  shows "steady env m m'"
proof -
  obtain x d1 where 1: "GetSchedule (weSql env) i (mgDb m) = (x, d1)" by fastforce
  have k: "steady env m (m\<lparr>mgDb := d1\<rparr>)" using calm_statements(1) [OF 1 1] by (rule steady_db)
  show ?thesis
    using assms 1 k steady_trans [OF k run_schedule_steady] by (cases x) (auto simp: RunNow_def)
qed

lemma runManualBackup_steady:
  assumes "runManualBackup env app all svcs st = (r, st')"
  shows "steady env st st'"
proof -
  obtain x d1 where 1: "StartRun (weSql env) None (if all then ''*'' else app) svcs (mgDb st) = (x, d1)" by fastforce
  note v = StartRun_view [OF 1]
  show ?thesis
  proof (cases x)
    case (Inl e)
    with v have "calm (weSql env) (mgDb st) d1" by (intro calm_same) simp_all
    with assms 1 Inl show ?thesis by (auto simp: runManualBackup_def Let_def intro: steady_db)
  next
    case (Inr i)
    obtain res err s1 where 2: "Backup (weHost env) (weStore env) (weOrders env) (web_service env) app all svcs (mgSite st)
        = ((res, err), s1)" by (metis prod.collapse)
    obtain e d2 where 3: "FinishRun (weSql env) i (run_status err) (trim_space (run_output res err)) d1 = (e, d2)"
      by fastforce
    have "st' = st\<lparr>mgSite := s1, mgDb := d2\<rparr>"
      using assms by (simp add: runManualBackup_def Let_def 1 Inr 2 3 split: if_splits)
    moreover have "calm (weSql env) (mgDb st) d2"
      by (rule calm_run [OF 1 [unfolded Inr] FinishRun_keeps [OF 3] FinishRun_view [OF 3]])
    ultimately show ?thesis by (simp add: steady_def)
  qed
qed

lemma manual_backups_steady:
  "backupApp env req n st = (resp, st') \<Longrightarrow> steady env st st'"
  "backupAll env req st = (resp, st') \<Longrightarrow> steady env st st'"
  by (auto simp: backupApp_def backupAll_def split: option.splits sum.splits prod.splits dest: runManualBackup_steady)

lemma createSchedule_steady:
  assumes "createSchedule env req st = (resp, st')"
  shows "steady env st st'"
proof (cases "\<exists>input. rqFormError req = None \<and> schedule_input env req (the_world st) = Inr input")
  case False
  then have "st' = st" using assms by (auto simp: createSchedule_def split: option.splits sum.splits)
  then show ?thesis by simp
next
  case True
  then obtain input where i: "rqFormError req = None" "schedule_input env req (the_world st) = Inr input" by blast
  obtain x d1 where 1: "CreateSchedule (weSql env) input (mgDb st) = (x, d1)" by fastforce
  have k: "steady env st (st\<lparr>mgDb := d1\<rparr>)" using calm_statements(2) [OF 1 1] by (rule steady_db)
  show ?thesis
  proof (cases x)
    case (Inl e)
    with assms i 1 k show ?thesis by (auto simp: createSchedule_def)
  next
    case (Inr s)
    then have "reload_then env ''schedule created'' (st\<lparr>mgDb := d1\<rparr>) = (resp, st')"
      using assms i 1 by (simp add: createSchedule_def)
    with k show ?thesis using reload_then_steady steady_trans by blast
  qed
qed

lemma setScheduleEnabled_steady:
  assumes "setScheduleEnabled env raw b st = (resp, st')"
  shows "steady env st st'"
proof (cases "pathID raw")
  case (Inl e)
  with assms show ?thesis by (simp add: setScheduleEnabled_def)
next
  case (Inr i)
  obtain x d1 where 1: "SetScheduleEnabled (weSql env) i b (mgDb st) = (x, d1)" by fastforce
  have k: "steady env st (st\<lparr>mgDb := d1\<rparr>)" using calm_statements(3) [OF 1 1] by (rule steady_db)
  show ?thesis
    using assms Inr 1 k steady_trans [OF k reload_then_steady] by (cases x) (auto simp: setScheduleEnabled_def)
qed

lemma deleteSchedule_steady:
  assumes "deleteSchedule env raw st = (resp, st')"
  shows "steady env st st'"
proof (cases "pathID raw")
  case (Inl e)
  with assms show ?thesis by (simp add: deleteSchedule_def)
next
  case (Inr i)
  obtain x d1 where 1: "DeleteSchedule (weSql env) i (mgDb st) = (x, d1)" by fastforce
  have k: "steady env st (st\<lparr>mgDb := d1\<rparr>)" using calm_statements(4) [OF 1 1] by (rule steady_db)
  show ?thesis
    using assms Inr 1 k steady_trans [OF k reload_then_steady] by (cases x) (auto simp: deleteSchedule_def)
qed

lemma web_runSchedule_steady: "web_runSchedule env raw st = (resp, st') \<Longrightarrow> steady env st st'"
  by (auto simp: web_runSchedule_def split: sum.splits prod.splits option.splits dest: RunNow_steady)

lemma site_handlers_steady:
  "createApp env req st = (resp, st') \<Longrightarrow> steady env st st'"
  "startInfrastructure env req st = (resp, st') \<Longrightarrow> steady env st st'"
  "addServices env req n st = (resp, st') \<Longrightarrow> steady env st st'"
  "detachAddon env n a st = (resp, st') \<Longrightarrow> steady env st st'"
  "removeApp env n st = (resp, st') \<Longrightarrow> steady env st st'"
  "syncBackupsToS3 env st = (resp, st') \<Longrightarrow> steady env st st'"
  "restoreBackup env a f st = (resp, st') \<Longrightarrow> steady env st st'"
  "deleteBackup env req a f st = (resp, st') \<Longrightarrow> steady env st st'"
  subgoal by (auto simp: createApp_def Let_def split: option.splits sum.splits if_splits prod.splits)
  subgoal by (auto simp: startInfrastructure_def Let_def split: prod.splits option.splits)
  subgoal by (auto simp: addServices_def split: option.splits sum.splits if_splits prod.splits)
  subgoal by (auto simp: detachAddon_def split: option.splits if_splits prod.splits)
  subgoal by (auto simp: removeApp_def split: option.splits prod.splits)
  subgoal by (auto simp: syncBackupsToS3_def split: option.splits prod.splits)
  subgoal by (auto simp: restoreBackup_def split: option.splits sum.splits prod.splits)
  subgoal by (auto simp: deleteBackup_def Let_def split: option.splits prod.splits)
  done

lemma handle_steady:
  assumes "handle env req st = (resp, st')"
  shows "steady env st st'"
proof (cases "page_route (route_of req)")
  case True
  with assms show ?thesis by (intro steady_looks handle_page)
next
  case False
  with assms show ?thesis
    by (cases "route_of req")
      (simp_all add: handle_def site_handlers_steady manual_backups_steady createSchedule_steady
        setScheduleEnabled_steady deleteSchedule_steady web_runSchedule_steady pauseSchedule_def resumeSchedule_def)
qed

inductive web_step :: "('d, 'b) webenv \<Rightarrow> ('d, 'b) state \<Rightarrow> ('d, 'b) state \<Rightarrow> bool" for env where
  request: "serve env req st = (resp, st') \<Longrightarrow> web_step env st st'"

lemma web_step_steady: "web_step env st st' \<Longrightarrow> steady env st st'"
  by (induction rule: web_step.induct) (auto simp: serve_def intro: handle_steady split: if_splits)

lemma web_steps_steady: "(web_step env)\<^sup>*\<^sup>* st st' \<Longrightarrow> steady env st st'"
  by (induction rule: rtranclp_induct) (auto intro: steady_trans web_step_steady)

text \<open>So any sequence of requests keeps the tables and the jobs.  WebMain states it from the start of the program and
  with the jobs that fire beside the requests.\<close>

lemma requests_keep:
  assumes "(web_step env)\<^sup>*\<^sup>* st st'" "jobs_ok st" "db_ok (mgDb st)"
  shows "db_ok (mgDb st') \<and> grows (mgDb st) (mgDb st') \<and> jobs_ok st' \<and> distinct (map jbSchedule (mgCron st'))"
  using web_steps_steady [OF assms(1)] assms(2,3) jobs_ok_unique [of st'] by (auto simp: steady_def calm_def keeps_def)

end
