(* ===== verification/WebMain.thy ===== *)
theory WebMain
  imports WebInvariant
begin

text \<open>
  The program \<open>cmd/shelf-web\<close>: what \<open>main\<close> does before it listens, and the running server as a relation.  The
  parameters of the program are those of a \<open>webenv\<close>, whose settings and client \<open>main\<close> fills in, with what the
  AWS library and the template library answer.  \<open>Fatal\<close> is \<open>logger.Fatalf\<close>: the process ends and leaves the
  machine and the database as they are.  WebLife follows the process to its end; its log is not modelled.
\<close>

section \<open>Start-up\<close>

datatype ('d, 'b) boot = Fatal string "('d, 'b) site" db | Serving "('d, 'b) webenv" "('d, 'b) state"

definition web_main ::
  "('d, 'b) webenv \<Rightarrow> (S3Config \<Rightarrow> error option) \<Rightarrow> error option \<Rightarrow> ('d, 'b) site \<Rightarrow> db \<Rightarrow> ('d, 'b) boot" where
  "web_main env refused templates site d =
     (case load_config (weHost env) (machine site) of
        Inl e \<Rightarrow> Fatal (''load config: '' @ err_text e) site d
      | Inr cfg \<Rightarrow>
     (case OpenStore (weHost env) (weSql env) (cfgDatabasePath cfg) (machine site) d of
        (Some e, w1, d1) \<Rightarrow> Fatal (''open sqlite store: '' @ err_text e) (site\<lparr>machine := w1\<rparr>) d1
      | (None, w1, d1) \<Rightarrow>
     (case new_client refused (cfgS3 cfg) of
        Inl e \<Rightarrow> Fatal (''create s3 client: '' @ err_text e) (site\<lparr>machine := w1\<rparr>) d1
      | Inr client \<Rightarrow>
     (case NewManager (weCron env) (site\<lparr>machine := w1\<rparr>) d1 (cfgTimezone cfg) of
        Inl e \<Rightarrow> Fatal (''create scheduler: '' @ err_text e) (site\<lparr>machine := w1\<rparr>) d1
      | Inr m \<Rightarrow>
     (case Reload (weSql env) (weCron env) m of
        (Some e, m1) \<Rightarrow> Fatal (''load schedules: '' @ err_text e) (mgSite m1) (mgDb m1)
      | (None, m1) \<Rightarrow>
     (case templates of
        Some e \<Rightarrow> Fatal (''create server: '' @ err_text e) (mgSite m1) (mgDb m1)
      | None \<Rightarrow> Serving (env\<lparr>weConfig := cfg, weClient := client\<rparr>) m1))))))"

lemma web_main_serving:
  assumes "web_main env0 refused templates site d = Serving env st"
  obtains cfg client w1 d1 m where
    "load_config (weHost env0) (machine site) = Inr cfg"
    "OpenStore (weHost env0) (weSql env0) (cfgDatabasePath cfg) (machine site) d = (None, w1, d1)"
    "new_client refused (cfgS3 cfg) = Inr client"
    "NewManager (weCron env0) (site\<lparr>machine := w1\<rparr>) d1 (cfgTimezone cfg) = Inr m"
    "Reload (weSql env0) (weCron env0) m = (None, st)"
    "env = env0\<lparr>weConfig := cfg, weClient := client\<rparr>"
  using assms by (auto simp: web_main_def split: sum.splits prod.splits option.splits)

section \<open>Opening the tables\<close>

lemma new_columns_sound:
  assumes "\<And>x. scID (fill x) = scID x \<and> scEnabled (fill x) = scEnabled x"
  shows "sound d (d\<lparr>dbTick := t, dbColumns := c, dbSchedules := map fill (dbSchedules d)\<rparr>)"
    "sound d (d\<lparr>dbTick := t, dbColumns := c\<rparr>)"
  using assms by (simp_all add: sound_def db_ok_def grows_def schedule_ids_def run_ids_def comp_def image_image)

lemma sound_tick [simp]: "sound d (d\<lparr>dbTick := t\<rparr>)"
  by (simp add: sound_def grows_def)

lemma addScheduleColumn_frame:
  assumes "addScheduleColumn e name fill d = (r, d')" "\<And>x. scID (fill x) = scID x \<and> scEnabled (fill x) = scEnabled x"
  shows "sound d d' \<and> dbRuns d' = dbRuns d"
  using assms(1) new_columns_sound [OF assms(2)]
  by (auto simp: addScheduleColumn_def sql_do_def Let_def split: option.splits if_splits sum.splits prod.splits)

lemma create_tables_frame: "sql_do e create_tables d = (x, d') \<Longrightarrow> sound d d' \<and> dbRuns d' = dbRuns d"
  using new_columns_sound(2) [of id d]
  by (auto simp: sql_do_def create_tables_def Let_def split: option.splits if_splits)

lemma migrate_frame:
  assumes "migrate e d = (r, d')"
  shows "sound d d' \<and> dbRuns d' = dbRuns d"
proof -
  obtain x d1 where 1: "sql_do e create_tables d = (x, d1)" by fastforce
  obtain y d2 where 2: "addScheduleColumn e ''retention_days'' (\<lambda>r. r\<lparr>scRetentionDays := 30\<rparr>) d1 = (y, d2)" by fastforce
  obtain z d3 where 3: "addScheduleColumn e ''retention_count'' (\<lambda>r. r\<lparr>scRetentionCount := 0\<rparr>) d2 = (z, d3)" by fastforce
  have f: "sound d d1" "dbRuns d1 = dbRuns d" "sound d1 d2" "dbRuns d2 = dbRuns d1" "sound d2 d3" "dbRuns d3 = dbRuns d2"
    using create_tables_frame [OF 1] addScheduleColumn_frame [OF 2] addScheduleColumn_frame [OF 3] by auto
  have "d' = d1 \<or> d' = d2 \<or> d' = d3" using assms 1 2 3 by (auto simp: migrate_def split: sum.splits option.splits)
  then show ?thesis using f sound_trans [OF f(1,3)] sound_trans [OF sound_trans [OF f(1,3)] f(5)] by auto
qed

section \<open>The running server\<close>

text \<open>
  One request from beginning to end, or one step of what goes on beside the requests: a job that fires, a run that
  ends, and the statements of a request whose parts are seen one at a time.
\<close>

inductive server_step :: "('d, 'b) webenv \<Rightarrow> ('d, 'b) state \<Rightarrow> ('d, 'b) state \<Rightarrow> bool" for env where
  request: "serve env req st = (resp, st') \<Longrightarrow> server_step env st st'"
| background: "mgr_step (web_runner env) (weSql env) (weCron env) st st' \<Longrightarrow> server_step env st st'"

lemma steady_mgr_ok:
  assumes "steady env st st'" "mgr_ok healthy old st" "healthy \<longrightarrow> (\<forall>t. sqFault (weSql env) t = None)"
  shows "mgr_ok healthy old st'"
  using assms
  by (auto simp: steady_def calm_def keeps_def mgr_ok_def active_ok_def none_forgotten_def intro: order_trans)

text \<open>The runs \<open>old\<close> are marked running and nothing is going on that would end them.\<close>

definition abandoned :: "int set \<Rightarrow> 's manager \<Rightarrow> bool" where
  "abandoned old m = (old \<subseteq> running_ids (mgDb m) \<and> old \<inter> acRun ` set (mgActive m) = {})"

lemma running_ids_mono: "set (run_view d) \<subseteq> set (run_view d') \<Longrightarrow> running_ids d \<subseteq> running_ids d'"
  unfolding running_ids_view subset_iff by blast

lemma steady_abandoned:
  assumes "steady env st st'" "db_ok (mgDb st)" "abandoned old st"
  shows "abandoned old st'"
proof -
  have "running_ids (mgDb st) \<subseteq> running_ids (mgDb st')"
    using assms(1,2) by (intro running_ids_mono) (simp add: steady_def calm_def)
  with assms(1,3) show ?thesis by (auto simp: abandoned_def steady_def)
qed

lemma same_runs_abandoned:
  "abandoned old m \<Longrightarrow> run_view d1 = run_view (mgDb m) \<Longrightarrow> abandoned old (m\<lparr>mgDb := d1\<rparr>)"
  by (simp add: abandoned_def running_ids_view subset_iff)

lemma begin_abandoned:
  assumes "abandoned old m" "db_ok (mgDb m)" "begin_run e sch (mgDb m) = (Inr i, d2)"
  shows "abandoned old (m\<lparr>mgDb := d2, mgActive := mgActive m @ [\<lparr>acJob = job, acRun = i, acSchedule = sch\<rparr>]\<rparr>)"
proof -
  have v: "run_view d2 = run_view (mgDb m) @ [(i, ''running'', None)]" "i = dbRunSeq (mgDb m) + 1"
    using begin_run_view [OF assms(3)] by simp_all
  have "running_ids (mgDb m) \<subseteq> running_ids d2" by (rule running_ids_mono) (auto simp: v(1))
  moreover have "i \<notin> running_ids (mgDb m)"
    using run_view_fresh [OF assms(2)] v(2) by (fastforce simp: running_ids_view)
  ultimately show ?thesis using assms(1) by (auto simp: abandoned_def)
qed

lemma finish_abandoned:
  assumes "abandoned old m" "mgActive m = before @ a # after"
  shows "abandoned old (m\<lparr>mgSite := st, mgDb := end_run e (acRun a) sch res err (mgDb m), mgActive := before @ after\<rparr>)"
proof -
  let ?d = "end_run e (acRun a) sch res err (mgDb m)"
  have "k \<in> running_ids ?d" if mem: "k \<in> old" for k
  proof -
    have k: "k \<noteq> acRun a" using assms mem by (auto simp: abandoned_def)
    obtain f where "(k, ''running'', f) \<in> set (run_view (mgDb m))"
      using assms(1) mem unfolding abandoned_def running_ids_view subset_iff by blast
    then have "(k, ''running'', f) \<in> set (run_view ?d)" using end_run_others [OF k] by blast
    then show ?thesis by (auto simp: running_ids_view)
  qed
  with assms show ?thesis by (auto simp: abandoned_def)
qed

lemma mgr_step_abandoned:
  assumes "mgr_step runner e cr m m'" "mgr_ok False old' m" "abandoned old m"
  shows "abandoned old m'"
  using assms
proof (induction rule: mgr_step.induct)
  case (reload m x m')
  then have "run_view (mgDb m') = run_view (mgDb m)" "mgActive m' = mgActive m"
    using Reload_all [OF reload.hyps] by (auto simp: mgr_ok_def run_view_def)
  with reload.prems(2) show ?case by (simp add: abandoned_def running_ids_view subset_iff)
next
  case (fire j m sch d1 runID d2)
  have g: "keeps (mgDb m) d1" "run_view d1 = run_view (mgDb m)"
    using GetSchedule_keeps [OF fire.hyps(3)] schedule_statements_view(1) [OF fire.hyps(3)] .
  from begin_abandoned [OF same_runs_abandoned [OF fire.prems(2) g(2)]] fire.hyps(4) fire.prems(1) g(1)
  show ?case by (simp add: mgr_ok_def keeps_def)
next
  case (run_now i m sch d1 runID d2)
  have g: "keeps (mgDb m) d1" "run_view d1 = run_view (mgDb m)"
    using GetSchedule_keeps [OF run_now.hyps(1)] schedule_statements_view(1) [OF run_now.hyps(1)] .
  from begin_abandoned [OF same_runs_abandoned [OF run_now.prems(2) g(2)]] run_now.hyps(2) run_now.prems(1) g(1)
  show ?case by (simp add: mgr_ok_def keeps_def)
next
  case (not_started i m sch d1 er d2)
  have "run_view d2 = run_view (mgDb m)"
    using begin_run_view [OF not_started.hyps(2)] schedule_statements_view(1) [OF not_started.hyps(1)] by simp
  with not_started.prems(2) show ?case by (rule same_runs_abandoned)
next
  case (finish m before a after res err st)
  show ?case by (rule finish_abandoned [OF finish.prems(2) finish.hyps(1)])
qed (blast intro: same_runs_abandoned schedule_statements_view)+

text \<open>What every step keeps.\<close>

definition server_ok :: "('d, 'b) webenv \<Rightarrow> int set \<Rightarrow> db \<Rightarrow> ('d, 'b) state \<Rightarrow> bool" where
  "server_ok env old d st =
     (mgr_ok (\<forall>t. sqFault (weSql env) t = None) old st \<and> abandoned old st \<and> grows d (mgDb st))"

lemma mgr_step_keeps:
  assumes "mgr_step runner e cr m m'"
  shows "keeps (mgDb m) (mgDb m')"
  using assms
proof (induction rule: mgr_step.induct)
  case (reload m x m')
  show ?case using Reload_frame [OF reload.hyps] by (simp add: same_history_def)
next
  case (fire j m sch d1 runID d2)
  then show ?case using keeps_trans [OF GetSchedule_keeps [OF fire.hyps(3)]] begin_run_view by fastforce
next
  case (run_now i m sch d1 runID d2)
  then show ?case using keeps_trans [OF GetSchedule_keeps [OF run_now.hyps(1)]] begin_run_view by fastforce
next
  case (not_started i m sch d1 er d2)
  then show ?case using keeps_trans [OF GetSchedule_keeps [OF not_started.hyps(1)]] begin_run_view by fastforce
next
  case (finish m before a after res err st)
  show ?case using end_run_view [of "mgDb m" e "acRun a" "acSchedule a" res err] by simp
qed (simp, rule store_keeps, assumption)+

lemma server_step_steady:
  "serve env req st = (resp, st') \<Longrightarrow> steady env st st'"
  by (auto simp: serve_def intro: handle_steady split: if_splits)

lemma server_step_keeps: "server_step env st st' \<Longrightarrow> keeps (mgDb st) (mgDb st')"
  by (induction rule: server_step.induct) (auto simp: steady_def calm_def dest: server_step_steady mgr_step_keeps)

text \<open>The whole server implements the book of schedules.\<close>

interpretation server: simulation "server_step env" book_step "\<lambda>st. book_of (mgDb st)" "\<lambda>st. db_ok (mgDb st)" for env
  by unfold_locales (auto simp: keeps_def dest: server_step_keeps)

lemma server_step_ok:
  assumes "server_step env st st'" "server_ok env old d st"
  shows "server_ok env old d st'"
  using assms
proof (induction rule: server_step.induct)
  case (request req st resp st')
  then have s: "steady env st st'" by (simp add: server_step_steady)
  moreover have "grows (mgDb st) (mgDb st')" using s by (simp add: steady_def calm_def keeps_def)
  ultimately show ?case
    using request.prems steady_mgr_ok [OF s] steady_abandoned [OF s]
    by (auto simp: server_ok_def mgr_ok_def intro: grows_trans)
next
  case (background st st')
  have ok: "mgr_ok (\<forall>t. sqFault (weSql env) t = None) old st" "abandoned old st" "grows d (mgDb st)"
    using background.prems by (simp_all add: server_ok_def)
  then have "mgr_ok False old st" by (simp add: mgr_ok_def)
  then show ?case
    using mgr_step_ok [OF background.hyps ok(1)] mgr_step_abandoned [OF background.hyps _ ok(2)]
      mgr_step_keeps [OF background.hyps] grows_trans [OF ok(3)] by (simp add: server_ok_def keeps_def)
qed

lemma served_ok:
  assumes "web_main env0 refused templates site d = Serving env st" "db_ok d"
  shows "server_ok env (running_ids d) d st"
  using assms(1)
proof (rule web_main_serving)
  fix cfg client w1 d1 m
  assume open_store: "OpenStore (weHost env0) (weSql env0) (cfgDatabasePath cfg) (machine site) d = (None, w1, d1)"
    and new: "NewManager (weCron env0) (site\<lparr>machine := w1\<rparr>) d1 (cfgTimezone cfg) = Inr m"
    and reload: "Reload (weSql env0) (weCron env0) m = (None, st)"
    and env: "env = env0\<lparr>weConfig := cfg, weClient := client\<rparr>"
  have "migrate (weSql env0) d = (None, d1)"
    using open_store by (auto simp: OpenStore_def split: prod.splits option.splits)
  then have d1: "sound d d1" "running_ids d1 = running_ids d"
    using migrate_frame by (auto simp: running_ids_def)
  have m: "mgDb m = d1" "mgActive m = []" using new by (auto simp: NewManager_def split: sum.splits)
  have ok: "mgr_ok healthy (running_ids d) m" for healthy
    using new_manager_ok [OF new] d1 assms(2) by (simp add: sound_def)
  have "server_ok env (running_ids d) d m"
    using ok d1 by (simp add: server_ok_def abandoned_def m sound_def)
  moreover have "server_step env m st"
    by (rule server_step.background, rule mgr_step.reload) (simp add: env reload)
  ultimately show ?thesis by (rule server_step_ok [rotated])
qed

lemma server_steps_ok:
  "(server_step env)\<^sup>*\<^sup>* st st' \<Longrightarrow> server_ok env old d st \<Longrightarrow> server_ok env old d st'"
  by (induction rule: rtranclp_induct) (auto intro: server_step_ok)

section \<open>Properties\<close>

text \<open>C33: once the program serves, whatever requests come and however they interleave with the jobs that fire and
  the runs that end, and whichever statements fail, the tables stay consistent and nothing of the history it
  found is lost, a schedule has at most one job and a job at most one run in progress.  When no statement failed
  and nothing is going on, the runs marked running are exactly those an earlier process left so: the program
  neither forgets a run of its own nor ever settles one that a restart interrupted.\<close>

theorem server_keeps:
  assumes "web_main env0 refused templates site d = Serving env st" "db_ok d" "(server_step env)\<^sup>*\<^sup>* st st'"
  shows "db_ok (mgDb st') \<and> grows d (mgDb st') \<and> distinct (map jbSchedule (mgCron st')) \<and> active_ok st'
    \<and> running_ids d \<subseteq> running_ids (mgDb st')
    \<and> ((\<forall>t. sqFault (weSql env) t = None) \<and> mgActive st' = [] \<longrightarrow> running_ids (mgDb st') = running_ids d)"
proof -
  have "server_ok env (running_ids d) d st'"
    by (rule server_steps_ok [OF assms(3) served_ok [OF assms(1,2)]])
  then show ?thesis
    using jobs_ok_unique [of st'] by (auto simp: server_ok_def mgr_ok_def none_forgotten_def abandoned_def)
qed

text \<open>C34: for the schedules the whole running server, its requests, cron jobs, reloads and runs under any interleaving
  and any failing statement, does nothing but add a plan under the next key, enable or disable one, or strike one
  out.  So a schedule that was there and still is has the application, services, expression, time zone and retention it
  had, and the key of a deleted one never names another.\<close>

theorem schedules_refine_book:
  assumes "(server_step env)\<^sup>*\<^sup>* st st'" "db_ok (mgDb st)"
  shows "book_step\<^sup>*\<^sup>* (book_of (mgDb st)) (book_of (mgDb st'))
    \<and> (\<forall>r' \<in> set (dbSchedules (mgDb st')). scID r' \<le> dbScheduleSeq (mgDb st) \<longrightarrow>
         (\<exists>r \<in> set (dbSchedules (mgDb st)). scID r = scID r'
            \<and> plan_of r' = (plan_of r)\<lparr>siEnabled := siEnabled (plan_of r')\<rparr>))"
proof -
  have ok: "db_ok (mgDb st')" by (rule server.good_steps [OF assms])
  have same: "same_plans (book_of (mgDb st)) (book_of (mgDb st'))"
    by (rule server.inherits [OF same_plans_step assms]) simp_all
  have "\<exists>r \<in> set (dbSchedules (mgDb st)). scID r = scID r' \<and> plan_of r' = (plan_of r)\<lparr>siEnabled := siEnabled (plan_of r')\<rparr>"
    if "r' \<in> set (dbSchedules (mgDb st'))" "scID r' \<le> dbScheduleSeq (mgDb st)" for r'
  proof -
    have "bkPlans (book_of (mgDb st')) (scID r') = Some (plan_of r')" "scID r' \<le> bkNext (book_of (mgDb st))"
      using plans_row [OF ok that(1)] that(2) by (simp_all add: book_of_def)
    then obtain x where "map_option (\<lambda>q. q\<lparr>siEnabled := x\<rparr>) (bkPlans (book_of (mgDb st)) (scID r')) = Some (plan_of r')"
      using same unfolding same_plans_def by blast
    then obtain p where p: "plans (dbSchedules (mgDb st)) (scID r') = Some p" "plan_of r' = p\<lparr>siEnabled := x\<rparr>"
      by (auto simp: book_of_def)
    then show ?thesis using row_of_plan [OF p(1)] by auto
  qed
  then show ?thesis using server.spec_steps [OF assms] by blast
qed

definition demo_pause :: request where
  "demo_pause = demo_get\<lparr>rqMethod := ''POST'', rqSegments := [''schedules'', ''1'', ''pause''],
     rqCredentials := Some (''admin'', ''secret'')\<rparr>"

theorem schedules_refine_book_witness:
  "book_step\<^sup>*\<^sup>* (book_of demo_created)
     (book_of (mgDb (snd (serve demo_webenv demo_pause (demo_manager\<lparr>mgDb := demo_created\<rparr>)))))"
proof -
  let ?st = "demo_manager\<lparr>mgDb := demo_created\<rparr>"
  have "db_ok demo_created"
    using CreateSchedule_keeps [of demo_env demo_input fresh_db, OF prod.collapse [symmetric]]
    by (auto simp: demo_created_def dest: keeps_ok)
  moreover have "(server_step demo_webenv)\<^sup>*\<^sup>* ?st (snd (serve demo_webenv demo_pause ?st))"
    by (rule r_into_rtranclp, rule server_step.request [OF prod.collapse [symmetric]])
  ultimately show ?thesis using schedules_refine_book [of demo_webenv ?st] by simp
qed

definition served_host :: "unit host" where
  "served_host = demo_host\<lparr>getenv := (\<lambda>k. if k = ''INFRA_SHELF_ROOT'' then ''/d'' else [])\<rparr>"

definition served_env :: "(unit, string \<times> string \<Rightarrow> string option) webenv" where
  "served_env = demo_webenv\<lparr>weHost := served_host\<rparr>"

definition served_site :: "(unit, string \<times> string \<Rightarrow> string option) site" where
  "served_site = \<lparr>machine = demo_world, bucket = (\<lambda>_. None)\<rparr>"

text \<open>A database whose last process was stopped during a run.\<close>

definition interrupted :: db where
  "interrupted = snd (StartRun demo_env None ''shop'' [] fresh_db)"

lemma interrupted_facts: "db_ok interrupted" "running_ids interrupted = {1}"
proof -
  show "db_ok interrupted"
    using StartRun_keeps [of demo_env None "''shop''" "[]" fresh_db, OF prod.collapse [symmetric]]
    by (simp add: interrupted_def keeps_def)
  have "run_view interrupted = [(1, ''running'', None)]"
    by (simp add: interrupted_def StartRun_def sql_do_def insert_run_def new_run_row_def Let_def demo_env_def fresh_db_def
        run_view_def max_rowid_def)
  then show "running_ids interrupted = {1}" by (auto simp: running_ids_view)
qed

lemma served_starts: "\<exists>env st. web_main served_env (\<lambda>_. None) None served_site interrupted = Serving env st"
proof -
  have "map_sum id (\<lambda>c. (cfgDatabasePath c, s3cBucket (cfgS3 c))) (load_config served_host demo_world)
      = Inr (''/d/data/app/infra-shelf-app.db'', [])" by code_simp
  then obtain cfg where cfg: "load_config served_host demo_world = Inr cfg"
    "cfgDatabasePath cfg = ''/d/data/app/infra-shelf-app.db''" "s3cBucket (cfgS3 cfg) = []"
    by (cases "load_config served_host demo_world") auto
  have "fst (mkdir_all served_host (path_dir ''/d/data/app/infra-shelf-app.db'') demo_world) = None" by code_simp
  then obtain w1 where w1: "mkdir_all served_host (path_dir ''/d/data/app/infra-shelf-app.db'') demo_world = (None, w1)"
    by (metis prod.collapse)
  have "fst (migrate demo_env interrupted) = None" 
    by (simp add: migrate_def addScheduleColumn_def sql_do_def create_tables_def Let_def demo_env_def split: option.splits)
  then obtain d1 where d1: "migrate demo_env interrupted = (None, d1)" by (metis prod.collapse)
  obtain m where m: "NewManager zoned_cron (served_site\<lparr>machine := w1\<rparr>) d1 (cfgTimezone cfg) = Inr m"
    by (simp add: NewManager_def zoned_cron_def)
  obtain m1 where "Reload demo_env zoned_cron m = (None, m1)"
    by (simp add: Reload_def ListSchedules_def sql_do_def demo_env_def Let_def)
  moreover have "weHost served_env = served_host" "weSql served_env = demo_env" "weCron served_env = zoned_cron"
    "machine served_site = demo_world" by (simp_all add: served_env_def demo_webenv_def served_site_def)
  ultimately show ?thesis using m by (simp add: web_main_def cfg OpenStore_def w1 d1 new_client_def)
qed

theorem server_keeps_witness:
  "\<exists>env st. web_main served_env (\<lambda>_. None) None served_site interrupted = Serving env st
     \<and> 1 \<in> running_ids (mgDb (snd (serve env demo_get st)))"
proof -
  obtain env st where s: "web_main served_env (\<lambda>_. None) None served_site interrupted = Serving env st"
    using served_starts by blast
  have "(server_step env)\<^sup>*\<^sup>* st (snd (serve env demo_get st))"
    by (rule r_into_rtranclp, rule server_step.request [OF prod.collapse [symmetric]])
  from server_keeps [OF s interrupted_facts(1) this] s show ?thesis by (auto simp: interrupted_facts(2))
qed

end
