(* ===== verification/WebLife.thy ===== *)
theory WebLife
  imports WebMain
begin

text \<open>
  The life of the process \<open>cmd/shelf-web\<close> from the end of its start-up: it serves until the listener fails, which is
  fatal, or a signal arrives.  After a signal \<open>Shutdown\<close> closes the listener and waits for the requests in progress, for
  ten seconds at most; then the deferred \<open>manager.Stop\<close> stops the cron thread and waits, without a limit, for the
  runs its jobs started, while whatever else is going on goes on; then the tables are closed and the process ends.
  That no new request comes once the listener is closed is not used: the relation allows any.
\<close>

section \<open>Phases\<close>

datatype ('d, 'b) process =
    Up "('d, 'b) state" | Draining "('d, 'b) state" | Stopping "('d, 'b) state" | Ended nat "('d, 'b) state"

text \<open>The runs that cron started: the ones the context of \<open>cron.Stop\<close> waits for.\<close>

definition cron_runs :: "'s manager \<Rightarrow> active list" where
  "cron_runs m = filter (\<lambda>a. acJob a \<noteq> None) (mgActive m)"

inductive process_step :: "('d, 'b) webenv \<Rightarrow> ('d, 'b) process \<Rightarrow> ('d, 'b) process \<Rightarrow> bool" for env where
  serves: "server_step env st st' \<Longrightarrow> process_step env (Up st) (Up st')"
| listen_failed: "process_step env (Up st) (Ended 1 st)"
| signalled: "process_step env (Up st) (Draining st)"
| drains: "server_step env st st' \<Longrightarrow> process_step env (Draining st) (Draining st')"
| drained: "process_step env (Draining st) (Stopping st)"
| stops: "server_step env st st' \<Longrightarrow> set (cron_runs st') \<subseteq> set (cron_runs st) \<Longrightarrow>
    process_step env (Stopping st) (Stopping st')"
| stopped: "cron_runs st = [] \<Longrightarrow> process_step env (Stopping st) (Ended 0 st)"

inductive_cases process_step_endedE: "process_step env (Ended code st) p"

lemma ended_final: "(process_step env)\<^sup>*\<^sup>* (Ended code st) p \<Longrightarrow> p = Ended code st"
  by (induction rule: rtranclp_induct) (auto elim: process_step_endedE)

primrec process_state :: "('d, 'b) process \<Rightarrow> ('d, 'b) state" where
  "process_state (Up st) = st"
| "process_state (Draining st) = st"
| "process_state (Stopping st) = st"
| "process_state (Ended code st) = st"

text \<open>A process that has ended by itself has ended after a listener's failure or with no run of cron's in progress.\<close>

definition process_ok :: "('d, 'b) process \<Rightarrow> bool" where
  "process_ok p = (case p of Ended code st \<Rightarrow> code = 1 \<or> code = 0 \<and> cron_runs st = [] | _ \<Rightarrow> True)"

lemma process_steps_ok:
  assumes "(process_step env)\<^sup>*\<^sup>* (Up st) p" "server_ok env old d st"
  shows "server_ok env old d (process_state p) \<and> process_ok p"
  using assms(1)
proof (induction rule: rtranclp_induct)
  case base
  with assms(2) show ?case by (simp add: process_ok_def)
next
  case (step p q)
  from step.hyps(2) step.IH show ?case
    by (induction rule: process_step.induct) (auto simp: process_ok_def intro: server_step_ok)
qed

section \<open>A stop always comes to an end\<close>

text \<open>A run that has been started ends: its step is possible in every state.\<close>

lemma active_finishes:
  assumes "mgActive st = before @ a # after"
  shows "\<exists>st'. server_step env st st' \<and> mgActive st' = before @ after"
proof -
  obtain res err site where r: "do_run (web_runner env) (acSchedule a) (mgSite st) = ((res, err), site)"
    by (metis prod.exhaust)
  show ?thesis
    by (rule exI, rule conjI, rule server_step.background, rule mgr_step.finish [OF assms r]) simp
qed

lemma stopping_ends: "\<exists>st'. (process_step env)\<^sup>*\<^sup>* (Stopping st) (Ended 0 st')"
proof (induction "length (cron_runs st)" arbitrary: st)
  case 0
  then have "process_step env (Stopping st) (Ended 0 st)" by (intro process_step.stopped) simp
  then show ?case by blast
next
  case (Suc n)
  then obtain a where "a \<in> set (cron_runs st)" by (cases "cron_runs st") auto
  then have "a \<in> set (mgActive st)" and j: "acJob a \<noteq> None" by (auto simp: cron_runs_def)
  then obtain before after where s: "mgActive st = before @ a # after" by (meson split_list)
  obtain st1 where 1: "server_step env st st1" "mgActive st1 = before @ after"
    using active_finishes [OF s] by blast
  have "set (cron_runs st1) \<subseteq> set (cron_runs st)" "n = length (cron_runs st1)"
    using Suc.hyps(2) j by (auto simp: cron_runs_def s 1(2))
  with 1(1) Suc.hyps(1) [of st1] show ?case
    by (meson converse_rtranclp_into_rtranclp process_step.stops)
qed

lemma process_can_end: "(\<exists>code st. p = Ended code st) \<or> (\<exists>st. (process_step env)\<^sup>*\<^sup>* p (Ended 0 st))"
proof (cases p)
  case (Up st)
  with stopping_ends [of env st] show ?thesis
    by (meson converse_rtranclp_into_rtranclp process_step.signalled process_step.drained)
next
  case (Draining st)
  with stopping_ends [of env st] show ?thesis
    by (meson converse_rtranclp_into_rtranclp process_step.drained)
next
  case (Stopping st)
  with stopping_ends [of env st] show ?thesis by simp
next
  case (Ended code st)
  then show ?thesis by simp
qed

section \<open>Properties\<close>



section \<open>One process after another\<close>

text \<open>What a process that started on \<open>d\<close> leaves, wherever it was cut off.\<close>

inductive lifetime :: "('d, 'b) webenv \<Rightarrow> db \<Rightarrow> db \<Rightarrow> bool" for env0 where
  "web_main env0 refused templates site d = Serving env st \<Longrightarrow> (process_step env)\<^sup>*\<^sup>* (Up st) p \<Longrightarrow>
     lifetime env0 d (mgDb (process_state p))"

text \<open>However often the program is restarted, or cut off, the tables stay consistent and the history grows; and a run that
  one process left running is never settled by another.\<close>

theorem restarts_keep:
  assumes "(lifetime env0)\<^sup>*\<^sup>* d d'" "db_ok d"
  shows "db_ok d' \<and> grows d d' \<and> running_ids d \<subseteq> running_ids d'"
  using assms
proof (induction rule: rtranclp_induct)
  case base
  then show ?case by (simp add: grows_def)
next
  case (step d1 d2)
  from step.hyps(2) show ?case
  proof cases
    case (1 refused templates site env st p)
    have "server_ok env (running_ids d1) d1 (process_state p)"
      using process_steps_ok [OF 1(3) served_ok [OF 1(2)]] step.IH step.prems by simp
    with step.IH step.prems grows_trans [of d d1 d2] 1(1) show ?thesis
      by (auto simp: server_ok_def mgr_ok_def abandoned_def)
  qed
qed

end
