(* ===== verification/WebFormat.thy ===== *)
theory WebFormat
  imports WebServer
begin

text \<open>
  The size of a file as a page shows it: the loop that finds the unit ends within six rounds, its index is within
  the table of units, and the number shown is the nearest tenth.
\<close>

lemma byte_unit_spec:
  assumes "0 \<le> n" "n < 1024 ^ Suc k"
  shows "\<exists>j \<le> k. byte_unit k n d e = (d * 1024 ^ j, e + j) \<and> n < 1024 ^ Suc j \<and> (j = 0 \<or> 1024 ^ j \<le> n)
    \<and> (\<forall>m. byte_unit (k + m) n d e = byte_unit k n d e)"
  using assms
proof (induction k arbitrary: n d e)
  case 0
  then have "byte_unit m n d e = (d, e)" for m by (cases m) auto
  with 0 show ?case by auto
next
  case (Suc k)
  show ?case
  proof (cases "1024 \<le> n")
    case True
    have nn: "0 \<le> n div 1024" using Suc.prems by simp
    have lt: "n div 1024 < 1024 ^ Suc k" using Suc.prems by simp
    then obtain j where j: "j \<le> k" "byte_unit k (n div 1024) (d * 1024) (Suc e) = (d * 1024 * 1024 ^ j, Suc e + j)"
      "n div 1024 < 1024 ^ Suc j" "j = 0 \<or> 1024 ^ j \<le> n div 1024"
      "\<And>m. byte_unit (k + m) (n div 1024) (d * 1024) (Suc e) = byte_unit k (n div 1024) (d * 1024) (Suc e)"
      using Suc.IH [OF nn lt, of "d * 1024" "Suc e"] by blast
    have "1024 ^ Suc j \<le> n" using j(4) True by (auto simp: pos_le_divide_eq zdiv_mono1)
    moreover have "n < 1024 ^ Suc (Suc j)" using j(3) by simp
    ultimately show ?thesis using True j(1,2,5) by (intro exI [of _ "Suc j"]) (auto simp: mult.assoc)
  next
    case False
    then have "byte_unit m n d e = (d, e)" for m by (cases m) auto
    with False show ?thesis by (intro exI [of _ 0]) auto
  qed
qed

lemma byte_unit_bytes:
  assumes "1024 \<le> bytes" "bytes < 2 ^ 63"
  shows "\<exists>e \<le> 5. byte_unit 6 (bytes div 1024) 1024 0 = (1024 ^ Suc e, e) \<and> 1024 ^ Suc e \<le> bytes \<and> bytes < 1024 * 1024 ^ Suc e
    \<and> (\<forall>m. byte_unit (6 + m) (bytes div 1024) 1024 0 = byte_unit 6 (bytes div 1024) 1024 0)"
proof -
  let ?n = "bytes div 1024"
  have n: "0 \<le> ?n" "?n < 1024 ^ Suc 6" using assms by (simp_all add: power_eq_if)
  obtain j where j: "byte_unit 6 ?n 1024 0 = (1024 * 1024 ^ j, j)" "?n < 1024 ^ Suc j" "j = 0 \<or> 1024 ^ j \<le> ?n"
    "\<And>m. byte_unit (6 + m) ?n 1024 0 = byte_unit 6 ?n 1024 0"
    using byte_unit_spec [OF n, of 1024 0] by auto
  have le: "1024 ^ Suc j \<le> bytes" using j(3) assms(1) by (auto simp: mult.commute)
  have "j \<le> 5"
  proof (rule ccontr)
    assume "\<not> j \<le> 5"
    then have "(1024::int) ^ 7 \<le> 1024 ^ Suc j" by (intro power_increasing) auto
    with le assms(2) show False by simp
  qed
  moreover have "bytes < 1024 * 1024 ^ Suc j" using j(2) by simp
  ultimately show ?thesis using j le by auto
qed

lemma rounded_tenths:
  fixes b d :: int
  assumes "0 < d" "d \<le> b" "b < 1024 * d"
  defines "t \<equiv> (if d < 2 * (10 * b mod d) \<or> d = 2 * (10 * b mod d) \<and> odd (10 * b div d) then 10 * b div d + 1 else 10 * b div d)"
  shows "2 * \<bar>t * d - 10 * b\<bar> \<le> d \<and> 10 \<le> t \<and> t \<le> 10240"
proof -
  obtain q r where qr: "10 * b div d = q" "10 * b mod d = r" by blast
  have r: "0 \<le> r" "r < d" "10 * b = q * d + r"
    using assms(1) div_mult_mod_eq [of "10 * b" d] by (simp_all add: qr pos_mod_bound flip: qr(2))
  have q: "10 \<le> q" using zdiv_mono1 [of "10 * d" "10 * b" d] assms(1,2) by (simp add: qr)
  have "q * d < 10240 * d" using assms(3) r by linarith
  then have q2: "q < 10240" using assms(1) by simp
  show ?thesis
  proof (cases "t = q")
    case True
    then have "2 * r \<le> d" unfolding t_def qr by (auto split: if_splits)
    moreover have "\<bar>t * d - 10 * b\<bar> = r" using r True by simp
    ultimately show ?thesis using q q2 True by simp
  next
    case False
    then have t: "t = q + 1" "d \<le> 2 * r" unfolding t_def qr by (auto split: if_splits)
    have "t * d - 10 * b = d - r" using r(3) t(1) by (simp add: algebra_simps)
    then have "\<bar>t * d - 10 * b\<bar> = d - r" using r(2) by simp
    with q q2 t show ?thesis by simp
  qed
qed



end
