(* ===== verification/WebAnswer.thy ===== *)
theory WebAnswer
  imports WebServer
begin

text \<open>
  The answer that is written for a response: its status, the headers the program sets, and its text where the program
  writes it.  What \<open>net/http\<close> and the templates write themselves (a page, a redirection, a file, the methods a
  path allows) is a parameter.  A time on a page is shown in the machine's zone, whose offset is a parameter too.
\<close>

section \<open>Headers\<close>

type_synonym headers = "string \<Rightarrow> string option"

record answer =
  anStatus :: nat
  anHeaders :: headers
  anBody :: string

record writers =
  wrPage :: "string \<Rightarrow> PageData \<Rightarrow> string"
  wrRedirect :: "request \<Rightarrow> headers \<Rightarrow> string \<Rightarrow> answer"
  wrMoved :: "request \<Rightarrow> headers \<Rightarrow> string \<Rightarrow> answer"
  wrFile :: "request \<Rightarrow> headers \<Rightarrow> string \<Rightarrow> answer"
  wrStatic :: "request \<Rightarrow> headers \<Rightarrow> string list \<Rightarrow> answer"
  wrAllow :: "request \<Rightarrow> string"

definition secureHeaders :: "headers \<Rightarrow> headers" where
  "secureHeaders hs =
     hs(''Cache-Control'' \<mapsto> ''no-store'', ''X-Content-Type-Options'' \<mapsto> ''nosniff'',
        ''Referrer-Policy'' \<mapsto> ''same-origin'')"

text \<open>\<open>http.Error\<close>.\<close>

definition http_error :: "headers \<Rightarrow> string \<Rightarrow> nat \<Rightarrow> answer" where
  "http_error hs message code =
     \<lparr>anStatus = code,
      anHeaders = hs(''Content-Type'' \<mapsto> ''text/plain; charset=utf-8'', ''X-Content-Type-Options'' \<mapsto> ''nosniff''),
      anBody = message @ newline\<rparr>"

definition html_headers :: "headers \<Rightarrow> headers" where
  "html_headers hs = hs(''Content-Type'' \<mapsto> ''text/html; charset=utf-8'')"

definition attachment :: "string \<Rightarrow> string" where
  "attachment name = ''attachment; filename=\"'' @ name @ [CHR 0x22]"

definition logout_page :: string where
  "logout_page = join newline
     [''<!doctype html>'',
      ''<html lang=\"pt-BR\"><head><meta charset=\"utf-8\"><title>Logged out - infra-shelf</title>'',
      ''<link rel=\"stylesheet\" href=\"/static/app.css\"></head>'',
      ''<body><main class=\"content\"><section class=\"panel\">'',
      ''<h1>Logged out</h1>'',
      ''<p>Voce saiu da sessao do infra-shelf.</p>'',
      ''<p><a class=\"button primary\" href=\"/\">Sign in again</a></p>'',
      ''</section></main></body></html>'']"

definition logout_answer :: "headers \<Rightarrow> answer" where
  "logout_answer hs =
     \<lparr>anStatus = 401,
      anHeaders = html_headers (hs(''WWW-Authenticate'' \<mapsto> ''Basic realm=\"infra-shelf-logout\"'')),
      anBody = logout_page\<rparr>"

definition challenge :: "headers \<Rightarrow> answer" where
  "challenge hs = http_error (hs(''WWW-Authenticate'' \<mapsto> ''Basic realm=\"infra-shelf\"'')) ''authentication required'' 401"

definition render_page :: "writers \<Rightarrow> headers \<Rightarrow> string \<Rightarrow> PageData \<Rightarrow> answer" where
  "render_page wr hs name data = \<lparr>anStatus = 200, anHeaders = html_headers hs, anBody = wrPage wr name data\<rparr>"

definition env_answer :: "headers \<Rightarrow> string \<Rightarrow> string \<Rightarrow> answer" where
  "env_answer hs name body =
     \<lparr>anStatus = 200,
      anHeaders = hs(''Content-Type'' \<mapsto> ''text/plain; charset=utf-8'', ''Content-Disposition'' \<mapsto> attachment name),
      anBody = body\<rparr>"

definition write_answer :: "writers \<Rightarrow> request \<Rightarrow> headers \<Rightarrow> response \<Rightarrow> answer" where
  "write_answer wr req hs r =
     (case r of
        SeeOther target \<Rightarrow> wrRedirect wr req hs target
      | Moved target \<Rightarrow> wrMoved wr req hs target
      | Render name data \<Rightarrow> render_page wr hs name data
      | ServerError message \<Rightarrow> http_error hs message 500
      | NotFoundPage \<Rightarrow> http_error hs ''404 page not found'' 404
      | MethodNotAllowed \<Rightarrow> http_error (hs(''Allow'' \<mapsto> wrAllow wr req)) ''Method Not Allowed'' 405
      | TextFile name body \<Rightarrow> env_answer hs name body
      | SendFile name path \<Rightarrow> wrFile wr req (hs(''Content-Disposition'' \<mapsto> attachment name)) path
      | StaticFile p \<Rightarrow> wrStatic wr req hs p
      | LogoutPage \<Rightarrow> logout_answer hs
      | Unauthorized \<Rightarrow> challenge hs)"

text \<open>The guard is outside \<open>secureHeaders\<close>: its refusal carries none of the headers.\<close>

definition answer_request ::
  "('d, 'b) webenv \<Rightarrow> writers \<Rightarrow> request \<Rightarrow> ('d, 'b) state \<Rightarrow> answer \<times> ('d, 'b) state" where
  "answer_request env wr req st =
     (case serve env req st of
        (r, st') \<Rightarrow> (write_answer wr req (if r = Unauthorized then Map.empty else secureHeaders Map.empty) r, st'))"

text \<open>Without the credentials the answer is the same whatever the program holds, and nothing happens.\<close>

theorem refusal_uniform:
  assumes "rqSegments req \<noteq> [''logout'']" "\<not> authorized env req"
  shows "answer_request env wr req st = (challenge Map.empty, st)"
  using assms by (simp add: answer_request_def serve_def write_answer_def)

text \<open>The file with an app's credentials is never kept by a cache.\<close>

theorem env_not_cached:
  assumes "rqMethod req = ''GET''" "rqSegments req = [''apps'', name, ''env'']" "name \<noteq> []" "authorized env req"
    "get_app (weHost env) (cfgRegistryPath (weConfig env)) name (the_world st) = Inr (Some app)"
  shows "\<exists>a. answer_request env wr req st = (a, st) \<and> anStatus a = 200 \<and> anBody a = env_file (Entry app) @ newline
     \<and> anHeaders a ''Cache-Control'' = Some ''no-store''"
  using assms
  by (simp add: answer_request_def serve_def handle_def route_of_def get_route_def downloadEnv_def write_answer_def
      env_answer_def secureHeaders_def)

section \<open>Times\<close>

datatype shown_value = TimeValue int | TimePointer "int option" | OtherValue

definition format_minute :: "int \<Rightarrow> string" where
  "format_minute t =
     (case utc_fields t of
        ((y, mo, d), (hh, mi, s)) \<Rightarrow>
          pad_dec 4 y @ ''-'' @ pad_dec 2 mo @ ''-'' @ pad_dec 2 d @ '' '' @ pad_dec 2 hh @ '':'' @ pad_dec 2 mi)"

definition formatTime :: "(int \<Rightarrow> int) \<Rightarrow> shown_value \<Rightarrow> string" where
  "formatTime offset v =
     (case (case v of TimeValue t \<Rightarrow> Some t | TimePointer p \<Rightarrow> p | OtherValue \<Rightarrow> None) of
        None \<Rightarrow> ''-''
      | Some t \<Rightarrow> if t = zero_time then ''-'' else format_minute (t + offset t * ns_per_sec))"


end
