(* ===== verification/Output.thy ===== *)
theory Output
  imports BackupService
begin

text \<open>
  The terminal of the command line (\<open>internal/output/output.go\<close>): each message is one line of standard
  output or standard error, in colour when standard output is a terminal and \<open>NO_COLOR\<close> is not set.
\<close>

datatype stream = ToStdout | ToStderr

definition ansi :: "string \<Rightarrow> string" where
  "ansi code = [CHR 0x1B] @ ''['' @ code @ ''m''"

definition ansi_codes :: "(string \<times> string) list" where
  "ansi_codes = [(''Reset'', ansi ''0''), (''Bold'', ansi ''1''), (''Dim'', ansi ''2''), (''Red'', ansi ''31''),
     (''Green'', ansi ''32''), (''Cyan'', ansi ''36'')]"

definition colour :: "string \<Rightarrow> string" where
  "colour name = the (map_of ansi_codes name)"

definition wrap :: "bool \<Rightarrow> string \<Rightarrow> string \<Rightarrow> string" where
  "wrap on c s = (if \<not> on then s else c @ s @ colour ''Reset'')"

text \<open>Whether standard output is a terminal is a parameter.\<close>

definition colorEnabled :: "'d host \<Rightarrow> bool \<Rightarrow> bool" where
  "colorEnabled h tty = (getenv h ''NO_COLOR'' = [] \<and> tty)"

definition println :: "string \<Rightarrow> string" where
  "println s = s @ newline"

fun say :: "bool \<Rightarrow> level \<Rightarrow> string \<Rightarrow> stream \<times> string" where
  "say on Success m = (ToStdout, println (wrap on (colour ''Green'') (mark Success @ '' '' @ m)))"
| "say on Failure m = (ToStderr, println (wrap on (colour ''Red'') (mark Failure @ '' '' @ m)))"
| "say on Info m = (ToStdout, println (wrap on (colour ''Cyan'') (mark Info @ '' '' @ m)))"
| "say on Warn m = (ToStdout, println (mark Warn @ '' '' @ m))"
| "say on Title m = (ToStdout, println (wrap on (colour ''Bold'') m))"

definition say_dim :: "bool \<Rightarrow> string \<Rightarrow> stream \<times> string" where
  "say_dim on m = (ToStdout, println (wrap on (colour ''Dim'') m))"

end
