(* ===== verification/Cli.thy ===== *)
theory Cli
  imports Output ScheduleStore AppPage Strconv
begin

text \<open>
  The command line (\<open>internal/cli\<close>, \<open>cmd/shelf/main.go\<close>): every command as a function of the flags and
  arguments that cobra read and of a console, which is the machine, the schedule database, what has been
  written to the terminal and what the user types.  Cobra itself (reading the flags, its help texts) is not
  modelled: a command is given the value of each flag, and its number of arguments is checked as cobra's
  \<open>ExactArgs\<close>, \<open>NoArgs\<close> and \<open>MaximumNArgs\<close> do.
\<close>

section \<open>The console\<close>

record 'd console =
  coWorld :: "'d world"
  coDb :: db
  coOut :: "(stream \<times> string) list"
  coIn :: string

record 'd clienv =
  ceHost :: "'d host"
  ceSql :: sql_env
  ceVisit :: "string list \<Rightarrow> string list"
  ceTty :: bool

record flags =
  fgServices :: string
  fgEnv :: string
  fgEnvs :: string
  fgFullAccess :: bool
  fgAll :: bool
  fgJson :: bool
  fgForce :: bool
  fgFile :: string
  fgCron :: string
  fgTimezone :: string
  fgRetentionDays :: int
  fgRetentionCount :: int
  fgDisabled :: bool

definition default_flags :: flags where
  "default_flags = \<lparr>fgServices = [], fgEnv = [], fgEnvs = [], fgFullAccess = False, fgAll = False, fgJson = False,
     fgForce = False, fgFile = [], fgCron = [], fgTimezone = [], fgRetentionDays = 30, fgRetentionCount = 0,
     fgDisabled = False\<rparr>"

type_synonym 'd outcome = "error option \<times> 'd console"

definition colors :: "'d clienv \<Rightarrow> bool" where
  "colors env = colorEnabled (ceHost env) (ceTty env)"

definition print_text :: "string \<Rightarrow> 'd console \<Rightarrow> 'd console" where
  "print_text s st = st\<lparr>coOut := coOut st @ [(ToStdout, s)]\<rparr>"

definition print_line :: "string \<Rightarrow> 'd console \<Rightarrow> 'd console" where
  "print_line s st = print_text (println s) st"

definition tell :: "'d clienv \<Rightarrow> level \<Rightarrow> string \<Rightarrow> 'd console \<Rightarrow> 'd console" where
  "tell env l m st = st\<lparr>coOut := coOut st @ [say (colors env) l m]\<rparr>"

definition tell_dim :: "'d clienv \<Rightarrow> string \<Rightarrow> 'd console \<Rightarrow> 'd console" where
  "tell_dim env m st = st\<lparr>coOut := coOut st @ [say_dim (colors env) m]\<rparr>"

text \<open>\<open>cliReporter\<close>: what the engine reports between two worlds goes to the terminal as it is said.\<close>

definition cliReporter :: "'d clienv \<Rightarrow> 'd world \<Rightarrow> 'd console \<Rightarrow> 'd console" where
  "cliReporter env w st =
     st\<lparr>coWorld := w, coOut := coOut st @
          map (\<lambda>(l, m). say (colors env) l m) (drop (length (report (coWorld st))) (report w))\<rparr>"

definition buildEngine :: "'d clienv \<Rightarrow> 'd console \<Rightarrow> (Engine \<times> Config) result" where
  "buildEngine env st =
     (case load_config (ceHost env) (coWorld st) of
        Inl e \<Rightarrow> Inl (wrapf ''config: '' e [])
      | Inr cfg \<Rightarrow> Inr (\<lparr>StorePath = cfgRegistryPath cfg, BackupsDir = cfgBackupsDir cfg\<rparr>, cfg))"

definition parseServicesFlag :: "flags \<Rightarrow> string list result" where
  "parseServicesFlag fl =
     parse_services (filter (\<lambda>p. p \<noteq> []) (map trim_space (split_on (CHR '','') (fgServices fl))))"

definition parseOptionalServicesFlag :: "flags \<Rightarrow> string list result" where
  "parseOptionalServicesFlag fl = (if fgServices fl = [] then Inr [] else parseServicesFlag fl)"

definition requireAtLeastOneService :: "string list \<Rightarrow> string \<Rightarrow> error option" where
  "requireAtLeastOneService svcs hint =
     (if svcs \<noteq> [] then None else Some (errorf (''at least one service is required (use -s '' @ hint @ '')'')))"

text \<open>The flags \<open>--envs\<close> and \<open>--env\<close> of \<open>setup\<close> and \<open>add\<close>: both parsed, at most one of them given.\<close>

definition env_flags :: "string \<Rightarrow> flags \<Rightarrow> Options result" where
  "env_flags both fl =
     (case ParseEnvs (fgEnvs fl) of
        Inl e \<Rightarrow> Inl e
      | Inr envs \<Rightarrow>
          (case ParseSingleEnv (fgEnv fl) of
             Inl e \<Rightarrow> Inl e
           | Inr env \<Rightarrow>
               (if envs \<noteq> [] \<and> env \<noteq> [] then Inl (errorf both) else Inr \<lparr>optEnvs = envs, optEnv = env\<rparr>)))"

definition printEnvBlocks :: "AppEntry \<Rightarrow> 'd console \<Rightarrow> 'd console" where
  "printEnvBlocks entry st = (let body = env_file entry in if body \<noteq> [] then print_line body st else st)"

section \<open>Apps\<close>

definition show_result :: "'d clienv \<Rightarrow> string \<Rightarrow> TargetResult \<Rightarrow> 'd console \<Rightarrow> 'd console" where
  "show_result env title r st =
     print_line [] (printEnvBlocks (trEntry r) (tell env Title title (print_line [] st)))"

definition runSetup :: "'d clienv \<Rightarrow> flags \<Rightarrow> string \<Rightarrow> 'd console \<Rightarrow> 'd outcome" where
  "runSetup env fl app st =
     (case parseServicesFlag fl of
        Inl e \<Rightarrow> (Some e, st)
      | Inr services \<Rightarrow>
     (case requireAtLeastOneService services ''postgres,redis,rabbitmq,aistor,mongodb'' of
        Some e \<Rightarrow> (Some e, st)
      | None \<Rightarrow>
     (case env_flags ''--envs and --env are mutually exclusive (use --envs to expand into siblings, --env to tag a single app)'' fl of
        Inl e \<Rightarrow> (Some e, st)
      | Inr opts \<Rightarrow>
     (case buildEngine env st of
        Inl e \<Rightarrow> (Some e, st)
      | Inr (engine, _) \<Rightarrow>
     (case SetupApp (ceHost env) engine app
             \<lparr>soServices = services, soEnvs = optEnvs opts, soEnv = optEnv opts, soFullAccess = fgFullAccess fl\<rparr> (coWorld st) of
        ((_, Some e), w1) \<Rightarrow> (Some e, cliReporter env w1 st)
      | ((results, None), w1) \<Rightarrow>
          (None, fold (\<lambda>r. show_result env (''App '' @ quote (trName r) @ '' ready!'') r) results (cliReporter env w1 st)))))))"

definition runAdd :: "'d clienv \<Rightarrow> flags \<Rightarrow> string \<Rightarrow> 'd console \<Rightarrow> 'd outcome" where
  "runAdd env fl app st =
     (case parseServicesFlag fl of
        Inl e \<Rightarrow> (Some e, st)
      | Inr services \<Rightarrow>
     (case requireAtLeastOneService services ''aistor,signoz,...'' of
        Some e \<Rightarrow> (Some e, st)
      | None \<Rightarrow>
     (case env_flags ''--envs and --env are mutually exclusive'' fl of
        Inl e \<Rightarrow> (Some e, st)
      | Inr opts \<Rightarrow>
     (case buildEngine env st of
        Inl e \<Rightarrow> (Some e, st)
      | Inr (engine, _) \<Rightarrow>
     (case AddServices (ceHost env) engine app
             \<lparr>aoServices = services, aoEnvs = optEnvs opts, aoEnv = optEnv opts\<rparr> (coWorld st) of
        ((_, Some e), w1) \<Rightarrow> (Some e, cliReporter env w1 st)
      | ((results, None), w1) \<Rightarrow>
          (None, fold (\<lambda>r. if trProvisioned r = [] then id
                           else show_result env (''Services attached to '' @ quote (trName r) @ '':'') r)
                   results (cliReporter env w1 st)))))))"

definition runDetach :: "'d clienv \<Rightarrow> flags \<Rightarrow> string \<Rightarrow> 'd console \<Rightarrow> 'd outcome" where
  "runDetach env fl app st =
     (case parseServicesFlag fl of
        Inl e \<Rightarrow> (Some e, st)
      | Inr services \<Rightarrow>
     (case requireAtLeastOneService services ''signoz'' of
        Some e \<Rightarrow> (Some e, st)
      | None \<Rightarrow>
     (case buildEngine env st of
        Inl e \<Rightarrow> (Some e, st)
      | Inr (engine, _) \<Rightarrow>
          (case DetachServices (ceHost env) engine app services (coWorld st) of
             (r, w1) \<Rightarrow> (r, cliReporter env w1 st)))))"

text \<open>\<open>confirm\<close> reads one line; only \<open>y\<close> or \<open>Y\<close> agrees.\<close>

definition confirm :: "string \<Rightarrow> 'd console \<Rightarrow> bool \<times> 'd console" where
  "confirm prompt st =
     (let line = takeWhile (\<lambda>c. c \<noteq> CHR 0x0A) (coIn st) in
      (trim_space line = ''y'' \<or> trim_space line = ''Y'',
       (print_text prompt st)\<lparr>coIn := tl (dropWhile (\<lambda>c. c \<noteq> CHR 0x0A) (coIn st))\<rparr>))"

definition runRemove :: "'d clienv \<Rightarrow> flags \<Rightarrow> string \<Rightarrow> 'd console \<Rightarrow> 'd outcome" where
  "runRemove env fl app st =
     (let (go, st1) = (if fgForce fl then (True, st)
                       else confirm (''Remove all resources for '' @ quote app @ ''? [y/N] '') st) in
      if \<not> go then (None, tell env Info ''Cancelled.'' st1)
      else
        (case buildEngine env st1 of
           Inl e \<Rightarrow> (Some e, st1)
         | Inr (engine, _) \<Rightarrow>
             (case RemoveApp (ceHost env) engine app (coWorld st1) of
                (r, w1) \<Rightarrow> (r, cliReporter env w1 st1))))"

definition runCredentials :: "'d clienv \<Rightarrow> string \<Rightarrow> 'd console \<Rightarrow> 'd outcome" where
  "runCredentials env app st =
     (case buildEngine env st of
        Inl e \<Rightarrow> (Some e, st)
      | Inr (engine, _) \<Rightarrow>
          (case Credentials (ceHost env) engine app (coWorld st) of
             Inl e \<Rightarrow> (Some e, st)
           | Inr body \<Rightarrow>
               (if body = [] then (None, tell env Warn (''App '' @ quote app @ '' has no services attached.'') st)
                else (None, print_line body st))))"

text \<open>\<open>%v\<close> of a slice of texts.\<close>

definition show_slice :: "string list \<Rightarrow> string" where
  "show_slice ss = ''['' @ join '' '' ss @ '']''"

definition format_date :: "int \<Rightarrow> string" where
  "format_date t =
     (case utc_fields t of ((y, mo, d), _) \<Rightarrow> pad_dec 4 y @ ''-'' @ pad_dec 2 mo @ ''-'' @ pad_dec 2 d)"

definition list_app :: "'d clienv \<Rightarrow> App \<Rightarrow> 'd console \<Rightarrow> 'd console" where
  "list_app env app st =
     (let t = CreatedAtTime app; created = (if t = zero_time then ''unknown'' else format_date t);
          st1 = tell_dim env (''Created: '' @ created @ '' | Services: '' @ show_slice (service_names app))
                  (tell env Title (AppName app) st) in
      print_line [] (printEnvBlocks (Entry app) st1))"

definition runList :: "'d clienv \<Rightarrow> flags \<Rightarrow> 'd console \<Rightarrow> 'd outcome" where
  "runList env fl st =
     (case buildEngine env st of
        Inl e \<Rightarrow> (Some e, st)
      | Inr (engine, _) \<Rightarrow>
          (case list_apps (ceHost env) (StorePath engine) (coWorld st) of
             Inl e \<Rightarrow> (Some e, st)
           | Inr apps \<Rightarrow>
               (if apps = [] then (None, tell env Info ''No apps provisioned yet.'' st)
                else if fgJson fl
                then (None, print_line (marshal_indent (JObj (map (\<lambda>a. (AppName a, entry_json (Entry a))) apps))) st)
                else (None, fold (list_app env) apps st))))"

definition runReconcile :: "'d clienv \<Rightarrow> 'd console \<Rightarrow> 'd outcome" where
  "runReconcile env st =
     (case buildEngine env st of
        Inl e \<Rightarrow> (Some e, st)
      | Inr (engine, _) \<Rightarrow>
          (case Reconcile (ceHost env) engine (coWorld st) of
             (Inl e, w1) \<Rightarrow> (Some e, cliReporter env w1 st)
           | (Inr results, w1) \<Rightarrow>
               (let totalFail = sum_list (map (\<lambda>r. fcard (fmdom (rrFailures r))) results) in
                (if 0 < totalFail
                 then Some (errorf (''reconcile finished with '' @ dec totalFail @ '' failure(s)''))
                 else None, cliReporter env w1 st))))"

definition runRegistryEncrypt :: "'d clienv \<Rightarrow> 'd console \<Rightarrow> 'd outcome" where
  "runRegistryEncrypt env st =
     (case buildEngine env st of
        Inl e \<Rightarrow> (Some e, st)
      | Inr (engine, _) \<Rightarrow>
          (case encrypt_in_place (ceHost env) (StorePath engine) (coWorld st) of
             (Some e, w1) \<Rightarrow> (Some e, cliReporter env w1 st)
           | (None, w1) \<Rightarrow> (None, tell env Success ''Registry encrypted.'' (cliReporter env w1 st))))"

section \<open>Backups\<close>

definition runBackupCmd :: "'d clienv \<Rightarrow> flags \<Rightarrow> string list \<Rightarrow> 'd console \<Rightarrow> 'd outcome" where
  "runBackupCmd env fl args st =
     (case parseOptionalServicesFlag fl of
        Inl e \<Rightarrow> (Some e, st)
      | Inr services \<Rightarrow>
     (case buildEngine env st of
        Inl e \<Rightarrow> (Some e, st)
      | Inr (engine, cfg) \<Rightarrow>
     (let saved = (\<lambda>w1 st1. (None, tell env Success (''Backups saved to '' @ cfgBackupsDir cfg @ ''/'')
                     (print_line [] (cliReporter env w1 st1)))) in
      if fgAll fl then
        (case BackupAll (ceHost env) (ceVisit env) engine services (coWorld st) of
           (Inl e, w1) \<Rightarrow> (Some e, cliReporter env w1 st)
         | (Inr _, w1) \<Rightarrow> saved w1 st)
      else
        (case args of
           [] \<Rightarrow> (Some (errorf ''app name is required (use --all to backup all apps)''), st)
         | app # _ \<Rightarrow>
             (let st1 = tell env Title (''Backing up '' @ quote app @ ''...'') st in
              case BackupApp (ceHost env) engine app services (coWorld st1) of
                (Inl e, w1) \<Rightarrow> (Some e, cliReporter env w1 st1)
              | (Inr _, w1) \<Rightarrow> saved w1 st1)))))"

definition runBackupDelete :: "'d clienv \<Rightarrow> string \<Rightarrow> string \<Rightarrow> 'd console \<Rightarrow> 'd outcome" where
  "runBackupDelete env app file st =
     (case buildEngine env st of
        Inl e \<Rightarrow> (Some e, st)
      | Inr (engine, _) \<Rightarrow>
          (case DeleteBackup (ceHost env) engine app file (coWorld st) of
             (Some e, w1) \<Rightarrow> (Some e, cliReporter env w1 st)
           | (None, w1) \<Rightarrow> (None, tell env Success (''removed '' @ app @ ''/'' @ file) (cliReporter env w1 st))))"

definition show_plan :: "RestorePlanEntry list \<Rightarrow> 'd console \<Rightarrow> 'd console" where
  "show_plan plan st =
     fold (\<lambda>p. print_text (println (''  '' @ rpService p @ '' <- '' @ path_base (rpFile p)))) plan st"

definition runRestoreCmd :: "'d clienv \<Rightarrow> flags \<Rightarrow> string \<Rightarrow> 'd console \<Rightarrow> 'd outcome" where
  "runRestoreCmd env fl app st =
     (case buildEngine env st of
        Inl e \<Rightarrow> (Some e, st)
      | Inr (engine, _) \<Rightarrow>
     (if fgFile fl \<noteq> [] then
        (let (go, st1) = (if fgForce fl then (True, st)
                          else confirm (''Restore '' @ quote app @ '' from '' @ path_base (fgFile fl) @ ''? [y/N] '') st) in
         if \<not> go then (None, tell env Info ''Cancelled.'' st1)
         else (case RestoreFromFile (ceHost env) engine app (fgFile fl) (coWorld st1) of
                 (r, w1) \<Rightarrow> (r, cliReporter env w1 st1)))
      else
     (case parseOptionalServicesFlag fl of
        Inl e \<Rightarrow> (Some e, st)
      | Inr services \<Rightarrow>
     (case PlanRestore (ceHost env) engine app services (coWorld st) of
        (Inl e, w1) \<Rightarrow> (Some e, cliReporter env w1 st)
      | (Inr plan, w1) \<Rightarrow>
          (let st1 = cliReporter env w1 st;
               (go, st2) =
                 (if fgForce fl then (True, st1)
                  else confirm ''Proceed with restore? [y/N] ''
                    (print_line [] (show_plan plan
                      (tell env Title (''Restore plan for '' @ quote app @ '':'') (print_line [] st1))))) in
           if \<not> go then (None, tell env Info ''Cancelled.'' st2)
           else (case RestoreApp (ceHost env) engine app services (coWorld st2) of
                   (r, w2) \<Rightarrow> (r, cliReporter env w2 st2)))))))"

section \<open>The infrastructure\<close>

definition runStart :: "'d clienv \<Rightarrow> string list \<Rightarrow> 'd console \<Rightarrow> 'd outcome" where
  "runStart env args st =
     (let full = [''compose'', ''--env-file'', ''.env'', ''up'', ''-d''] @ args;
          st1 = tell env Info (''docker '' @ show_slice full) st in
      case run_docker (ceHost env) full None (coWorld st1) of
        (r, w1) \<Rightarrow>
          (let st2 = st1\<lparr>coWorld := w1, coOut := coOut st1 @ [(ToStdout, stdout r), (ToStderr, stderr r)]\<rparr> in
           case exit_error (status r) of
             Some e \<Rightarrow> (Some (wrapf ''docker compose failed: '' e []), st2)
           | None \<Rightarrow> (None, tell env Success ''infrastructure started'' st2)))"

definition iconForState :: "string \<Rightarrow> bool \<Rightarrow> string \<times> string" where
  "iconForState state there =
     (if \<not> there then ([char_of (226::nat), char_of (143::nat), char_of (185::nat)], ''not created'')
      else if state = ''running''
        then ([char_of (240::nat), char_of (159::nat), char_of (159::nat), char_of (162::nat)], ''running'')
      else ([char_of (240::nat), char_of (159::nat), char_of (148::nat), char_of (180::nat)], state))"

definition status_line :: "Status \<Rightarrow> string" where
  "status_line s =
     (case iconForState (stState s) (stExists s) of
        (icon, label) \<Rightarrow>
          println (''  '' @ stService s @ replicate (14 - length (stService s)) (CHR '' '') @ '' '' @ icon @ '' '' @ label))"

definition runStatus :: "'d clienv \<Rightarrow> 'd console \<Rightarrow> 'd outcome" where
  "runStatus env st =
     (let st1 = tell env Title ''Infrastructure Status'' st in
      case ListStatus (ceHost env) (coWorld st1) of
        (ss, w1) \<Rightarrow> (None, print_line [] (fold (\<lambda>s. print_text (status_line s)) ss (cliReporter env w1 st1))))"

section \<open>Schedules\<close>

definition openScheduleStore :: "'d clienv \<Rightarrow> 'd console \<Rightarrow> Config result \<times> 'd console" where
  "openScheduleStore env st =
     (case load_config (ceHost env) (coWorld st) of
        Inl e \<Rightarrow> (Inl e, st)
      | Inr cfg \<Rightarrow>
          (case OpenStore (ceHost env) (ceSql env) (cfgDatabasePath cfg) (coWorld st) (coDb st) of
             (Some e, w1, d1) \<Rightarrow> (Inl (wrapf ''open schedule store: '' e []), st\<lparr>coWorld := w1, coDb := d1\<rparr>)
           | (None, w1, d1) \<Rightarrow> (Inr cfg, st\<lparr>coWorld := w1, coDb := d1\<rparr>)))"

definition schedule_lines :: "Schedule \<Rightarrow> string list" where
  "schedule_lines s =
     (let state = (if shEnabled s then ''enabled'' else ''paused'');
          joined = join '','' (shServices s); services = (if joined = [] then ''(all)'' else joined);
          last_run = (case shLastRunAt s of None \<Rightarrow> ''never run''
                      | Some t \<Rightarrow> ''last='' @ format_rfc3339 t @ '' ('' @ shLastStatus s @ '')'');
          next_run = (case shNextRunAt s of None \<Rightarrow> ''no upcoming'' | Some t \<Rightarrow> ''next='' @ format_rfc3339 t) in
      [''#'' @ dec_int (shID s) @ '' '' @ shAppName s @ '' '' @ state,
       ''  cron='' @ quote (shCronExpr s) @ '' tz='' @ shTimezone s @ '' services='' @ services,
       ''  retention: '' @ dec_int (shRetentionDays s) @ ''d / '' @ dec_int (shRetentionCount s) @ '' files'',
       ''  '' @ last_run @ ''  |  '' @ next_run])"

definition runScheduleList :: "'d clienv \<Rightarrow> 'd console \<Rightarrow> 'd outcome" where
  "runScheduleList env st =
     (case openScheduleStore env st of
        (Inl e, st1) \<Rightarrow> (Some e, st1)
      | (Inr _, st1) \<Rightarrow>
          (case ListSchedules (ceSql env) (coDb st1) of
             (Inl e, d2) \<Rightarrow> (Some e, st1\<lparr>coDb := d2\<rparr>)
           | (Inr schs, d2) \<Rightarrow>
               (let st2 = st1\<lparr>coDb := d2\<rparr> in
                if schs = [] then (None, tell env Info ''No schedules.'' st2)
                else (None, fold print_line (concat (map schedule_lines schs)) st2))))"

definition cli_schedule_input :: "Config \<Rightarrow> flags \<Rightarrow> string \<Rightarrow> ScheduleInput" where
  "cli_schedule_input cfg fl app =
     \<lparr>siAppName = app,
      siServices = filter (\<lambda>p. p \<noteq> []) (map trim_space (split_on (CHR '','') (fgServices fl))),
      siCronExpr = fgCron fl, siTimezone = (if fgTimezone fl = [] then cfgTimezone cfg else fgTimezone fl),
      siRetentionDays = fgRetentionDays fl, siRetentionCount = fgRetentionCount fl, siEnabled = (\<not> fgDisabled fl)\<rparr>"

definition runScheduleCreate :: "'d clienv \<Rightarrow> flags \<Rightarrow> string \<Rightarrow> 'd console \<Rightarrow> 'd outcome" where
  "runScheduleCreate env fl app st =
     (if fgCron fl = [] then (Some (errorf ''--cron is required''), st)
      else
        (case openScheduleStore env st of
           (Inl e, st1) \<Rightarrow> (Some e, st1)
         | (Inr cfg, st1) \<Rightarrow>
             (case CreateSchedule (ceSql env) (cli_schedule_input cfg fl app) (coDb st1) of
                (Inl e, d2) \<Rightarrow> (Some e, st1\<lparr>coDb := d2\<rparr>)
              | (Inr created, d2) \<Rightarrow>
                  (None, tell env Info ''Restart the web app (or wait for the next manager reload) to pick it up.''
                     (tell env Success (''schedule #'' @ dec_int (shID created) @ '' created'') (st1\<lparr>coDb := d2\<rparr>))))))"

definition parseScheduleID :: "string \<Rightarrow> int result" where
  "parseScheduleID raw =
     (case parse_decimal ''ParseInt'' raw of
        Inl _ \<Rightarrow> Inl (errorf (''invalid schedule id '' @ quote raw))
      | Inr i \<Rightarrow> if i \<le> 0 then Inl (errorf (''invalid schedule id '' @ quote raw)) else Inr i)"

definition not_found_text :: "int \<Rightarrow> error \<Rightarrow> error" where
  "not_found_text i e = (if IsNotFound e then errorf (''schedule #'' @ dec_int i @ '' not found'') else e)"

definition on_schedule ::
  "'d clienv \<Rightarrow> string \<Rightarrow> (int \<Rightarrow> db \<Rightarrow> error option \<times> db) \<Rightarrow> string \<Rightarrow> 'd console \<Rightarrow> 'd outcome" where
  "on_schedule env raw stmt done_text st =
     (case parseScheduleID raw of
        Inl e \<Rightarrow> (Some e, st)
      | Inr i \<Rightarrow>
          (case openScheduleStore env st of
             (Inl e, st1) \<Rightarrow> (Some e, st1)
           | (Inr _, st1) \<Rightarrow>
               (case stmt i (coDb st1) of
                  (Some e, d2) \<Rightarrow> (Some (not_found_text i e), st1\<lparr>coDb := d2\<rparr>)
                | (None, d2) \<Rightarrow>
                    (None, tell env Success (''schedule #'' @ dec_int i @ '' '' @ done_text) (st1\<lparr>coDb := d2\<rparr>)))))"

definition scheduleToggle :: "'d clienv \<Rightarrow> bool \<Rightarrow> string \<Rightarrow> 'd console \<Rightarrow> 'd outcome" where
  "scheduleToggle env enabled raw st =
     on_schedule env raw (\<lambda>i. SetScheduleEnabled (ceSql env) i enabled) (if enabled then ''resumed'' else ''paused'') st"

definition runScheduleDelete :: "'d clienv \<Rightarrow> string \<Rightarrow> 'd console \<Rightarrow> 'd outcome" where
  "runScheduleDelete env raw st = on_schedule env raw (DeleteSchedule (ceSql env)) ''deleted'' st"

section \<open>The command tree\<close>

definition exact_args :: "nat \<Rightarrow> (string list \<Rightarrow> 'd console \<Rightarrow> 'd outcome) \<Rightarrow> string list \<Rightarrow> 'd console \<Rightarrow> 'd outcome" where
  "exact_args n run args st =
     (if length args \<noteq> n
      then (Some (errorf (''accepts '' @ dec n @ '' arg(s), received '' @ dec (length args))), st)
      else run args st)"

definition maximum_args :: "nat \<Rightarrow> (string list \<Rightarrow> 'd console \<Rightarrow> 'd outcome) \<Rightarrow> string list \<Rightarrow> 'd console \<Rightarrow> 'd outcome" where
  "maximum_args n run args st =
     (if n < length args
      then (Some (errorf (''accepts at most '' @ dec n @ '' arg(s), received '' @ dec (length args))), st)
      else run args st)"

definition no_args :: "string list \<Rightarrow> ('d console \<Rightarrow> 'd outcome) \<Rightarrow> string list \<Rightarrow> 'd console \<Rightarrow> 'd outcome" where
  "no_args path run args st =
     (if args \<noteq> []
      then (Some (errorf (''unknown command '' @ quote (hd args) @ '' for '' @ quote (join '' '' (''shelf'' # path)))), st)
      else run st)"

text \<open>Each constructor gives its command and those below it, by their path.\<close>

type_synonym 'd command = "string list \<Rightarrow> 'd console \<Rightarrow> 'd outcome"

definition NewSetupCmd :: "'d clienv \<Rightarrow> flags \<Rightarrow> (string list \<times> 'd command) list" where
  "NewSetupCmd env fl = [([''setup''], exact_args 1 (\<lambda>a. runSetup env fl (a ! 0)))]"

definition NewAddCmd :: "'d clienv \<Rightarrow> flags \<Rightarrow> (string list \<times> 'd command) list" where
  "NewAddCmd env fl = [([''add''], exact_args 1 (\<lambda>a. runAdd env fl (a ! 0)))]"

definition NewDetachCmd :: "'d clienv \<Rightarrow> flags \<Rightarrow> (string list \<times> 'd command) list" where
  "NewDetachCmd env fl = [([''detach''], exact_args 1 (\<lambda>a. runDetach env fl (a ! 0)))]"

definition NewListCmd :: "'d clienv \<Rightarrow> flags \<Rightarrow> (string list \<times> 'd command) list" where
  "NewListCmd env fl = [([''list''], no_args [''list''] (runList env fl))]"

definition NewCredentialsCmd :: "'d clienv \<Rightarrow> (string list \<times> 'd command) list" where
  "NewCredentialsCmd env = [([''credentials''], exact_args 1 (\<lambda>a. runCredentials env (a ! 0)))]"

definition NewRemoveCmd :: "'d clienv \<Rightarrow> flags \<Rightarrow> (string list \<times> 'd command) list" where
  "NewRemoveCmd env fl = [([''remove''], exact_args 1 (\<lambda>a. runRemove env fl (a ! 0)))]"

definition NewBackupCmd :: "'d clienv \<Rightarrow> flags \<Rightarrow> (string list \<times> 'd command) list" where
  "NewBackupCmd env fl =
     [([''backup''], maximum_args 1 (runBackupCmd env fl)),
      ([''backup'', ''delete''], exact_args 2 (\<lambda>a. runBackupDelete env (a ! 0) (a ! 1)))]"

definition NewRestoreCmd :: "'d clienv \<Rightarrow> flags \<Rightarrow> (string list \<times> 'd command) list" where
  "NewRestoreCmd env fl = [([''restore''], exact_args 1 (\<lambda>a. runRestoreCmd env fl (a ! 0)))]"

definition NewStartCmd :: "'d clienv \<Rightarrow> (string list \<times> 'd command) list" where
  "NewStartCmd env = [([''start''], runStart env)]"

definition NewStatusCmd :: "'d clienv \<Rightarrow> (string list \<times> 'd command) list" where
  "NewStatusCmd env = [([''status''], no_args [''status''] (runStatus env))]"

definition NewScheduleCmd :: "'d clienv \<Rightarrow> flags \<Rightarrow> (string list \<times> 'd command) list" where
  "NewScheduleCmd env fl =
     [([''schedule'', ''list''], no_args [''schedule'', ''list''] (runScheduleList env)),
      ([''schedule'', ''create''], exact_args 1 (\<lambda>a. runScheduleCreate env fl (a ! 0))),
      ([''schedule'', ''pause''], exact_args 1 (\<lambda>a. scheduleToggle env False (a ! 0))),
      ([''schedule'', ''resume''], exact_args 1 (\<lambda>a. scheduleToggle env True (a ! 0))),
      ([''schedule'', ''delete''], exact_args 1 (\<lambda>a. runScheduleDelete env (a ! 0)))]"

definition NewRegistryCmd :: "'d clienv \<Rightarrow> (string list \<times> 'd command) list" where
  "NewRegistryCmd env = [([''registry'', ''encrypt''], no_args [''registry'', ''encrypt''] (runRegistryEncrypt env))]"

definition NewReconcileCmd :: "'d clienv \<Rightarrow> (string list \<times> 'd command) list" where
  "NewReconcileCmd env = [([''reconcile''], no_args [''reconcile''] (runReconcile env))]"

definition NewRootCmd :: "'d clienv \<Rightarrow> flags \<Rightarrow> (string list \<times> 'd command) list" where
  "NewRootCmd env fl =
     NewSetupCmd env fl @ NewAddCmd env fl @ NewDetachCmd env fl @ NewListCmd env fl @ NewCredentialsCmd env
     @ NewRemoveCmd env fl @ NewBackupCmd env fl @ NewRestoreCmd env fl @ NewStartCmd env @ NewStatusCmd env
     @ NewScheduleCmd env fl @ NewRegistryCmd env @ NewReconcileCmd env"

text \<open>The program: the exit code, and the error on standard error.  A path with no command of its own is answered
  by cobra's help.\<close>

definition shelf_main :: "'d clienv \<Rightarrow> flags \<Rightarrow> string list \<Rightarrow> string list \<Rightarrow> 'd console \<Rightarrow> (int \<times> 'd console) option" where
  "shelf_main env fl path args st =
     (case map_of (NewRootCmd env fl) path of
        None \<Rightarrow> None
      | Some run \<Rightarrow>
          (case run args st of
             (None, st1) \<Rightarrow> Some (0, st1)
           | (Some e, st1) \<Rightarrow> Some (1, st1\<lparr>coOut := coOut st1 @ [(ToStderr, println (err_text e))]\<rparr>)))"

end
