(* ===== verification/CliSpec.thy ===== *)
theory CliSpec
  imports Cli WebSafety
begin

text \<open>
  What the command line promises: a command that destroys asks first and then does what it showed, a setup
  does to the machine what the form of the web page does, and a schedule is stored as it is typed.
\<close>

section \<open>The terminal changes nothing else\<close>

lemma terminal_sel [simp]:
  "coWorld (print_text s st) = coWorld st" "coDb (print_text s st) = coDb st" "coIn (print_text s st) = coIn st"
  "coWorld (print_line s st) = coWorld st" "coDb (print_line s st) = coDb st" "coIn (print_line s st) = coIn st"
  "coWorld (tell env l m st) = coWorld st" "coDb (tell env l m st) = coDb st" "coIn (tell env l m st) = coIn st"
  "coWorld (cliReporter env w st) = w" "coDb (cliReporter env w st) = coDb st" "coIn (cliReporter env w st) = coIn st"
  by (simp_all add: print_line_def print_text_def tell_def cliReporter_def)

lemma printEnvBlocks_sel [simp]: "coWorld (printEnvBlocks e st) = coWorld st" "coDb (printEnvBlocks e st) = coDb st"
  by (simp_all add: printEnvBlocks_def Let_def)

lemma show_result_sel [simp]: "coWorld (show_result env t r st) = coWorld st" "coDb (show_result env t r st) = coDb st"
  by (simp_all add: show_result_def)

lemma show_plan_sel [simp]:
  "coWorld (show_plan plan st) = coWorld st" "coDb (show_plan plan st) = coDb st" "coIn (show_plan plan st) = coIn st"
proof -
  have "coWorld (show_plan plan st) = coWorld st \<and> coDb (show_plan plan st) = coDb st \<and> coIn (show_plan plan st) = coIn st"
    unfolding show_plan_def by (induction plan arbitrary: st) simp_all
  then show "coWorld (show_plan plan st) = coWorld st" "coDb (show_plan plan st) = coDb st"
    "coIn (show_plan plan st) = coIn st" by blast+
qed

lemma fold_results_sel [simp]: "coWorld (fold (\<lambda>r. show_result env (f r) r) rs st) = coWorld st"
  by (induction rs arbitrary: st) simp_all

section \<open>Asking first\<close>

definition agrees :: "'d console \<Rightarrow> bool" where
  "agrees st = (trim_space (takeWhile (\<lambda>c. c \<noteq> CHR 0x0A) (coIn st)) \<in> {''y'', ''Y''})"

lemma confirm_sel [simp]:
  "fst (confirm p st) = agrees st" "coWorld (snd (confirm p st)) = coWorld st" "coDb (snd (confirm p st)) = coDb st"
  by (simp_all add: confirm_def agrees_def Let_def)

text \<open>A plan does not depend on what has been reported.\<close>

lemma report_frame:
  "lookup_file (w\<lparr>report := r\<rparr>) = lookup_file w" "dir_names (w\<lparr>report := r\<rparr>) = dir_names w"
  "fails h (w\<lparr>report := r\<rparr>) = fails h w"
  by (intro ext, simp add: lookup_file_def dir_names_def fails_def)+

lemma store_load_report: "store_load h path (w\<lparr>report := r\<rparr>) = store_load h path w"
proof -
  let ?w = "w\<lparr>report := r\<rparr>"
  have r: "read_file h ?w = read_file h w" unfolding read_file_def report_frame ..
  have "dotenv_at h ?w = dotenv_at h w" by (intro ext) (simp add: dotenv_at_def r)
  then have "load_dotenv h ?w d = load_dotenv h w d" for d by (simp only: load_dotenv_def)
  then have "registry_secret h ?w d = registry_secret h w d" for d by (simp only: registry_secret_def)
  then have "decryptRegistryContent h ?w f path = decryptRegistryContent h w f path" for f
    by (simp only: decryptRegistryContent_def)
  then show ?thesis by (simp only: store_load_def r)
qed

lemma findLatestBackup_report: "findLatestBackup h d s (w\<lparr>report := r\<rparr>) = findLatestBackup h d s w"
  unfolding findLatestBackup_def read_dir_def report_frame ..

lemma plan_services_report:
  "\<exists>r. plan_services h d svcs w = (fst (plan_services h d svcs w), w\<lparr>report := r\<rparr>)
     \<and> (\<forall>q. fst (plan_services h d svcs (w\<lparr>report := q\<rparr>)) = fst (plan_services h d svcs w))"
proof (induction svcs arbitrary: w)
  case Nil
  show ?case by (intro exI [of _ "report w"]) simp
next
  case (Cons s svcs)
  have e: "emit l m (w\<lparr>report := q\<rparr>) = w\<lparr>report := q @ [(l, m)]\<rparr>" for l m q by (simp add: emit_def)
  have e': "emit l m w = w\<lparr>report := report w @ [(l, m)]\<rparr>" for l m by (simp add: emit_def)
  obtain r where r: "plan_services h d svcs w = (fst (plan_services h d svcs w), w\<lparr>report := r\<rparr>)"
    and q: "\<And>q. fst (plan_services h d svcs (w\<lparr>report := q\<rparr>)) = fst (plan_services h d svcs w)"
    using Cons.IH [of w] by blast
  have q2: "\<exists>r'. plan_services h d svcs (w\<lparr>report := q\<rparr>) = (fst (plan_services h d svcs w), w\<lparr>report := r'\<rparr>)" for q
    using Cons.IH [of "w\<lparr>report := q\<rparr>"] q by auto
  show ?case
  proof (cases "findLatestBackup h d s w = []")
    case True
    then show ?thesis
      using q2 [of "report w @ [(Warn, ''no backup found for '' @ s)]"]
      by (auto simp: Let_def findLatestBackup_report e e' q)
  next
    case False
    have "fst (case plan_services h d svcs v of (plan, w1) \<Rightarrow> (x # plan, w1)) = x # fst (plan_services h d svcs v)" for v x
      by (simp split: prod.split)
    with False r show ?thesis
      by (intro exI [of _ r]) (simp add: Let_def findLatestBackup_report q, metis (no_types, lifting) case_prod_conv)
  qed
qed

lemma PlanRestore_report:
  assumes "PlanRestore h eng app services w = (Inr plan, w1)"
  shows "\<exists>r q. w1 = w\<lparr>report := r\<rparr> \<and> PlanRestore h eng app services w1 = (Inr plan, w1\<lparr>report := q\<rparr>)"
proof -
  obtain reg entry where v: "validate_app_name app = None" "store_load h (StorePath eng) w = Inr reg"
      "fmlookup (Apps reg) app = Some entry"
    and p: "plan_services h (path_join [BackupsDir eng, app]) (chooseBackupServices entry services) w = (plan, w1)"
    and ne: "plan \<noteq> []"
    using assms by (auto simp: PlanRestore_def split: option.splits sum.splits prod.splits if_splits)
  obtain r where r: "w1 = w\<lparr>report := r\<rparr>"
    and same: "\<And>q. fst (plan_services h (path_join [BackupsDir eng, app]) (chooseBackupServices entry services)
        (w\<lparr>report := q\<rparr>)) = plan"
    using plan_services_report [of h "path_join [BackupsDir eng, app]" "chooseBackupServices entry services" w] p by auto
  obtain q where q: "plan_services h (path_join [BackupsDir eng, app]) (chooseBackupServices entry services) w1
      = (plan, w1\<lparr>report := q\<rparr>)"
    using plan_services_report [of h "path_join [BackupsDir eng, app]" "chooseBackupServices entry services" w1]
      same [of r] r by auto
  have "PlanRestore h eng app services w1 = (Inr plan, w1\<lparr>report := q\<rparr>)"
    using v q ne by (simp add: PlanRestore_def r store_load_report)
  with r show ?thesis by blast
qed

lemma agrees_cong [simp]:
  "agrees (print_text s st) = agrees st" "agrees (print_line s st) = agrees st" "agrees (tell env l m st) = agrees st"
  "agrees (cliReporter env w st) = agrees st" "agrees (show_plan plan st) = agrees st"
  by (simp_all add: agrees_def)

lemma terminal_out [simp]:
  "coOut (print_text s st) = coOut st @ [(ToStdout, s)]"
  "coOut (print_line s st) = coOut st @ [(ToStdout, println s)]"
  "coOut (tell env l m st) = coOut st @ [say (colors env) l m]"
  by (simp_all add: print_line_def print_text_def tell_def)

lemma later_out:
  "\<exists>t. coOut (cliReporter env w st) = coOut st @ t" "\<exists>t. coOut (snd (confirm p st)) = coOut st @ t"
  by (simp_all add: cliReporter_def confirm_def Let_def)

definition plan_line :: "RestorePlanEntry \<Rightarrow> stream \<times> string" where
  "plan_line p = (ToStdout, println (''  '' @ rpService p @ '' <- '' @ path_base (rpFile p)))"

lemma show_plan_out: "coOut (show_plan plan st) = coOut st @ map plan_line plan"
  unfolding show_plan_def by (induction plan arbitrary: st) (simp_all add: plan_line_def)

lemma restore_asks:
  assumes "\<not> fgForce fl" "fgFile fl = []" "buildEngine env st = Inr (eng, cfg)"
    "parseOptionalServicesFlag fl = Inr services"
    "PlanRestore (ceHost env) eng app services (coWorld st) = (Inr plan, w1)"
  shows "\<exists>r before after. coOut (snd (runRestoreCmd env fl app st)) = coOut st @ before @ map plan_line plan @ after
    \<and> coWorld (snd (runRestoreCmd env fl app st))
        = (if agrees st then restore_plan (ceHost env) app plan (w1\<lparr>report := r\<rparr>) else w1)"
proof -
  obtain q where q: "PlanRestore (ceHost env) eng app services w1 = (Inr plan, w1\<lparr>report := q\<rparr>)"
    using PlanRestore_report [OF assms(5)] by blast
  define shown where "shown = print_line [] (show_plan plan (tell env Title (''Restore plan for '' @ quote app @ '':'')
      (print_line [] (cliReporter env w1 st))))"
  obtain go asked where c: "confirm ''Proceed with restore? [y/N] '' shown = (go, asked)" by fastforce
  have go: "go = agrees st" "coWorld asked = w1"
    using confirm_sel(1,2) [of "''Proceed with restore? [y/N] ''" shown] unfolding c by (simp_all add: shown_def)
  obtain t1 where t1: "coOut (cliReporter env w1 st) = coOut st @ t1" using later_out(1) by blast
  define u where "u = t1 @ [(ToStdout, println []), say (colors env) Title (''Restore plan for '' @ quote app @ '':'')]"
  define v where "v = [(ToStdout, println [])]"
  have uv: "coOut shown = coOut st @ u @ map plan_line plan @ v" by (simp add: shown_def show_plan_out t1 u_def v_def)
  obtain t2 where t2: "coOut asked = coOut shown @ t2" using later_out(2) [of "''Proceed with restore? [y/N] ''" shown] c by auto
  have R: "RestoreApp (ceHost env) eng app services w1
      = (None, restore_plan (ceHost env) app plan (w1\<lparr>report := q\<rparr>))" using q by (simp add: RestoreApp_def)
  have run: "runRestoreCmd env fl app st =
      (if \<not> go then (None, tell env Info ''Cancelled.'' asked)
       else (None, cliReporter env (restore_plan (ceHost env) app plan (w1\<lparr>report := q\<rparr>)) asked))"
    using c [unfolded shown_def] R go(2) assms(1,2)
    by (simp add: runRestoreCmd_def assms(3,4,5) Let_def)
  have "\<exists>t3. coOut (snd (runRestoreCmd env fl app st)) = coOut asked @ t3"
  proof (cases go)
    case True
    then show ?thesis unfolding run using later_out(1) by simp
  next
    case False
    then show ?thesis unfolding run by simp
  qed
  then obtain t3 where t3: "coOut (snd (runRestoreCmd env fl app st)) = coOut asked @ t3" by blast
  have "coWorld (snd (runRestoreCmd env fl app st))
      = (if agrees st then restore_plan (ceHost env) app plan (w1\<lparr>report := q\<rparr>) else w1)"
    unfolding run go(1) [symmetric] using go(2) by simp
  moreover have "coOut (snd (runRestoreCmd env fl app st)) = coOut st @ u @ map plan_line plan @ v @ t2 @ t3"
    using t3 t2 uv by simp
  ultimately show ?thesis by blast
qed

lemma remove_asks:
  assumes "\<not> fgForce fl" "\<not> agrees st"
  shows "fst (runRemove env fl app st) = None \<and> coWorld (snd (runRemove env fl app st)) = coWorld st"
proof -
  obtain go asked where c: "confirm (''Remove all resources for '' @ quote app @ ''? [y/N] '') st = (go, asked)" by fastforce
  have "\<not> go" "coWorld asked = coWorld st"
    using confirm_sel(1,2) [of "''Remove all resources for '' @ quote app @ ''? [y/N] ''" st] assms(2) unfolding c by simp_all
  with c assms(1) show ?thesis by (simp add: runRemove_def Let_def)
qed

section \<open>Two doors, one engine\<close>

lemma SetupApp_refuses:
  "validate_app_name app \<noteq> None \<or> soServices opts = [] \<Longrightarrow> snd (SetupApp h eng app opts w) = w"
  by (auto simp: SetupApp_def split: option.splits)

lemma runSetup_world:
  assumes "buildEngine env st = Inr (eng, cfg)"
  shows "coWorld (snd (runSetup env fl app st)) =
    (case parseServicesFlag fl of
       Inl e \<Rightarrow> coWorld st
     | Inr services \<Rightarrow>
         (case env_flags ''--envs and --env are mutually exclusive (use --envs to expand into siblings, --env to tag a single app)'' fl of
            Inl e \<Rightarrow> coWorld st
          | Inr opts \<Rightarrow> snd (SetupApp (ceHost env) eng app
              \<lparr>soServices = services, soEnvs = optEnvs opts, soEnv = optEnv opts, soFullAccess = fgFullAccess fl\<rparr> (coWorld st))))"
proof (cases "parseServicesFlag fl")
  case (Inr services)
  show ?thesis
  proof (cases "services = []")
    case True
    then show ?thesis
      using Inr by (simp add: runSetup_def requireAtLeastOneService_def SetupApp_refuses split: sum.split)
  next
    case False
    with Inr assms show ?thesis
      by (simp add: runSetup_def requireAtLeastOneService_def split: sum.split prod.split option.split)
  qed
qed (simp add: runSetup_def)

lemma createApp_world:
  assumes "rqFormError req = None"
  shows "the_world (snd (createApp env req st)) =
    (case parse_services (rqForm req ''services'') of
       Inl e \<Rightarrow> the_world st
     | Inr services \<Rightarrow>
         (case parseEnvsField (form_value req ''envs'') of
            Inl e \<Rightarrow> the_world st
          | Inr opts \<Rightarrow> snd (SetupApp (weHost env) (web_engine env) (trim_space (form_value req ''app_name''))
              (app_options services opts) (the_world st))))"
proof (cases "parse_services (rqForm req ''services'')")
  case (Inr services)
  let ?name = "trim_space (form_value req ''app_name'')"
  have w: "the_world (set_world w st) = w" for w by (simp add: set_world_def the_world_def)
  show ?thesis
  proof (cases "validate_app_name ?name \<noteq> None \<or> services = []")
    case True
    then show ?thesis
      using Inr assms by (auto simp: createApp_def Let_def SetupApp_refuses app_options_def split: sum.split)
  next
    case False
    with Inr assms show ?thesis
      by (auto simp: createApp_def Let_def app_options_def w split: sum.split prod.split option.split)
  qed
qed (use assms in \<open>simp add: createApp_def Let_def\<close>)

section \<open>Schedules as they are typed\<close>

lemma CreateSchedule_ready:
  assumes "\<And>t. sqFault e t = None" "dbScheduleSeq d < max_rowid" "db_ok d"
  shows "\<exists>s d'. CreateSchedule e input d = (Inr s, d') \<and> shID s = dbScheduleSeq d + 1
    \<and> dbSchedules d' = dbSchedules d @ [new_schedule_row input (sql_now e d) (dbScheduleSeq d + 1)]"
proof -
  let ?i = "dbScheduleSeq d + 1" and ?row = "new_schedule_row input (sql_now e d) (dbScheduleSeq d + 1)"
  have new: "?i \<notin> schedule_ids d" using assms(3) by (auto simp: db_ok_def)
  then have "find (\<lambda>r. scID r = ?i) (dbSchedules d @ [?row]) = Some ?row"
    using find_append_absent [of ?i scID "dbSchedules d" "[?row]"]
    by (simp add: schedule_ids_def new_schedule_row_def)
  then show ?thesis
    using assms(1,2)
    by (simp add: CreateSchedule_def GetSchedule_def sql_do_def insert_schedule_def Let_def scanSchedule_def
        new_schedule_row_def)
qed

section \<open>The properties\<close>

text \<open>C38: without \<open>--force\<close>, \<open>shelf restore\<close> prints its plan and asks; answered anything but \<open>y\<close> or \<open>Y\<close> it changes
  nothing, and answered yes it runs exactly the entries it printed, in that order, although it plans again.
  \<open>shelf remove\<close> refused changes nothing either.\<close>

theorem cli_asks_first:
  assumes "\<not> fgForce fl" "fgFile fl = []" "buildEngine env st = Inr (eng, cfg)"
    "parseOptionalServicesFlag fl = Inr services"
    "PlanRestore (ceHost env) eng app services (coWorld st) = (Inr plan, w1)"
  shows "(\<exists>r before after. coOut (snd (runRestoreCmd env fl app st)) = coOut st @ before @ map plan_line plan @ after
      \<and> coWorld (snd (runRestoreCmd env fl app st))
          = (if agrees st then restore_plan (ceHost env) app plan (w1\<lparr>report := r\<rparr>) else w1))
    \<and> (\<exists>r. w1 = (coWorld st)\<lparr>report := r\<rparr>)
    \<and> (agrees st \<or> coWorld (snd (runRemove env fl app st)) = coWorld st)"
proof -
  note a = restore_asks [OF assms]
  have "\<exists>r. w1 = (coWorld st)\<lparr>report := r\<rparr>" using PlanRestore_report [OF assms(5)] by blast
  with a remove_asks [OF assms(1), of st env app] show ?thesis by blast
qed

text \<open>C39: \<open>shelf setup\<close> and the web page's new-app form do the same to the machine: with the same name, services and
  environments on the same machine, both leave the same files and have run the same commands, whether they
  succeed or fail.\<close>

theorem setup_two_doors:
  assumes "buildEngine cenv cst = Inr (web_engine env, cfg)" "ceHost cenv = weHost env" "coWorld cst = the_world st"
    "rqFormError req = None" "\<not> fgFullAccess fl" "app = trim_space (form_value req ''app_name'')"
    "map_sum (\<lambda>_. ()) id (parseServicesFlag fl) = map_sum (\<lambda>_. ()) id (parse_services (rqForm req ''services''))"
    "map_sum (\<lambda>_. ()) id (env_flags ''--envs and --env are mutually exclusive (use --envs to expand into siblings, --env to tag a single app)'' fl)
       = map_sum (\<lambda>_. ()) id (parseEnvsField (form_value req ''envs''))"
  shows "coWorld (snd (runSetup cenv fl app cst)) = the_world (snd (createApp env req st))"
  unfolding runSetup_world [OF assms(1)] createApp_world [OF assms(4)] using assms(2,3,5-8)
  by (auto simp: app_options_def split: sum.splits)

text \<open>C40: \<open>shelf schedule create\<close> stores whatever it is given: the app, the services, the expression, the zone and the
  limits go into the new row unchecked, also when the web page would refuse every one of them.\<close>

theorem cli_schedule_unchecked:
  assumes "fgCron fl \<noteq> []" "openScheduleStore env st = (Inr cfg, st1)" "\<And>t. sqFault (ceSql env) t = None"
    "db_ok (coDb st1)" "dbScheduleSeq (coDb st1) < max_rowid"
  shows "\<exists>st2 row. runScheduleCreate env fl app st = (None, st2)
    \<and> dbSchedules (coDb st2) = dbSchedules (coDb st1) @ [row]
    \<and> scApp row = app \<and> scCron row = fgCron fl \<and> (fgTimezone fl \<noteq> [] \<longrightarrow> scTimezone row = fgTimezone fl)
    \<and> scRetentionDays row = fgRetentionDays fl \<and> scRetentionCount row = fgRetentionCount fl
    \<and> scServices row = joinServices (filter (\<lambda>p. p \<noteq> []) (map trim_space (split_on (CHR '','') (fgServices fl))))"
proof -
  let ?input = "cli_schedule_input cfg fl app"
  obtain s d' where c: "CreateSchedule (ceSql env) ?input (coDb st1) = (Inr s, d')"
    "dbSchedules d' = dbSchedules (coDb st1)
       @ [new_schedule_row ?input (sql_now (ceSql env) (coDb st1)) (dbScheduleSeq (coDb st1) + 1)]"
    using CreateSchedule_ready [OF assms(3,5,4)] by blast
  then show ?thesis
    using assms(1,2) by (simp add: runScheduleCreate_def new_schedule_row_def cli_schedule_input_def)
qed

section \<open>A terminal to try them on\<close>

definition cli_host :: "unit host" where
  "cli_host = demo_host\<lparr>getenv := (\<lambda>k. if k = ''INFRA_SHELF_ROOT'' then ''/d''
     else if k = ''INFRA_SHELF_REGISTRY_PATH'' then ''/d/apps.json'' else [])\<rparr>"

definition cli_world :: "unit world" where
  "cli_world = demo_world\<lparr>files := fmap_of_list
     [(''/d'', Dir), (''/d/apps.json'', File (marshal_indent (registry_json demo_registry) @ newline) 0),
      (''/d/backups'', Dir), (''/d/backups/shop'', Dir), (''/d/backups/shop/redis_1.json'', File ''[]'' 0)]\<rparr>"

definition cli_env :: "unit clienv" where
  "cli_env = \<lparr>ceHost = cli_host, ceSql = demo_env, ceVisit = rev, ceTty = True\<rparr>"

definition cli_start :: "unit console" where
  "cli_start = \<lparr>coWorld = cli_world, coDb = fresh_db, coOut = [], coIn = ''n''\<rparr>"

lemma cli_load: "store_load cli_host ''/d/apps.json'' cli_world = Inr demo_registry"
proof (rule plain_content_load [OF _ storable_demo])
  show "reads_ok cli_host" by (simp add: reads_ok_def cli_host_def demo_host_def)
  have "clean ''/d/apps.json'' = ''/d/apps.json''" by code_simp
  then show "file_content cli_world ''/d/apps.json'' = Some (marshal_indent (registry_json demo_registry) @ newline)"
    by (simp add: file_content_def lookup_file_def cli_world_def)
qed

lemma cli_engine: "\<exists>cfg. buildEngine cli_env cli_start = Inr (demo_engine, cfg) \<and> cfgRegistryPath cfg = ''/d/apps.json''
    \<and> cfgBackupsDir cfg = ''/d/backups''"
proof -
  have "map_sum id (\<lambda>c. (cfgRegistryPath c, cfgBackupsDir c)) (load_config cli_host cli_world)
      = Inr (''/d/apps.json'', ''/d/backups'')" by code_simp
  then show ?thesis
    by (cases "load_config cli_host cli_world") (auto simp: buildEngine_def cli_env_def cli_start_def demo_engine_def)
qed

lemma cli_plan:
  "\<exists>w1. PlanRestore cli_host demo_engine ''shop'' [] cli_world
     = (Inr [\<lparr>rpService = Redis, rpFile = ''/d/backups/shop/redis_1.json''\<rparr>], w1)"
proof -
  have "chooseBackupServices demo_entry [] = [Redis]" by code_simp
  moreover have "findLatestBackup cli_host ''/d/backups/shop'' Redis cli_world = ''/d/backups/shop/redis_1.json''"
    by code_simp
  moreover have "path_join [''/d/backups'', ''shop''] = ''/d/backups/shop''" by code_simp
  moreover have "fmlookup (Apps demo_registry) ''shop'' = Some demo_entry" by (simp add: demo_registry_def)
  moreover have "validate_app_name ''shop'' = None"
    by (simp add: validate_app_name_def app_name_pattern_def char_class_defs)
  ultimately show ?thesis using cli_load by (simp add: PlanRestore_def demo_engine_def)
qed

theorem cli_asks_first_witness:
  "files (coWorld (snd (runRestoreCmd cli_env default_flags ''shop'' cli_start))) = files cli_world
     \<and> coWorld (snd (runRemove cli_env default_flags ''shop'' cli_start)) = cli_world"
proof -
  obtain cfg where e: "buildEngine cli_env cli_start = Inr (demo_engine, cfg)" using cli_engine by blast
  obtain w1 where p: "PlanRestore (ceHost cli_env) demo_engine ''shop'' [] (coWorld cli_start)
      = (Inr [\<lparr>rpService = Redis, rpFile = ''/d/backups/shop/redis_1.json''\<rparr>], w1)"
    using cli_plan by (auto simp: cli_env_def cli_start_def)
  have f: "\<not> fgForce default_flags" "fgFile default_flags = []" "parseOptionalServicesFlag default_flags = Inr []"
    by (simp_all add: default_flags_def parseOptionalServicesFlag_def)
  have "trim_space ''n'' = ''n''" by (rule trim_space_name) (simp add: char_class_defs)
  then have "\<not> agrees cli_start" by (simp add: agrees_def cli_start_def)
  with cli_asks_first [OF f(1,2) e f(3) p] show ?thesis by (auto simp: cli_start_def)
qed

definition door :: "Config \<Rightarrow> (unit, string \<times> string \<Rightarrow> string option) webenv" where
  "door cfg = demo_webenv\<lparr>weHost := cli_host, weConfig := cfg\<rparr>"

theorem setup_two_doors_witness:
  "\<exists>cfg. coWorld (snd (runSetup cli_env (default_flags\<lparr>fgServices := Signoz\<rparr>) ''shop'' cli_start))
     = the_world (snd (createApp (door cfg) demo_new_app (set_world cli_world demo_manager)))"
proof -
  let ?fl = "default_flags\<lparr>fgServices := Signoz\<rparr>" and ?st = "set_world cli_world demo_manager"
  obtain cfg where e: "buildEngine cli_env cli_start = Inr (demo_engine, cfg)"
      "cfgRegistryPath cfg = ''/d/apps.json''" "cfgBackupsDir cfg = ''/d/backups''" using cli_engine by blast
  have 1: "buildEngine cli_env cli_start = Inr (web_engine (door cfg), cfg)"
    using e by (simp add: web_engine_def door_def demo_engine_def)
  have 2: "ceHost cli_env = weHost (door cfg)" "coWorld cli_start = the_world ?st" "rqFormError demo_new_app = None"
    "\<not> fgFullAccess ?fl"
    by (simp_all add: cli_env_def door_def cli_start_def set_world_def the_world_def demo_new_app_def demo_post_def
        default_flags_def)
  have "trim_space ''shop'' = ''shop''" by (rule trim_space_name) (simp add: char_class_defs)
  then have 3: "''shop'' = trim_space (form_value demo_new_app ''app_name'')"
    by (simp add: demo_new_app_def form_value_def)
  have "parseServicesFlag ?fl = parse_services [Signoz]" by code_simp
  then have 4: "map_sum (\<lambda>_. ()) id (parseServicesFlag ?fl)
      = map_sum (\<lambda>_. ()) id (parse_services (rqForm demo_new_app ''services''))" by (simp add: demo_new_app_def)
  have 5: "map_sum (\<lambda>_. ()) id (env_flags ''--envs and --env are mutually exclusive (use --envs to expand into siblings, --env to tag a single app)'' ?fl)
      = map_sum (\<lambda>_. ()) id (parseEnvsField (form_value demo_new_app ''envs''))"
    by (simp add: env_flags_def default_flags_def ParseEnvs_def ParseSingleEnv_def parseEnvsField_def form_value_def
        demo_new_app_def Let_def)
  show ?thesis using setup_two_doors [OF 1 2 3 4 5] by blast
qed

definition careless :: flags where
  "careless = default_flags\<lparr>fgCron := ''never'', fgTimezone := ''Mars'', fgServices := ''oracle'', fgRetentionDays := - 1\<rparr>"

theorem cli_schedule_unchecked_witness:
  "\<exists>st2 row. runScheduleCreate cli_env careless ''ghost'' cli_start = (None, st2) \<and> dbSchedules (coDb st2) = [row]
     \<and> scApp row = ''ghost'' \<and> scCron row = ''never'' \<and> scTimezone row = ''Mars'' \<and> scRetentionDays row = - 1"
proof -
  have "case openScheduleStore cli_env cli_start of (r, st1) \<Rightarrow>
      \<not> isl r \<and> dbSchedules (coDb st1) = [] \<and> dbRuns (coDb st1) = [] \<and> dbScheduleSeq (coDb st1) = 0 \<and> dbRunSeq (coDb st1) = 0"
    by code_simp
  then obtain cfg st1 where o: "openScheduleStore cli_env cli_start = (Inr cfg, st1)"
    and d: "dbSchedules (coDb st1) = []" "dbRuns (coDb st1) = []" "dbScheduleSeq (coDb st1) = 0" "dbRunSeq (coDb st1) = 0"
    by (cases "openScheduleStore cli_env cli_start"; cases "fst (openScheduleStore cli_env cli_start)") auto
  have ok: "db_ok (coDb st1)" "dbScheduleSeq (coDb st1) < max_rowid"
    using d by (simp_all add: db_ok_def schedule_ids_def run_ids_def max_rowid_def)
  have c: "fgCron careless \<noteq> []" "\<And>t. sqFault (ceSql cli_env) t = None"
    by (simp_all add: careless_def cli_env_def demo_env_def)
  from cli_schedule_unchecked [OF c(1) o c(2) ok, of "''ghost''"] show ?thesis
    by (simp add: d) (auto simp: careless_def)
qed

end
