(* ===== verification/StoreSpec.thy ===== *)
theory StoreSpec
  imports Lifecycle
begin

text \<open>
  The registry file as the rest of the program sees it: a write either takes effect as a whole or not at all.
\<close>

text \<open>C36: saving a registry, encrypted or not, is atomic and loses nothing: when it succeeds the next load returns
  what was saved (with the version set), and when it fails, at whichever step, the next load returns what the
  load before it would have.\<close>

theorem store_atomic:
  assumes "registry_path path" "reads_ok h" "storable reg" "store_save h path reg w = (r, w')"
  shows "store_load h path w' = (if r = None then Inr (saved_version reg) else store_load h path w)"
  using store_save_load [OF assms(1-3)] store_save_fail [OF assms(1,2)] assms(4) by (cases r) auto

theorem store_atomic_witness:
  "\<exists>w'. store_save demo_host ''/d/apps.json'' demo_registry demo_world = (None, w')
     \<and> store_load demo_host ''/d/apps.json'' w' = Inr demo_registry"
proof -
  obtain w' where s: "store_save demo_host ''/d/apps.json'' demo_registry demo_world = (None, w')"
    using store_save_ready [OF demo_facts(1,3,4)] by blast
  have "saved_version demo_registry = demo_registry" by (simp add: saved_version_def demo_registry_def)
  with store_atomic [OF demo_facts(3,2) storable_demo s] s show ?thesis by simp
qed

end
