(* ===== verification/Recovery.thy ===== *)
theory Recovery
  imports Lifecycle
begin

text \<open>
  Taking an app away and putting its services back.  \<open>RemoveApp\<close> tears the services down and forgets the app;
  \<open>Reconcile\<close> applies the stored credentials again after a container has lost its data.
\<close>

section \<open>Remove\<close>

lemma RemoveApp_cases:
  assumes "RemoveApp h eng app w = (r, w')" "store_load h (StorePath eng) w = Inr reg"
  shows "(r \<noteq> None \<and> w' = w \<and> (fmlookup (Apps reg) app = None \<or> \<not> name_pattern app))
    \<or> (\<exists>entry w1 x w2. name_pattern app \<and> fmlookup (Apps reg) app = Some entry
        \<and> w1 = remove_all h app entry orderedServices w
        \<and> store_save h (StorePath eng) (reg\<lparr>Apps := fmdrop app (Apps reg)\<rparr>) w1 = (x, w2)
        \<and> (r = None \<longleftrightarrow> x = None) \<and> files w' = files w2 \<and> calls w' = calls w2)"
proof -
  obtain x w2 where s: "store_save h (StorePath eng) (reg\<lparr>Apps := fmdrop app (Apps reg)\<rparr>)
      (remove_all h app (the (fmlookup (Apps reg) app)) orderedServices w) = (x, w2)" by fastforce
  show ?thesis
    using assms s
    by (cases "fmlookup (Apps reg) app"; cases x)
      (auto simp: RemoveApp_def validate_app_name_def app_name_pattern_def split: option.splits if_splits)
qed

lemma RemoveApp_removes:
  assumes "reads_ok h" "registry_path (StorePath eng)" "store_load h (StorePath eng) w = Inr reg" "storable reg"
    "RemoveApp h eng app w = (None, w')"
  shows "fmlookup (Apps reg) app \<noteq> None"
    "store_load h (StorePath eng) w' = Inr (saved_version (reg\<lparr>Apps := fmdrop app (Apps reg)\<rparr>))"
proof -
  obtain entry w1 w2 where r: "fmlookup (Apps reg) app = Some entry"
    "store_save h (StorePath eng) (reg\<lparr>Apps := fmdrop app (Apps reg)\<rparr>) w1 = (None, w2)" "files w' = files w2"
    using RemoveApp_cases [OF assms(5,3)] by auto
  show "fmlookup (Apps reg) app \<noteq> None" using r(1) by simp
  show "store_load h (StorePath eng) w' = Inr (saved_version (reg\<lparr>Apps := fmdrop app (Apps reg)\<rparr>))"
    using store_save_load [OF assms(2,1) storable_drop [OF assms(4)] r(2)] store_load_files [OF r(3) assms(1)] by simp
qed

text \<open>C7: a removal that answers without error has taken exactly that app out of the stored registry, and one that
  answers with an error has left the registry as it was; in both cases only containers of the app's own services were
  used.  On a healthy disk a registered app is always removed, even when every teardown fails: what is then left in
  the containers is only in the report.\<close>

theorem remove_app_exact:
  assumes "reads_ok h" "registry_path (StorePath eng)" "store_load h (StorePath eng) w = Inr reg" "storable reg"
    "RemoveApp h eng app w = (r, w')"
  shows "(r = None \<longrightarrow> store_load h (StorePath eng) w' = Inr (saved_version (reg\<lparr>Apps := fmdrop app (Apps reg)\<rparr>))
        \<and> fmlookup (Apps reg) app \<noteq> None)
    \<and> (r \<noteq> None \<longrightarrow> store_load h (StorePath eng) w' = Inr reg)
    \<and> calls_only (for_services (case fmlookup (Apps reg) app of None \<Rightarrow> []
         | Some entry \<Rightarrow> filter (hasService entry) orderedServices)) w w'
    \<and> (no_faults h \<and> disk_ready (StorePath eng) w \<and> name_pattern app \<and> fmlookup (Apps reg) app \<noteq> None \<longrightarrow> r = None)"
proof -
  consider (refused) "r \<noteq> None" "w' = w" "fmlookup (Apps reg) app = None \<or> \<not> name_pattern app"
    | (removed) entry w1 x w2 where "name_pattern app" "fmlookup (Apps reg) app = Some entry"
      "w1 = remove_all h app entry orderedServices w"
      "store_save h (StorePath eng) (reg\<lparr>Apps := fmdrop app (Apps reg)\<rparr>) w1 = (x, w2)"
      "(r = None) = (x = None)" "files w' = files w2" "calls w' = calls w2"
    using RemoveApp_cases [OF assms(5,3)] by blast
  then show ?thesis
  proof cases
    case refused
    with assms(3) show ?thesis by (auto simp: calls_only_def)
  next
    case removed
    note n = removed(1) and e = removed(2) and w1 = removed(3) and s = removed(4) and x = removed(5) and f = removed(6,7)
    have a: "acts (for_services (filter (hasService entry) orderedServices)) w w1"
      unfolding w1 by (rule remove_all_acts) simp
    have same: "store_load h (StorePath eng) w' = store_load h (StorePath eng) w2"
      by (rule store_load_files [OF f(1) assms(1)])
    have l1: "store_load h (StorePath eng) w1 = Inr reg" using acts_store [OF a assms(1)] assms(3) by simp
    have ok: "store_load h (StorePath eng) w' = Inr (saved_version (reg\<lparr>Apps := fmdrop app (Apps reg)\<rparr>))" if "r = None"
      using RemoveApp_removes(2) [OF assms(1-4)] assms(5) that by simp
    have bad: "store_load h (StorePath eng) w' = Inr reg" if "r \<noteq> None"
      using store_save_fail [OF assms(2,1)] s x that same l1 by (cases x) auto
    have "calls_only (for_services (filter (hasService entry) orderedServices)) w w2"
      by (rule calls_only_trans [OF acts_calls_only [OF a] store_save_calls [OF s]])
    then have c: "calls_only (for_services (filter (hasService entry) orderedServices)) w w'"
      by (simp add: calls_only_def issued_def f)
    have live: "r = None" if "no_faults h" "disk_ready (StorePath eng) w"
    proof -
      have "disk_ready (StorePath eng) w1"
        using that(2) acts_files [OF a] disk_ready_files [of w1 w "StorePath eng"] by simp
      then show ?thesis using store_save_ready [OF that(1) assms(2)] s x by (metis prod.inject)
    qed
    show ?thesis using ok bad c live by (simp add: e)
  qed
qed

theorem remove_app_exact_witness:
  "\<exists>w'. RemoveApp demo_host demo_engine ''shop'' demo_saved = (None, w')
     \<and> store_load demo_host ''/d/apps.json'' w' = Inr \<lparr>Version = 1, Apps = fmempty\<rparr>"
proof -
  obtain r w' where s: "RemoveApp demo_host demo_engine ''shop'' demo_saved = (r, w')" by fastforce
  have "name_pattern ''shop''" by code_simp
  moreover have "StorePath demo_engine = ''/d/apps.json''" by (simp add: demo_engine_def)
  moreover have "fmdrop ''shop'' (fmupd ''shop'' demo_entry fmempty) = fmempty" by (rule fmap_ext) simp
  ultimately show ?thesis
    using remove_app_exact [OF demo_facts(2) _ _ storable_demo s] demo_facts(1,3) demo_saved_facts s
    by (auto simp: saved_version_def demo_registry_def)
qed

section \<open>Reconcile\<close>

text \<open>
  Among the processes \<open>cs\<close> are the ones that put the stored user, its password, its permissions and its tag back into
  the broker; the ones that put the stored user and its password back into the database.
\<close>

definition rmq_replayed :: "RabbitMQConfig \<Rightarrow> (string list \<times> string option) list \<Rightarrow> bool" where
  "rmq_replayed cfg cs =
     (let sent = (\<lambda>args. List.member cs (''exec'' # rmq_container # ctl args, None)) in
      (sent [''add_user'', rmq_Username cfg, rmq_Password cfg]
         \<or> sent [''change_password'', rmq_Username cfg, rmq_Password cfg])
      \<and> sent [''set_permissions'', ''-p'', rmq_Vhost cfg, rmq_Username cfg, ''.*'', ''.*'', ''.*'']
      \<and> sent [''set_user_tags'', rmq_Username cfg, ''management''])"

definition mongo_replayed :: "MongoDBConfig \<Rightarrow> (string list \<times> string option) list \<Rightarrow> bool" where
  "mongo_replayed cfg cs =
     list_ex (\<lambda>c. in_container mongo_container c \<and> last (fst c) = eval_script (ensure_js cfg)) cs"

definition replayed :: "AppEntry \<Rightarrow> string list \<Rightarrow> (string list \<times> string option) list \<Rightarrow> bool" where
  "replayed entry svcs cs =
     list_all (\<lambda>s.
       s = RabbitMQ \<and> (case svcRabbitMQ (Svcs entry) of None \<Rightarrow> False | Some cfg \<Rightarrow> rmq_replayed cfg cs)
       \<or> s = MongoDB \<and> (case svcMongoDB (Svcs entry) of None \<Rightarrow> False | Some cfg \<Rightarrow> mongo_replayed cfg cs)) svcs"

lemma replayed_mono: "replayed entry svcs cs \<Longrightarrow> set cs \<subseteq> set ds \<Longrightarrow> replayed entry svcs ds"
  by (fastforce simp: replayed_def rmq_replayed_def mongo_replayed_def Let_def list_all_iff list_ex_iff
      member_def split: option.splits)

lemma rabbitmq_ensure_replays:
  assumes "rabbitmq_ensure h cfg w = (None, w')"
  shows "rmq_replayed cfg (issued w w')"
proof -
  have "\<exists>cs. calls w' = calls w @ cs \<and> rmq_replayed cfg cs"
    using assms
    by (auto simp: rabbitmq_ensure_def and_then_def rmq_replayed_def Let_def member_def
        split: if_splits prod.splits sum.splits option.splits
        dest!: ensure_step_calls docker_exec_calls)
  then show ?thesis by (auto dest: issuedI)
qed

lemma mongodb_ensure_replays:
  assumes "mongodb_ensure h cfg w = (None, w')"
  shows "mongo_replayed cfg (issued w w')"
  using assms
  by (auto simp: mongodb_ensure_def mongoEval_def mongo_replayed_def in_container_def shell_args_def
      split: if_splits dest!: mongoShell_cases issuedI)

lemma mongodb_ensure_ran: "mongodb_ensure h cfg w = (r, w') \<Longrightarrow> ran (in_container mongo_container) w w'"
  by (auto simp: mongodb_ensure_def mongoEval_def split: if_splits intro: ran_mongoShell)

definition recoverable :: "AppEntry \<Rightarrow> string list" where
  "recoverable entry = filter (hasService entry) [RabbitMQ, MongoDB]"

lemma acts_issued: "acts P w w' \<Longrightarrow> acts Q w' w'' \<Longrightarrow> issued w w'' = issued w w' @ issued w' w''"
  by (rule issuedI) (simp add: acts_def)

lemma issued_emit [simp]: "issued w (emit l m w') = issued w w'"
  by (simp add: issued_def)

text \<open>
  One service of one app: it is listed either as put back, with the processes that did it, or as failed.
\<close>

lemma reconcile_service_outcome:
  assumes "reconcile_service name svc detail (x, w1) res = (res', w')" "acts P w w1"
  shows "acts P w w'" "issued w w' = issued w w1" "rrApp res' = rrApp res"
    "(x = None \<and> rrEnsured res' = rrEnsured res @ [svc] \<and> rrFailures res' = rrFailures res)
     \<or> (x \<noteq> None \<and> rrEnsured res' = rrEnsured res \<and> fmdom (rrFailures res') = finsert svc (fmdom (rrFailures res)))"
  using assms by (auto simp: reconcile_service_def split: option.splits)

text \<open>What the result of an app says, against the entry of the app and the processes that were run.\<close>

definition accounts :: "AppEntry \<Rightarrow> ReconcileResult \<Rightarrow> (string list \<times> string option) list \<Rightarrow> bool" where
  "accounts entry r cs =
     (list_all (\<lambda>s. (s \<in> set (rrEnsured r)) \<noteq> (s |\<in>| fmdom (rrFailures r))) (recoverable entry)
      \<and> set (rrEnsured r) \<subseteq> set (recoverable entry) \<and> fset (fmdom (rrFailures r)) \<subseteq> set (recoverable entry)
      \<and> replayed entry (rrEnsured r) cs)"

text \<open>One slot of the entry: the result \<open>res\<close> becomes \<open>res'\<close>, and \<open>cs\<close> are the processes of the step.\<close>

definition slot_step ::
  "AppEntry \<Rightarrow> string \<Rightarrow> ReconcileResult \<Rightarrow> (string list \<times> string option) list \<Rightarrow> ReconcileResult \<Rightarrow> bool" where
  "slot_step entry svc res cs res' =
     (rrApp res' = rrApp res
      \<and> (if \<not> hasService entry svc
         then rrEnsured res' = rrEnsured res \<and> fmdom (rrFailures res') = fmdom (rrFailures res)
         else rrEnsured res' = rrEnsured res @ [svc] \<and> fmdom (rrFailures res') = fmdom (rrFailures res)
              \<and> replayed entry [svc] cs
            \<or> rrEnsured res' = rrEnsured res \<and> fmdom (rrFailures res') = finsert svc (fmdom (rrFailures res))))"

lemma reconcile_slot:
  assumes "(case stored of None \<Rightarrow> (res, w)
      | Some cfg \<Rightarrow> reconcile_service name svc (detail cfg) (ensure cfg w) res) = (res', w')"
    "hasService entry svc = (stored \<noteq> None)"
    "\<And>cfg x v. stored = Some cfg \<Longrightarrow> ensure cfg w = (x, v) \<Longrightarrow>
       acts P w v \<and> (x = None \<longrightarrow> replayed entry [svc] (issued w v))"
  shows "acts P w w' \<and> slot_step entry svc res (issued w w') res'"
proof (cases stored)
  case None
  with assms(1,2) show ?thesis by (simp add: slot_step_def)
next
  case (Some cfg)
  obtain x v where e: "ensure cfg w = (x, v)" by fastforce
  with assms(1) Some have s: "reconcile_service name svc (detail cfg) (x, v) res = (res', w')" by simp
  note x = assms(3) [OF Some e]
  from reconcile_service_outcome [OF s conjunct1 [OF x]] x assms(2) Some show ?thesis
    by (auto simp: slot_step_def)
qed

lemma rabbitmq_slot:
  assumes "svcRabbitMQ (Svcs entry) = Some cfg" "rabbitmq_ensure h cfg w = (x, v)"
  shows "acts (for_services [RabbitMQ, MongoDB]) w v \<and> (x = None \<longrightarrow> replayed entry [RabbitMQ] (issued w v))"
proof
  show "acts (for_services [RabbitMQ, MongoDB]) w v"
    by (rule ran_acts [OF rabbitmq_ensure_ran [OF assms(2)]])
      (simp add: for_services_def in_container_def serviceContainer_def)
  show "x = None \<longrightarrow> replayed entry [RabbitMQ] (issued w v)"
    using rabbitmq_ensure_replays [of h cfg w v] assms by (simp add: replayed_def)
qed

lemma mongodb_slot:
  assumes "svcMongoDB (Svcs entry) = Some cfg" "mongodb_ensure h cfg w = (x, v)"
  shows "acts (for_services [RabbitMQ, MongoDB]) w v \<and> (x = None \<longrightarrow> replayed entry [MongoDB] (issued w v))"
proof
  show "acts (for_services [RabbitMQ, MongoDB]) w v"
    by (rule acts_mono [OF ran_acts [OF mongodb_ensure_ran [OF assms(2)]]])
      (simp add: for_services_def serviceContainer_def)
  show "x = None \<longrightarrow> replayed entry [MongoDB] (issued w v)"
    using mongodb_ensure_replays [of h cfg w v] assms by (simp add: replayed_def)
qed

lemma slot_steps_account:
  assumes "slot_step entry RabbitMQ \<lparr>rrApp = name, rrEnsured = [], rrFailures = fmempty\<rparr> cs r1"
    "slot_step entry MongoDB r1 ds r"
  shows "rrApp r = name \<and> accounts entry r (cs @ ds)"
proof -
  have m: "replayed entry ss cs \<Longrightarrow> replayed entry ss (cs @ ds)"
    "replayed entry ss ds \<Longrightarrow> replayed entry ss (cs @ ds)" for ss
    by (simp_all add: replayed_mono)
  have "replayed entry [RabbitMQ, MongoDB] es
      = (replayed entry [RabbitMQ] es \<and> replayed entry [MongoDB] es)" "replayed entry [] es" for es
    by (simp_all add: replayed_def)
  with assms m show ?thesis
    by (auto simp: accounts_def recoverable_def slot_step_def split: if_splits)
qed

lemma reconcile_app_accounts:
  assumes "reconcile_app h name entry w = (r, w')"
  shows "acts (for_services [RabbitMQ, MongoDB]) w w' \<and> rrApp r = name \<and> accounts entry r (issued w w')"
proof -
  let ?P = "for_services [RabbitMQ, MongoDB]" and ?r0 = "\<lparr>rrApp = name, rrEnsured = [], rrFailures = fmempty\<rparr>"
  obtain r1 w1 where 1: "(case svcRabbitMQ (Svcs entry) of None \<Rightarrow> (?r0, w)
      | Some cfg \<Rightarrow> reconcile_service name RabbitMQ (''vhost='' @ rmq_Vhost cfg @ '' user='' @ rmq_Username cfg)
          (rabbitmq_ensure h cfg w) ?r0) = (r1, w1)" by fastforce
  with assms have 2: "(case svcMongoDB (Svcs entry) of None \<Rightarrow> (r1, w1)
      | Some cfg \<Rightarrow> reconcile_service name MongoDB (''db='' @ mongo_Database cfg @ '' user='' @ mongo_Username cfg)
          (mongodb_ensure h cfg w1) r1) = (r, w')" by (simp add: reconcile_app_def)
  have a: "acts ?P w w1 \<and> slot_step entry RabbitMQ ?r0 (issued w w1) r1"
    by (rule reconcile_slot [where detail = "\<lambda>cfg. ''vhost='' @ rmq_Vhost cfg @ '' user='' @ rmq_Username cfg"
          and ensure = "rabbitmq_ensure h", OF 1])
      (auto simp: hasService_def dest: rabbitmq_slot)
  have b: "acts ?P w1 w' \<and> slot_step entry MongoDB r1 (issued w1 w') r"
    by (rule reconcile_slot [where detail = "\<lambda>cfg. ''db='' @ mongo_Database cfg @ '' user='' @ mongo_Username cfg"
          and ensure = "mongodb_ensure h", OF 2])
      (auto simp: hasService_def dest: mongodb_slot)
  have "acts ?P w w'" "issued w w' = issued w w1 @ issued w1 w'"
    using a b acts_trans acts_issued by blast+
  with slot_steps_account [OF conjunct2 [OF a] conjunct2 [OF b]] show ?thesis by simp
qed

lemma accounts_mono: "accounts entry r cs \<Longrightarrow> set cs \<subseteq> set ds \<Longrightarrow> accounts entry r ds"
  by (auto simp: accounts_def intro: replayed_mono)

lemma reconcile_all_accounts:
  "reconcile_all h es w = (rs, w') \<Longrightarrow>
     acts (for_services [RabbitMQ, MongoDB]) w w'
     \<and> list_all2 (\<lambda>e r. rrApp r = fst e \<and> accounts (snd e) r (issued w w')) es rs"
proof (induction es arbitrary: w rs w')
  case (Cons e es)
  obtain name entry where e: "e = (name, entry)" by fastforce
  obtain r w1 where 1: "reconcile_app h name entry w = (r, w1)" by fastforce
  obtain rs2 w2 where 2: "reconcile_all h es w1 = (rs2, w2)" by fastforce
  have eq: "rs = r # rs2" "w' = w2" using Cons.prems e 1 2 by simp_all
  note a = reconcile_app_accounts [OF 1] and b = Cons.IH [OF 2]
  have i: "issued w w2 = issued w w1 @ issued w1 w2" using a b acts_issued by blast
  have "accounts (snd x) y (issued w w2)" if "accounts (snd x) y (issued w1 w2)" for x :: "string \<times> AppEntry" and y
    using that by (rule accounts_mono) (simp add: i)
  moreover have "accounts entry r (issued w w2)" using a by (auto intro: accounts_mono simp: i)
  ultimately show ?case using a b acts_trans
    by (auto simp: eq e elim!: list_all2_mono)
qed simp

text \<open>C8: reconciling answers, for every app of the registry in name order, with a result that accounts for each of its
  recoverable services, RabbitMQ and MongoDB: it is either listed as put back, and then the processes that were run
  carry exactly the user name and the password the registry holds, or it is recorded as failed; a failure of one
  service stops none of the others.  Only those two containers are used, and no file changes.\<close>

theorem reconcile_covers:
  assumes "Reconcile h eng w = (Inr rs, w')" "store_load h (StorePath eng) w = Inr reg"
  shows "list_all2 (\<lambda>name r. rrApp r = name \<and> accounts (the (fmlookup (Apps reg) name)) r (issued w w'))
       (sorted_list_of_fset (fmdom (Apps reg))) rs
     \<and> acts (for_services [RabbitMQ, MongoDB]) w w'"
proof -
  have "reconcile_all h (sorted_apps reg) w = (rs, w')"
    using assms by (auto simp: Reconcile_def split: prod.splits)
  from reconcile_all_accounts [OF this] show ?thesis
    by (simp add: sorted_apps_def list_all2_map1 case_prod_unfold)
qed

text \<open>An app with a queue and a database, stored on the demonstration disk.\<close>

definition demo_broker_entry :: AppEntry where
  "demo_broker_entry =
     \<lparr>CreatedAt = ''2025-05-17T19:30:45.123Z'', Environment = [], SignozServiceName = [],
      Svcs = no_services\<lparr>
        svcRabbitMQ := Some \<lparr>rmq_Vhost = ''shop'', rmq_Username = ''shop'', rmq_Password = ''secret''\<rparr>,
        svcMongoDB := Some \<lparr>mongo_Database = ''shop'', mongo_Username = ''shop'', mongo_Password = ''secret''\<rparr>\<rparr>\<rparr>"

definition demo_broker :: Registry where
  "demo_broker = \<lparr>Version = 1, Apps = fmupd ''shop'' demo_broker_entry fmempty\<rparr>"

definition demo_broker_saved :: "unit world" where
  "demo_broker_saved = snd (store_save demo_host ''/d/apps.json'' demo_broker demo_world)"

lemma demo_broker_load: "store_load demo_host ''/d/apps.json'' demo_broker_saved = Inr demo_broker"
proof -
  obtain w where w: "store_save demo_host ''/d/apps.json'' demo_broker demo_world = (None, w)"
    using store_save_ready [OF demo_facts(1,3,4)] by blast
  have "storable demo_broker" by code_simp
  from store_save_load [OF demo_facts(3,2) this w] w show ?thesis
    by (simp add: demo_broker_saved_def saved_version_def demo_broker_def)
qed

theorem reconcile_covers_witness:
  "\<exists>r w'. Reconcile demo_host demo_engine demo_broker_saved = (Inr [r], w') \<and> rrApp r = ''shop''
     \<and> list_all (\<lambda>s. (s \<in> set (rrEnsured r)) \<noteq> (s |\<in>| fmdom (rrFailures r))) [RabbitMQ, MongoDB]
     \<and> acts (for_services [RabbitMQ, MongoDB]) demo_broker_saved w'"
proof -
  have l: "store_load demo_host (StorePath demo_engine) demo_broker_saved = Inr demo_broker"
    using demo_broker_load by (simp add: demo_engine_def)
  obtain rs w' where "reconcile_all demo_host (sorted_apps demo_broker) demo_broker_saved = (rs, w')" by fastforce
  with l have r: "Reconcile demo_host demo_engine demo_broker_saved = (Inr rs, w')" by (simp add: Reconcile_def)
  have "sorted_list_of_fset (fmdom (Apps demo_broker)) = [''shop'']" "recoverable demo_broker_entry = [RabbitMQ, MongoDB]"
    by (simp add: demo_broker_def sorted_list_of_fset.rep_eq) code_simp
  with reconcile_covers [OF r l] r show ?thesis
    by (auto simp: demo_broker_def accounts_def list_all2_Cons1)
qed

end
