(* ===== verification/Concurrent.thy ===== *)
theory Concurrent
  imports Recovery
begin

text \<open>
  Two setups at once.  The registry file has no lock: \<open>SetupApp\<close> reads it, checks the targets against what it read,
  and writes that back with its own entries.  \<open>setup_begin\<close> is the first part of \<open>SetupApp\<close>, up to and with the
  look at the containers, \<open>setup_targets\<close> the second; another process (or another request of the web server) may run
  between them.
\<close>

definition setup_begin :: "'d host \<Rightarrow> Engine \<Rightarrow> string \<Rightarrow> SetupOptions \<Rightarrow> 'd world \<Rightarrow> Registry result \<times> 'd world" where
  "setup_begin h eng app opts w =
     (case validate_app_name app of
        Some e \<Rightarrow> (Inl e, w)
      | None \<Rightarrow>
     (if soServices opts = [] then (Inl (tagged ErrNoServices []), w)
      else
     (case parse_services (soServices opts) of
        Inl e \<Rightarrow> (Inl e, w)
      | Inr _ \<Rightarrow>
     (case store_load h (StorePath eng) w of
        Inl e \<Rightarrow> (Inl e, w)
      | Inr reg \<Rightarrow>
     (case check_targets reg (setup_list app opts) of
        Some e \<Rightarrow> (Inl e, w)
      | None \<Rightarrow>
     (case containerCheck h (soServices opts) w of
        (Some e, w1) \<Rightarrow> (Inl e, w1)
      | (None, w1) \<Rightarrow> (Inr reg, w1)))))))"

lemma SetupApp_split:
  "SetupApp h eng app opts w =
     (case setup_begin h eng app opts w of
        (Inl e, w1) \<Rightarrow> (([], Some e), w1)
      | (Inr reg, w1) \<Rightarrow> setup_targets h (StorePath eng) opts (setup_list app opts) reg [] w1)"
  by (simp add: SetupApp_def setup_begin_def setup_list_def Let_def split: option.split sum.split prod.split)

lemma setup_begin_ok:
  assumes "setup_begin h eng app opts w = (Inr reg, w1)"
  shows "name_pattern app" "store_load h (StorePath eng) w = Inr reg" "check_targets reg (setup_list app opts) = None"
    "ran is_inspect w w1"
  using assms
  by (auto simp: setup_begin_def validate_app_name_def app_name_pattern_def
      split: option.splits if_splits sum.splits prod.splits dest: containerCheck_ran)

text \<open>C4: two setups of different apps at the same time can both succeed and one of them be lost: when the first has
  read the registry before the second starts, and writes after the second has ended, then the apps of the second,
  which were registered, are no longer in the registry at the end; what was provisioned for them stays behind
  with nothing that knows of it.\<close>

theorem concurrent_setup_loses:
  assumes env: "reads_ok h" "registry_path (StorePath eng)" "ascii (getenv h ''SIGNOZ_DEFAULT_ENV'')"
    and texts: "list_all ascii (soEnv optsA # soEnvs optsA)" "list_all ascii (soEnv optsB # soEnvs optsB)"
    and reads: "setup_begin h eng appA optsA w = (Inr reg, w1)" "storable reg"
    and other: "SetupApp h eng appB optsB w1 = ((resB, None), w2)"
    and writes: "setup_targets h (StorePath eng) optsA (setup_list appA optsA) reg [] w2 = ((resA, None), w3)"
    and apart: "tgName ` set (setup_list appA optsA) \<inter> tgName ` set (setup_list appB optsB) = {}"
  shows "\<exists>reg2 reg3. store_load h (StorePath eng) w2 = Inr reg2 \<and> store_load h (StorePath eng) w3 = Inr reg3
    \<and> (\<forall>t \<in> set (setup_list appB optsB).
         fmlookup (Apps reg2) (tgName t) \<noteq> None \<and> fmlookup (Apps reg3) (tgName t) = None)"
proof -
  note a = setup_begin_ok [OF reads(1)]
  have load: "store_load h (StorePath eng) w1 = Inr reg"
    using a(2) acts_store [OF ran_acts [OF a(4)] env(1)] by simp
  note b = SetupApp_registers [OF env(1,2) load reads(2) texts(2) env(3) other]
  have new: "list_all (\<lambda>t. fmlookup (Apps reg) (tgName t) = None) (setup_list appB optsB)"
    using SetupApp_phases [OF other] load by (auto simp: check_targets_None list_all_iff)
  obtain resA' where c: "list_all2 (answers (soServices optsA)) (setup_list appA optsA) resA'"
    "store_load h (StorePath eng) w3 = Inr (saved_version (fold put_entry resA' reg))"
    using setup_targets_spec [OF env(1,2) writes reads(2) ascii_setup_list [OF a(1,3) texts(1) env(3)]] by auto
  have "fmlookup (Apps (fold put_entry resB reg)) (tgName t) \<noteq> None
      \<and> fmlookup (Apps (fold put_entry resA' reg)) (tgName t) = None" if "t \<in> set (setup_list appB optsB)" for t
    using that new apart answers_names [OF c(1)] b answers_names [of "soServices optsB" "setup_list appB optsB" resB]
      lookup_put_entries(1) [of resB reg "tgName t"] lookup_put_entries(1) [of resA' reg "tgName t"]
    by (auto simp: list_all_iff)
  then show ?thesis using b c(2) by (intro exI conjI) auto
qed

text \<open>The apps of \<open>blog\<close> are set up while \<open>shop\<close> is, on the demonstration disk.\<close>

lemma demo_containers: "\<exists>w1. containerCheck demo_host [Signoz] w = (None, w1)"
proof -
  have t: "trim_space ''true'' = ''true''" by code_simp
  obtain running w1 where 1: "IsContainerRunning demo_host (serviceContainer Signoz) w = (running, w1)" by fastforce
  then have running
    by (auto simp: IsContainerRunning_def run_docker_def demo_host_def demo_docker_def demo_result_def t Let_def
        split: prod.splits)
  with 1 show ?thesis by simp
qed

lemma demo_setup_begins:
  assumes "validate_app_name app = None" "check_targets empty_registry (setup_list app demo_setup) = None"
    "store_load demo_host ''/d/apps.json'' w = Inr empty_registry" "disk_ready ''/d/apps.json'' w"
  shows "\<exists>w1. setup_begin demo_host demo_engine app demo_setup w = (Inr empty_registry, w1)
    \<and> store_load demo_host ''/d/apps.json'' w1 = Inr empty_registry \<and> disk_ready ''/d/apps.json'' w1"
proof -
  obtain w1 where 1: "containerCheck demo_host [Signoz] w = (None, w1)" using demo_containers by blast
  have "soServices demo_setup = [Signoz]" by (simp add: demo_setup_def)
  then have b: "setup_begin demo_host demo_engine app demo_setup w = (Inr empty_registry, w1)"
    using assms(1-3) demo_setup_checks(2) 1 by (simp add: setup_begin_def demo_engine_def)
  note r = containerCheck_ran [OF 1]
  have "store_load demo_host ''/d/apps.json'' w1 = Inr empty_registry"
    using acts_store [OF ran_acts [OF r] demo_facts(2)] assms(3) by simp
  moreover have "disk_ready ''/d/apps.json'' w1"
    using assms(4) ran_files [OF r] disk_ready_files [of w1 w] by simp
  ultimately show ?thesis using b by blast
qed

theorem concurrent_setup_loses_witness:
  "\<exists>w1 resB w2 resA w3 reg3.
     setup_begin demo_host demo_engine ''shop'' demo_setup demo_world = (Inr empty_registry, w1)
     \<and> SetupApp demo_host demo_engine ''blog'' demo_setup w1 = ((resB, None), w2)
     \<and> setup_targets demo_host ''/d/apps.json'' demo_setup (setup_list ''shop'' demo_setup) empty_registry [] w2
         = ((resA, None), w3)
     \<and> store_load demo_host ''/d/apps.json'' w3 = Inr reg3 \<and> fmlookup (Apps reg3) ''blog-staging'' = None"
proof -
  obtain w1 where a: "setup_begin demo_host demo_engine ''shop'' demo_setup demo_world = (Inr empty_registry, w1)"
    "store_load demo_host ''/d/apps.json'' w1 = Inr empty_registry" "disk_ready ''/d/apps.json'' w1"
    using demo_setup_begins [OF demo_setup_checks(1,3) demo_facts(5,4)] by blast
  have v: "validate_app_name ''blog'' = None" "check_targets empty_registry (setup_list ''blog'' demo_setup) = None"
    by code_simp+
  obtain w1' where b: "setup_begin demo_host demo_engine ''blog'' demo_setup w1 = (Inr empty_registry, w1')"
    "disk_ready ''/d/apps.json'' w1'"
    using demo_setup_begins [OF v a(2,3)] by blast
  obtain resB w2 where 2: "setup_targets demo_host ''/d/apps.json'' demo_setup (setup_list ''blog'' demo_setup)
      empty_registry [] w1' = ((resB, None), w2)" "disk_ready ''/d/apps.json'' w2"
    using setup_targets_ready [OF demo_facts(1,3) b(2)] by blast
  obtain resA w3 where 3: "setup_targets demo_host ''/d/apps.json'' demo_setup (setup_list ''shop'' demo_setup)
      empty_registry [] w2 = ((resA, None), w3)"
    using setup_targets_ready [OF demo_facts(1,3) 2(2)] by blast
  have e: "StorePath demo_engine = ''/d/apps.json''" by (simp add: demo_engine_def)
  have s: "SetupApp demo_host demo_engine ''blog'' demo_setup w1 = ((resB, None), w2)"
    using b(1) 2(1) by (simp add: SetupApp_split e)
  have texts: "list_all ascii (soEnv demo_setup # soEnvs demo_setup)" "ascii (getenv demo_host ''SIGNOZ_DEFAULT_ENV'')"
    by code_simp+
  have apart: "tgName ` set (setup_list ''shop'' demo_setup) \<inter> tgName ` set (setup_list ''blog'' demo_setup) = {}"
    by code_simp
  have "map tgName (setup_list ''blog'' demo_setup) = [''blog-staging'', ''blog-production'']" by code_simp
  then obtain t where t: "t \<in> set (setup_list ''blog'' demo_setup)" "tgName t = ''blog-staging''"
    by (cases "setup_list ''blog'' demo_setup") auto
  have path: "registry_path (StorePath demo_engine)" using demo_facts(3) by (simp add: e)
  have "setup_targets demo_host (StorePath demo_engine) demo_setup (setup_list ''shop'' demo_setup)
      empty_registry [] w2 = ((resA, None), w3)" using 3 by (simp only: e)
  from concurrent_setup_loses [OF demo_facts(2) path texts(2,1,1) a(1) demo_facts(6) s this apart]
  obtain reg3 where "store_load demo_host ''/d/apps.json'' w3 = Inr reg3" "fmlookup (Apps reg3) ''blog-staging'' = None"
    using t unfolding e by metis
  with a(1) s 3 show ?thesis by blast
qed

text \<open>
  A removal between the two parts of a setup is undone: its app is gone when it ends, and back in the registry when the
  setup has ended, with credentials for services that were torn down.
\<close>

theorem concurrent_remove_undone:
  assumes env: "reads_ok h" "registry_path (StorePath eng)" "ascii (getenv h ''SIGNOZ_DEFAULT_ENV'')"
    and texts: "list_all ascii (soEnv opts # soEnvs opts)"
    and reads: "setup_begin h eng app opts w = (Inr reg, w1)" "storable reg"
    and other: "RemoveApp h eng gone w1 = (None, w2)"
    and writes: "setup_targets h (StorePath eng) opts (setup_list app opts) reg [] w2 = ((res, None), w3)"
  shows "\<exists>reg2 reg3. store_load h (StorePath eng) w2 = Inr reg2 \<and> store_load h (StorePath eng) w3 = Inr reg3
    \<and> fmlookup (Apps reg2) gone = None \<and> fmlookup (Apps reg3) gone = fmlookup (Apps reg) gone
    \<and> fmlookup (Apps reg) gone \<noteq> None"
proof -
  note a = setup_begin_ok [OF reads(1)]
  have load: "store_load h (StorePath eng) w1 = Inr reg"
    using a(2) acts_store [OF ran_acts [OF a(4)] env(1)] by simp
  note r = RemoveApp_removes [OF env(1,2) load reads(2) other]
  obtain res' where c: "list_all2 (answers (soServices opts)) (setup_list app opts) res'"
    "store_load h (StorePath eng) w3 = Inr (saved_version (fold put_entry res' reg))"
    using setup_targets_spec [OF env(1,2) writes reads(2) ascii_setup_list [OF a(1,3) texts env(3)]] by auto
  have "\<forall>t \<in> set (setup_list app opts). tgName t \<noteq> gone"
    using a(3) r(1) by (auto simp: check_targets_None list_all_iff)
  then have "fmlookup (Apps (fold put_entry res' reg)) gone = fmlookup (Apps reg) gone"
    using answers_names [OF c(1)] by (intro lookup_put_entries(2)) auto
  with r c(2) show ?thesis by auto
qed

end
