(* ===== verification/Handover.thy ===== *)
theory Handover
  imports Lifecycle
begin

text \<open>
  What an application is handed.  \<open>SetupApp\<close> provisions, stores the entry in the registry file and returns;
  \<open>Credentials\<close> (\<open>shelf credentials\<close>, the download of the app page) reads the file again and renders the \<open>.env\<close> text.
  Here the two are composed with the reader of \<open>.env\<close> files: what comes out is what was provisioned.
\<close>

section \<open>Values that need no quotes\<close>

lemma env_value_name: "name_pattern s \<Longrightarrow> env_value s"
proof -
  assume n: "name_pattern s"
  have "\<not> is_name_char CHR 0x22" "\<not> is_name_char CHR 0x27" by (simp_all add: is_name_char_def char_class_defs)
  then have "CHR 0x22 \<notin> set s" "CHR 0x27 \<notin> set s" using name_pattern_excludes [OF n] by blast+
  then show "env_value s" using name_pattern_graphic [OF n] by (cases s) (auto simp: env_value_def)
qed

lemma env_value_password: "generate h len w = (p, w') \<Longrightarrow> env_value p"
proof -
  assume "generate h len w = (p, w')"
  then have p: "list_all is_password_char p" using generate_frame by blast
  then have "list_all graphic p" by (rule list_all_mono) (rule is_password_char_graphic)
  moreover have "p = [] \<or> hd p \<noteq> CHR 0x22 \<and> hd p \<noteq> CHR 0x27"
    using password_quote_free [OF p] by (cases p) auto
  ultimately show ?thesis by (simp add: env_value_def)
qed

lemma env_value_ascii: "env_value v \<Longrightarrow> ascii v"
  by (simp add: env_value_def ascii_graphic)

lemma env_value_trim: "env_value v \<Longrightarrow> trim_space v = v"
  by (simp add: env_value_def trim_space_all_graphic)

lemma env_ready_values: "env_ready s = list_all env_value (services_values s)"
  by (simp add: env_ready_def services_strings_def services_values_def)

lemma env_ready_set:
  "list_all env_value (config_values cfg) \<Longrightarrow> env_ready s \<Longrightarrow> env_ready (set_slot cfg s)"
  by (cases cfg) (auto simp: env_ready_values config_values_def services_values_def no_services_def)

section \<open>Everything provisioned can be handed over\<close>

definition env_options :: "'d host \<Rightarrow> provisionOptions \<Rightarrow> bool" where
  "env_options h opts =
     (env_value (poSignozServiceName opts) \<and> env_value (poSignozEnvironment opts)
      \<and> env_value (getenv h ''SIGNOZ_DEFAULT_ENV''))"

lemma provisionService_env:
  assumes "provisionService h svc app opts w = (Inr cfg, w')" "name_pattern app" "env_options h opts"
  shows "list_all env_value (config_values cfg)"
proof -
  have "app \<noteq> []" using assms(2) by auto
  then have a: "env_value app" "env_value (app @ '':'')"
    using env_value_name [OF assms(2)] env_value_append [of app "'':''"] assms(2)
    by (auto simp: graphic_def less_eq_char_def dest: name_pattern_chars)
  have lit: "env_value ''http://aistor:9000''" "env_value ''dev''" "env_value []"
    by (simp_all add: env_value_def graphic_def less_eq_char_def)
  note cv = config_values_def services_values_def no_services_def
  from assms(1) consider
      c where "postgres_provision h app w = (Inr c, w')" "cfg = CfgPostgres c"
    | c where "redis_provision h app (poFullAccess opts) w = (Inr c, w')" "cfg = CfgRedis c"
    | c where "rabbitmq_provision h app w = (Inr c, w')" "cfg = CfgRabbitMQ c"
    | c where "aistor_provision h app w = (Inr c, w')" "cfg = CfgAIStor c"
    | c where "mongodb_provision h app w = (Inr c, w')" "cfg = CfgMongoDB c"
    | "cfg = CfgSignoz (signoz_provision h app (poSignozServiceName opts) (poSignozEnvironment opts))"
    by (auto simp: provisionService_def split: if_splits dest!: lift_config_Inr)
  then show ?thesis
  proof cases
    case 6
    then show ?thesis using a lit assms(3)
      by (simp add: cv signoz_provision_def env_options_def env_value_trim Let_def)
  qed (use a lit in \<open>auto simp: cv dest!: provisioned_configs dest: env_value_password\<close>)
qed

lemma provision_all_env:
  "provision_all h app opts svcs res w = (res', w') \<Longrightarrow> name_pattern app \<Longrightarrow> env_options h opts \<Longrightarrow>
   env_ready (Svcs (trEntry res)) \<Longrightarrow> env_ready (Svcs (trEntry res'))"
proof (induction svcs arbitrary: res w)
  case (Cons svc svcs)
  obtain r w1 where 1: "provisionService h svc app opts w = (r, w1)" by fastforce
  show ?case
  proof (cases r)
    case (Inl e)
    with Cons 1 show ?thesis by auto
  next
    case (Inr cfg)
    with 1 Cons.prems have "list_all env_value (config_values cfg)"
      by (intro provisionService_env [of h svc app opts w cfg w1]) auto
    then have "env_ready (Svcs (setServiceConfig (trEntry res) svc cfg))"
      using Cons.prems(4) by (simp add: setServiceConfig_def env_ready_set)
    with Cons 1 Inr show ?thesis by auto
  qed
qed simp

definition env_target_ready :: "'d host \<Rightarrow> Target \<Rightarrow> bool" where
  "env_target_ready h t =
     (name_pattern (tgName t) \<and> env_value (tgSignozServiceName t) \<and> env_value (tgSignozEnv t)
      \<and> env_value (getenv h ''SIGNOZ_DEFAULT_ENV''))"

lemma setup_target_env:
  assumes "setup_target h opts t w = (res, w')" "env_target_ready h t"
  shows "env_ready (Svcs (trEntry res))"
proof -
  have "env_ready (Svcs (new_entry h t w))"
    by (simp add: new_entry_def env_ready_values services_values_def no_services_def)
  then show ?thesis
    using provision_all_env [OF assms(1) [unfolded setup_target_def]] assms(2)
    by (simp add: env_target_ready_def env_options_def)
qed

lemma setup_targets_env:
  "setup_targets h path opts ts reg results w = ((results', None), w') \<Longrightarrow> list_all (env_target_ready h) ts \<Longrightarrow>
   list_all (\<lambda>res. env_ready (Svcs (trEntry res))) results \<Longrightarrow>
   list_all (\<lambda>res. env_ready (Svcs (trEntry res))) results'"
proof (induction ts arbitrary: reg results w)
  case (Cons t ts)
  obtain res w1 where 1: "setup_target h opts t w = (res, w1)" by fastforce
  obtain w2 where 2: "store_save h path (put_entry res reg) w1 = (None, w2)"
    using Cons.prems(1) 1 by (auto split: prod.splits option.splits)
  have "list_all (\<lambda>res. env_ready (Svcs (trEntry res))) (results @ [res])"
    using Cons.prems(2,3) setup_target_env [OF 1] by simp
  moreover have "setup_targets h path opts ts (put_entry res reg) (results @ [res]) w2 = ((results', None), w')"
    using Cons.prems(1) 1 2 by simp
  ultimately show ?case using Cons.IH Cons.prems(2) by simp
qed simp

lemma setup_list_env:
  assumes "name_pattern app" "check_targets reg (setup_list app opts) = None"
    "list_all env_value (soEnv opts # soEnvs opts)" "env_value (getenv h ''SIGNOZ_DEFAULT_ENV'')"
  shows "list_all (env_target_ready h) (setup_list app opts)"
  using assms env_value_name [OF assms(1)]
  by (auto simp: check_targets_None setup_list_def BuildSetupTargets_def env_target_def env_target_ready_def
      list_all_iff split: if_splits)

lemma setup_list_inj:
  "t \<in> set (setup_list app opts) \<Longrightarrow> t' \<in> set (setup_list app opts) \<Longrightarrow> tgName t = tgName t' \<Longrightarrow> t = t'"
  by (auto simp: setup_list_def BuildSetupTargets_def env_target_def split: if_splits)

lemma put_entries_last:
  "n \<in> trName ` set rs \<Longrightarrow>
     \<exists>res \<in> set rs. trName res = n \<and> fmlookup (Apps (fold put_entry rs reg)) n = Some (trEntry res)"
  by (induction rs rule: rev_induct) (auto simp: put_entry_def)

section \<open>The hand-over\<close>

text \<open>C6: after a successful setup the credentials of every app it made can be shown, and the text is a \<open>.env\<close> file that
  reads back as exactly the variables of what was provisioned: through the provisioning, the registry file (encrypted
  or not), its JSON, the rendering and the parser no name, password or address is lost or altered.\<close>

theorem handover:
  assumes "reads_ok h" "registry_path (StorePath eng)" "store_load h (StorePath eng) w = Inr reg" "storable reg"
    "list_all env_value (soEnv opts # soEnvs opts)" "env_value (getenv h ''SIGNOZ_DEFAULT_ENV'')"
    "SetupApp h eng app opts w = ((results, None), w')"
  shows "\<forall>t \<in> set (setup_list app opts). \<exists>res \<in> set results. \<exists>text. answers (soServices opts) t res
    \<and> Credentials h eng (tgName t) w' = Inr text
    \<and> (\<forall>k. parse_dotenv text k = map_of (entry_vars (trEntry res)) k)"
proof
  fix t assume t: "t \<in> set (setup_list app opts)"
  have ascii: "list_all ascii (soEnv opts # soEnvs opts)" "ascii (getenv h ''SIGNOZ_DEFAULT_ENV'')"
    using assms(5,6) env_value_ascii by (auto simp: list_all_iff)
  note r = SetupApp_registers [OF assms(1-4) ascii assms(7)]
  obtain w1 where p: "name_pattern app" "check_targets reg (setup_list app opts) = None"
    "setup_targets h (StorePath eng) opts (setup_list app opts) reg [] w1 = ((results, None), w')"
    using SetupApp_phases [OF assms(7)] assms(3) by auto
  have ready: "list_all (\<lambda>res. env_ready (Svcs (trEntry res))) results"
    by (rule setup_targets_env [OF p(3) setup_list_env [OF p(1,2) assms(5,6)]]) simp
  have "tgName t \<in> trName ` set results" using answers_names [OF r [THEN conjunct2, THEN conjunct1]] t by auto
  then obtain res where res: "res \<in> set results" "trName res = tgName t"
    "fmlookup (Apps (fold put_entry results reg)) (tgName t) = Some (trEntry res)"
    using put_entries_last by blast
  obtain t' where "t' \<in> set (setup_list app opts)" "answers (soServices opts) t' res"
    using r res(1) by (metis in_set_conv_nth list_all2_conv_all_nth)
  moreover from this have "t' = t" using res(2) t setup_list_inj [of t' app opts t] by (simp add: answers_def)
  ultimately have a: "answers (soServices opts) t res" by simp
  have "validate_app_name (tgName t) = None"
    using p(2) t by (auto simp: check_targets_None list_all_iff validate_ok)
  then have "Credentials h eng (tgName t) w' = Inr (env_file (trEntry res))"
    using r res(3) by (simp add: Credentials_def get_app_def find_app_def)
  moreover have "parse_dotenv (env_file (trEntry res)) k = map_of (entry_vars (trEntry res)) k" for k
    using ready res(1) by (intro parse_env_file) (simp add: list_all_iff)
  ultimately show "\<exists>res \<in> set results. \<exists>text. answers (soServices opts) t res
    \<and> Credentials h eng (tgName t) w' = Inr text
    \<and> (\<forall>k. parse_dotenv text k = map_of (entry_vars (trEntry res)) k)" using a res(1) by blast
qed

theorem handover_witness:
  "\<exists>results w' text res. SetupApp demo_host demo_engine ''shop'' demo_setup demo_world = ((results, None), w')
     \<and> Credentials demo_host demo_engine ''shop-staging'' w' = Inr text \<and> res \<in> set results
     \<and> parse_dotenv text ''OTEL_SERVICE_NAME'' = map_of (entry_vars (trEntry res)) ''OTEL_SERVICE_NAME''"
proof -
  obtain w1 where 1: "containerCheck demo_host (soServices demo_setup) demo_world = (None, w1)"
    using demo_container_check by (auto simp: demo_setup_def)
  have e: "StorePath demo_engine = ''/d/apps.json''" by (simp add: demo_engine_def)
  obtain results w' where s: "SetupApp demo_host demo_engine ''shop'' demo_setup demo_world = ((results, None), w')"
    using SetupApp_ready [of demo_host demo_engine demo_world "''shop''" demo_setup "[Signoz]" empty_registry w1]
      demo_facts demo_setup_checks 1 by (auto simp: e validate_ok)
  have env: "list_all env_value (soEnv demo_setup # soEnvs demo_setup)" "env_value (getenv demo_host ''SIGNOZ_DEFAULT_ENV'')"
    by code_simp+
  have "map tgName (setup_list ''shop'' demo_setup) = [''shop-staging'', ''shop-production'']" by code_simp
  then obtain t where "t \<in> set (setup_list ''shop'' demo_setup)" "tgName t = ''shop-staging''"
    by (cases "setup_list ''shop'' demo_setup") auto
  with handover [OF demo_facts(2) _ _ demo_facts(6) env s] demo_facts(3,5) s show ?thesis
    unfolding e by metis
qed

end
